(* ===== verification/Fw_Prelude.thy ===== *)
theory Fw_Prelude
  imports Main "HOL-Library.Word" "HOL-Library.Sublist"
begin

unbundle bit_operations_syntax

section \<open>Shared types, the C string library and generic lemmas\<close>

text \<open>
  The vocabulary the component theories share.

  \<^item> Bytes. A C \<^verbatim>\<open>char\<close> buffer is a list of \<^typ>\<open>char\<close>, the 8-bit character type of
    HOL. A buffer that holds a NUL-terminated string is the list of bytes the code wrote; the part
    C string functions see is \<open>cstr\<close>, everything before the first NUL.
  \<^item> Machine integers are words of their width (\<open>u8\<close> to \<open>u64\<close>), so increments wrap.
    A C \<^verbatim>\<open>int\<close> whose range the code never leaves is an \<^typ>\<open>int\<close> or a \<^typ>\<open>nat\<close>.
  \<^item> \<open>ntohs\<close> and \<open>ntohl\<close> are the byte swaps they are on the little-endian hosts the
    firewall is built for.
  \<^item> The functions of \<^verbatim>\<open><string.h>\<close>, \<^verbatim>\<open><ctype.h>\<close> and \<^verbatim>\<open><stdio.h>\<close> the sources call are
    modelled on strings: a pointer result is the index it points at, \<^verbatim>\<open>NULL\<close> is \<^term>\<open>None\<close>.
\<close>

subsection \<open>Machine types\<close>

type_synonym byte = char
type_synonym u8 = "8 word"
type_synonym u16 = "16 word"
type_synonym u32 = "32 word"
type_synonym u64 = "64 word"

abbreviation NUL :: char where
  "NUL \<equiv> CHR 0x00"

text \<open>Facts that evaluate the C string functions on literals and that component proofs share.\<close>

named_theorems cstr_simps "rules that rewrite the C string library"
named_theorems len_bounds "length bounds of the buffers the code writes"
named_theorems pool_inv "preservation of the component invariants"

definition ord :: "char \<Rightarrow> nat" where
  [cstr_simps]: "ord c = of_char c"

subsection \<open>Byte order\<close>

definition byte_swap16 :: "u16 \<Rightarrow> u16" where
  "byte_swap16 w = push_bit 8 w OR drop_bit 8 w"

definition byte_swap32 :: "u32 \<Rightarrow> u32" where
  "byte_swap32 w = push_bit 24 (take_bit 8 w) OR push_bit 16 (take_bit 8 (drop_bit 8 w)) OR
                   push_bit 8 (take_bit 8 (drop_bit 16 w)) OR take_bit 8 (drop_bit 24 w)"

abbreviation ntohs :: "u16 \<Rightarrow> u16" where "ntohs \<equiv> byte_swap16"
abbreviation htons :: "u16 \<Rightarrow> u16" where "htons \<equiv> byte_swap16"
abbreviation ntohl :: "u32 \<Rightarrow> u32" where "ntohl \<equiv> byte_swap32"
abbreviation htonl :: "u32 \<Rightarrow> u32" where "htonl \<equiv> byte_swap32"

text \<open>A little-endian load of a 16- or 32-bit field, as a struct overlaid on the buffer gives.\<close>

definition le16 :: "byte \<Rightarrow> byte \<Rightarrow> u16" where
  "le16 b0 b1 = of_char b0 OR push_bit 8 (of_char b1)"

definition le32 :: "byte \<Rightarrow> byte \<Rightarrow> byte \<Rightarrow> byte \<Rightarrow> u32" where
  "le32 b0 b1 b2 b3 = of_char b0 OR push_bit 8 (of_char b1) OR push_bit 16 (of_char b2) OR
                      push_bit 24 (of_char b3)"

text \<open>The bytes of a 32-bit field as they lie in memory, least significant first.\<close>

definition byte_of :: "u32 \<Rightarrow> nat \<Rightarrow> byte" where
  "byte_of w k = char_of (unat (take_bit 8 (drop_bit (8 * k) w)))"

definition encode_u32 :: "u32 \<Rightarrow> byte list" where
  "encode_u32 w = [byte_of w 0, byte_of w 1, byte_of w 2, byte_of w 3]"

text \<open>The dotted quad \<^verbatim>\<open>a.b.c.d\<close> as the 32-bit value in network byte order, \<^verbatim>\<open>inet_addr\<close>.\<close>

definition inet_addr4 :: "u8 \<Rightarrow> u8 \<Rightarrow> u8 \<Rightarrow> u8 \<Rightarrow> u32" where
  "inet_addr4 a b c d = htonl (push_bit 24 (ucast a) OR push_bit 16 (ucast b) OR
                               push_bit 8 (ucast c) OR ucast d)"

subsection \<open>Characters\<close>

definition isspace :: "char \<Rightarrow> bool" where
  [cstr_simps]: "isspace c \<longleftrightarrow> ord c = 32 \<or> (9 \<le> ord c \<and> ord c \<le> 13)"

definition isxdigit :: "char \<Rightarrow> bool" where
  [cstr_simps]: "isxdigit c \<longleftrightarrow> (48 \<le> ord c \<and> ord c \<le> 57) \<or> (65 \<le> ord c \<and> ord c \<le> 70) \<or>
     (97 \<le> ord c \<and> ord c \<le> 102)"

definition tolower :: "char \<Rightarrow> char" where
  "tolower c = (if 65 \<le> ord c \<and> ord c \<le> 90 then char_of (ord c + 32) else c)"

text \<open>One digit of \<^verbatim>\<open>strtol\<close> in base 16.\<close>

definition strtol_digit :: "char \<Rightarrow> nat" where
  [cstr_simps]: "strtol_digit c = (if 48 \<le> ord c \<and> ord c \<le> 57 then ord c - 48
     else if 97 \<le> ord c \<and> ord c \<le> 102 then ord c - 87
     else if 65 \<le> ord c \<and> ord c \<le> 70 then ord c - 55 else 0)"

definition strtol16 :: "string \<Rightarrow> nat" where
  [cstr_simps]: "strtol16 s = foldl (\<lambda>a c. 16 * a + strtol_digit c) 0 (takeWhile isxdigit s)"

subsection \<open>Strings\<close>

definition cstr :: "byte list \<Rightarrow> string" where
  [cstr_simps]: "cstr buf = takeWhile (\<lambda>c. c \<noteq> NUL) buf"

text \<open>\<^verbatim>\<open>strchr(s, c) != NULL\<close>; the terminator itself is found when \<^term>\<open>c\<close> is NUL.\<close>

definition strchr_found :: "string \<Rightarrow> char \<Rightarrow> bool" where
  [cstr_simps]: "strchr_found s c \<longleftrightarrow> c = NUL \<or> c \<in> set s"

text \<open>\<^verbatim>\<open>strstr\<close>: the index of the first occurrence.\<close>

fun strstr :: "string \<Rightarrow> string \<Rightarrow> nat option" where
  "strstr [] n = (if n = [] then Some 0 else None)"
| "strstr (h # hs) n = (if prefix n (h # hs) then Some 0 else map_option Suc (strstr hs n))"

definition strstr_found :: "string \<Rightarrow> string \<Rightarrow> bool" where
  [cstr_simps]: "strstr_found h n \<longleftrightarrow> strstr h n \<noteq> None"

text \<open>
  \<^verbatim>\<open>strncat(dst, src, size - strlen(dst) - 1)\<close> on a buffer of \<^term>\<open>sz\<close> bytes, and
  \<^verbatim>\<open>snprintf(buf, size, ...)\<close> of text already formatted: both write at most
  \<^term>\<open>sz - 1\<close> characters and the terminator.
\<close>

definition strncat_buf :: "nat \<Rightarrow> string \<Rightarrow> string \<Rightarrow> string" where
  [cstr_simps]: "strncat_buf sz dst src = dst @ take (sz - length dst - 1) src"

definition snprintf_buf :: "nat \<Rightarrow> string \<Rightarrow> string" where
  [cstr_simps]: "snprintf_buf sz s = take (sz - 1) s"

text \<open>\<^verbatim>\<open>%d\<close> and \<^verbatim>\<open>%u\<close>.\<close>

fun dec_nat :: "nat \<Rightarrow> string" where
  "dec_nat n = (if n < 10 then [char_of (48 + n)] else dec_nat (n div 10) @ [char_of (48 + n mod 10)])"

declare dec_nat.simps [simp del]

definition dec_int :: "int \<Rightarrow> string" where
  "dec_int k = (if k < 0 then CHR ''-'' # dec_nat (nat (- k)) else dec_nat (nat k))"

text \<open>
  The conversion \<^verbatim>\<open>%Ns\<close> of \<^verbatim>\<open>sscanf\<close>: skip white space, then read up to \<^term>\<open>n\<close> characters that
  are not white space; the conversion fails when there is none.
\<close>

definition scan_word :: "nat \<Rightarrow> string \<Rightarrow> (string \<times> string) option" where
  "scan_word n s = (let s' = dropWhile isspace s; w = take n (takeWhile (\<lambda>c. \<not> isspace c) s')
                    in if w = [] then None else Some (w, drop (length w) s'))"

subsection \<open>Lemmas on bytes and words\<close>

lemma byte_swap16_invol [simp]: "byte_swap16 (byte_swap16 w) = w"
  by (rule bit_word_eqI) (auto simp: byte_swap16_def bit_simps)

lemma byte_swap32_bit:
  "bit (byte_swap32 w) n \<longleftrightarrow>
     n < 32 \<and> bit w (if n < 8 then 24 + n else if n < 16 then 8 + n
                     else if n < 24 then n - 8 else n - 24)"
  by (auto simp: byte_swap32_def bit_simps split: if_splits)

lemma byte_swap32_invol [simp]: "byte_swap32 (byte_swap32 w) = w"
  by (rule bit_word_eqI) (auto simp: byte_swap32_bit)

lemma byte_swap32_inj [simp]: "byte_swap32 a = byte_swap32 b \<longleftrightarrow> a = b"
  by (metis byte_swap32_invol)

lemma byte_swap16_eq_iff: "byte_swap16 a = b \<longleftrightarrow> a = byte_swap16 b"
  by (metis byte_swap16_invol)

lemma of_char_byte_of: "(of_char (byte_of w k) :: u32) = take_bit 8 (drop_bit (8 * k) w)"
proof -
  let ?v = "take_bit 8 (drop_bit (8 * k) w)"
  have "unat ?v < 256" using take_bit_nat_less_exp [of 8 "unat (drop_bit (8 * k) w)"] by (simp add: unsigned_take_bit_eq)
  then have "(of_char (char_of (unat ?v)) :: nat) = unat ?v" by simp
  then have "(of_char (char_of (unat ?v)) :: u32) = of_nat (unat ?v)" by (metis of_nat_of_char)
  then show ?thesis by (simp add: byte_of_def)
qed

lemma le32_bytes: "le32 (byte_of w 0) (byte_of w 1) (byte_of w 2) (byte_of w 3) = w"
  unfolding le32_def of_char_byte_of
proof (rule bit_word_eqI)
  fix n assume "n < LENGTH(32)"
  then consider "n < 8" | "8 \<le> n" "n < 16" | "16 \<le> n" "n < 24" | "24 \<le> n" "n < 32" by fastforce
  then show "bit (take_bit 8 (drop_bit (8 * 0) w) OR push_bit 8 (take_bit 8 (drop_bit (8 * 1) w)) OR
      push_bit 16 (take_bit 8 (drop_bit (8 * 2) w)) OR push_bit 24 (take_bit 8 (drop_bit (8 * 3) w))) n = bit w n"
    by cases (auto simp: bit_simps)
qed

lemma of_char_mask: "(of_char (char_of (unat (m :: u8))) :: u8) = m"
proof -
  have "unat m < 2 ^ LENGTH(8)" by (rule unsigned_less)
  then have "unat m < 256" by simp
  then have "(of_char (char_of (unat m)) :: nat) = unat m" by simp
  then have "(of_char (char_of (unat m)) :: u8) = of_nat (unat m)" by (metis of_nat_of_char)
  then show ?thesis by simp
qed

lemma length_encode_u32 [simp]: "length (encode_u32 w) = 4"
  by (simp add: encode_u32_def)

lemma encode_u32_nth [simp]:
  "encode_u32 w ! 0 = byte_of w 0" "encode_u32 w ! Suc 0 = byte_of w 1" "encode_u32 w ! 2 = byte_of w 2" "encode_u32 w ! 3 = byte_of w 3"
  by (simp_all add: encode_u32_def)

lemma ord_less [simp]: "ord c < 256"
  by (simp add: ord_def)

lemma ord_inject [simp]: "ord a = ord b \<longleftrightarrow> a = b"
  by (simp add: ord_def)

lemma ord_char_of [simp]: "n < 256 \<Longrightarrow> ord (char_of n) = n"
  by (simp add: ord_def)

lemma char_of_ord [simp]: "char_of (ord c) = c"
  by (simp add: ord_def)

lemma tolower_idem [simp]: "tolower (tolower c) = tolower c"
  by (auto simp: tolower_def)

lemma ord_tolower: "ord (tolower c) = (if 65 \<le> ord c \<and> ord c \<le> 90 then ord c + 32 else ord c)"
  by (simp add: tolower_def)

lemma ord_NUL [simp]: "ord NUL = 0"
  by (simp add: ord_def)

lemma tolower_eq_NUL [simp]: "tolower c = NUL \<longleftrightarrow> c = NUL"
  unfolding ord_inject [symmetric] by (auto simp: ord_tolower)

lemma char_of_eval [cstr_simps]:
  "char_of (n :: nat) = Char (odd n) (odd (n div 2)) (odd (n div 4)) (odd (n div 8)) (odd (n div 16))
     (odd (n div 32)) (odd (n div 64)) (odd (n div 128))"
  by (simp add: char_of_def bit_iff_odd)

text \<open>Adding 32 to a capital letter sets bit 5; in this form \<open>simp\<close> evaluates it.\<close>

lemma tolower_Char [cstr_simps]:
  "tolower (Char b0 b1 b2 b3 b4 b5 b6 b7) =
     (let n = (of_char (Char b0 b1 b2 b3 b4 b5 b6 b7) :: nat)
      in if 65 \<le> n \<and> n \<le> 90 then Char b0 b1 b2 b3 b4 True b6 b7 else Char b0 b1 b2 b3 b4 b5 b6 b7)"
proof -
  let ?c = "Char b0 b1 b2 b3 b4 b5 b6 b7"
  have "ord (Char b0 b1 b2 b3 b4 True b6 b7) = ord ?c + 32" if "65 \<le> ord ?c" "ord ?c \<le> 90"
    using that
    by (cases b5; cases b6; cases b7)
       (auto simp: ord_def of_char_Char of_bool_def split: if_splits)
  then show ?thesis
    unfolding ord_inject [symmetric] by (auto simp: ord_tolower ord_def [symmetric] Let_def)
qed

subsection \<open>Lemmas on strings\<close>

lemma strstr_eq_None_iff: "strstr h n = None \<longleftrightarrow> \<not> sublist n h"
  by (induction h n rule: strstr.induct) (auto simp: sublist_Cons_right)

lemma strstr_found_iff: "strstr_found h n \<longleftrightarrow> sublist n h"
  by (auto simp: strstr_found_def strstr_eq_None_iff)

lemma strstr_SomeD:
  assumes "strstr h n = Some i"
  shows "i \<le> length h" and "prefix n (drop i h)" and "\<forall>j<i. \<not> prefix n (drop j h)"
proof -
  have "i \<le> length h \<and> prefix n (drop i h) \<and> (\<forall>j<i. \<not> prefix n (drop j h))"
    using assms
  proof (induction h n arbitrary: i rule: strstr.induct)
    case (2 h hs n)
    show ?case
    proof (cases i)
      case 0
      with 2 show ?thesis by (auto split: if_splits)
    next
      case (Suc k)
      with "2.prems" have np: "\<not> prefix n (h # hs)" and "strstr hs n = Some k"
        by (auto split: if_splits)
      with "2.IH" have "k \<le> length hs \<and> prefix n (drop k hs) \<and> (\<forall>j<k. \<not> prefix n (drop j hs))"
        by blast
      with np Suc show ?thesis by (auto simp: less_Suc_eq_0_disj)
    qed
  qed (auto split: if_splits)
  then show "i \<le> length h" and "prefix n (drop i h)" and "\<forall>j<i. \<not> prefix n (drop j h)"
    by blast+
qed

lemma strstr_LEAST: "strstr h n = (if sublist n h then Some (LEAST i. prefix n (drop i h)) else None)"
proof (cases "strstr h n")
  case None
  then show ?thesis by (simp add: strstr_eq_None_iff)
next
  case (Some i)
  have "(LEAST k. prefix n (drop k h)) = i"
    using strstr_SomeD [OF Some] by (intro Least_equality) (auto simp: not_less [symmetric])
  moreover have "sublist n h" using Some strstr_eq_None_iff [of h n] by simp
  ultimately show ?thesis using Some by simp
qed

lemma strstr_length: "strstr h n = Some i \<Longrightarrow> i + length n \<le> length h"
  using strstr_SomeD [of h n i] prefix_length_le [of n "drop i h"] by simp

lemma cstr_no_NUL [simp]: "NUL \<notin> set (cstr buf)"
  by (auto simp: cstr_def dest: set_takeWhileD)

lemma cstr_id: "NUL \<notin> set s \<Longrightarrow> cstr s = s"
  by (auto simp: cstr_def takeWhile_eq_all_conv)

lemma cstr_append_NUL: "NUL \<notin> set s \<Longrightarrow> cstr (s @ NUL # t) = s"
  unfolding cstr_def by (subst takeWhile_append2) auto

lemma length_cstr [len_bounds]: "length (cstr buf) \<le> length buf"
  by (simp add: cstr_def length_takeWhile_le)

lemma length_strncat_buf [len_bounds]: "length dst < sz \<Longrightarrow> length (strncat_buf sz dst src) < sz"
  by (simp add: strncat_buf_def)

lemma length_strncat_buf_ge: "length dst \<le> length (strncat_buf sz dst src)"
  by (simp add: strncat_buf_def)

lemma length_snprintf_buf [len_bounds]: "0 < sz \<Longrightarrow> length (snprintf_buf sz s) < sz"
  by (simp add: snprintf_buf_def)

lemma dec_nat_not_Nil [simp]: "dec_nat n \<noteq> []"
  by (subst dec_nat.simps) simp

lemma scan_word_length: "scan_word n s = Some (w, r) \<Longrightarrow> 0 < length w \<and> length w \<le> n"
  by (auto simp: scan_word_def Let_def split: if_splits)

end
