(* ===== verification/Fw_Types.thy ===== *)
theory Fw_Types
  imports Fw_Prelude
begin

section \<open>The shared structures of fw\_inspect.h\<close>

text \<open>
  The event, blocklist and packet-header structures of \<^verbatim>\<open>kernel/fw_inspect.h\<close>, the packet buffer
  of \<^verbatim>\<open>kernel/userspace_compat.h\<close>, and the constants of both. A packet is the list of its bytes;
  the header structs are what a little-endian overlay of \<^verbatim>\<open>struct iphdr\<close> and \<^verbatim>\<open>struct tcphdr\<close>
  reads from it. Fields in network byte order are kept as loaded.

  Reads past the end of a buffer are not given a made-up value: the bytes found there are a parameter
  (\<open>oob\<close>) of the definitions that perform such a read, and the theorems say when the result does not
  depend on it.
\<close>

subsection \<open>Constants\<close>

definition MAX_BLOCKLIST_IPS :: nat where
  "MAX_BLOCKLIST_IPS = 1024"

datatype severity = SEVERITY_INFO | SEVERITY_WARNING | SEVERITY_CRITICAL

datatype threat =
    THREAT_PHP_SHELL | THREAT_XSS | THREAT_SYN_FLOOD | THREAT_SLOWLORIS | THREAT_BLOCKLIST
  | THREAT_SQLI | THREAT_CMDI | THREAT_PATH_TRAV | THREAT_LFI | THREAT_RFI | THREAT_BOT
  | THREAT_YARA | THREAT_REPUTATION

text \<open>The numbers the header gives the levels and the threat types.\<close>

fun severity_code :: "severity \<Rightarrow> nat" where
  "severity_code SEVERITY_INFO = 0"
| "severity_code SEVERITY_WARNING = 1"
| "severity_code SEVERITY_CRITICAL = 2"

fun threat_code :: "threat \<Rightarrow> nat" where
  "threat_code THREAT_PHP_SHELL = 1"
| "threat_code THREAT_XSS = 2"
| "threat_code THREAT_SYN_FLOOD = 3"
| "threat_code THREAT_SLOWLORIS = 4"
| "threat_code THREAT_BLOCKLIST = 5"
| "threat_code THREAT_SQLI = 6"
| "threat_code THREAT_CMDI = 7"
| "threat_code THREAT_PATH_TRAV = 8"
| "threat_code THREAT_LFI = 9"
| "threat_code THREAT_RFI = 10"
| "threat_code THREAT_BOT = 11"
| "threat_code THREAT_YARA = 12"
| "threat_code THREAT_REPUTATION = 13"

subsection \<open>Structures\<close>

record fw_event =
  ev_timestamp :: u64
  ev_src_ip :: u32
  ev_dest_ip :: u32
  ev_src_port :: u16
  ev_dest_port :: u16
  ev_threat_type :: threat
  ev_severity :: severity
  ev_payload_preview :: string
  ev_details :: string

record blocklist_entry =
  be_ip :: u32
  be_mask :: u8

record blocklist_payload =
  bp_count :: u32
  bp_block_local_ips :: u32
  bp_entries :: "blocklist_entry list"

text \<open>
  \<^verbatim>\<open>payload->entries[j]\<close>: inside the array of \<^const>\<open>MAX_BLOCKLIST_IPS\<close> entries the entry, past its
  end whatever memory holds there.
\<close>

definition payload_entry :: "(nat \<Rightarrow> blocklist_entry) \<Rightarrow> blocklist_payload \<Rightarrow> nat \<Rightarrow> blocklist_entry" where
  "payload_entry oob p j = (if j < length (bp_entries p) then bp_entries p ! j else oob j)"

definition payload_wf :: "blocklist_payload \<Rightarrow> bool" where
  "payload_wf p \<longleftrightarrow> length (bp_entries p) = MAX_BLOCKLIST_IPS"

subsection \<open>Packets\<close>

record iphdr =
  ip_ihl :: nat
  ip_tot_len :: u16
  ip_protocol :: nat
  ip_saddr :: u32
  ip_daddr :: u32

record tcphdr =
  tcp_source :: u16
  tcp_dest :: u16
  tcp_doff :: nat
  tcp_fin :: bool
  tcp_syn :: bool
  tcp_rst :: bool
  tcp_ack :: bool

record sk_buff =
  skb_data :: "byte list"

definition IPPROTO_TCP :: nat where
  "IPPROTO_TCP = 6"

text \<open>One byte of the packet buffer, and a run of them.\<close>

definition skb_byte :: "(nat \<Rightarrow> byte) \<Rightarrow> sk_buff \<Rightarrow> nat \<Rightarrow> byte" where
  "skb_byte oob skb i = (if i < length (skb_data skb) then skb_data skb ! i else oob i)"

definition skb_bytes :: "(nat \<Rightarrow> byte) \<Rightarrow> sk_buff \<Rightarrow> nat \<Rightarrow> nat \<Rightarrow> byte list" where
  "skb_bytes oob skb off n = map (skb_byte oob skb) [off..<off + n]"

definition ip_hdr :: "(nat \<Rightarrow> byte) \<Rightarrow> sk_buff \<Rightarrow> iphdr" where
  "ip_hdr oob skb = (let b = skb_byte oob skb in
     \<lparr>ip_ihl = ord (b 0) mod 16, ip_tot_len = le16 (b 2) (b 3), ip_protocol = ord (b 9),
      ip_saddr = le32 (b 12) (b 13) (b 14) (b 15), ip_daddr = le32 (b 16) (b 17) (b 18) (b 19)\<rparr>)"

definition tcp_hdr :: "(nat \<Rightarrow> byte) \<Rightarrow> sk_buff \<Rightarrow> tcphdr" where
  "tcp_hdr oob skb = (let o1 = ip_ihl (ip_hdr oob skb) * 4; b = (\<lambda>i. skb_byte oob skb (o1 + i)) in
     \<lparr>tcp_source = le16 (b 0) (b 1), tcp_dest = le16 (b 2) (b 3), tcp_doff = ord (b 12) div 16,
      tcp_fin = odd (ord (b 13)), tcp_syn = odd (ord (b 13) div 2), tcp_rst = odd (ord (b 13) div 4),
      tcp_ack = odd (ord (b 13) div 16)\<rparr>)"

text \<open>\<^verbatim>\<open>ntohs(iph->tot_len) - ip_header_len - tcp_header_len\<close>, a C \<^verbatim>\<open>int\<close> that can be negative.\<close>

definition tcp_payload_len :: "iphdr \<Rightarrow> tcphdr \<Rightarrow> int" where
  "tcp_payload_len iph tcph =
     uint (ntohs (ip_tot_len iph)) - (int (ip_ihl iph) * 4 + int (tcp_doff tcph) * 4)"

subsection \<open>Lemmas\<close>

lemma threat_code_inj: "threat_code a = threat_code b \<Longrightarrow> a = b"
  by (cases a; cases b) simp_all

lemma threat_code_less: "threat_code t < 32"
  by (cases t) simp_all

lemma payload_entry_oob:
  "payload_wf p \<Longrightarrow> j < MAX_BLOCKLIST_IPS \<Longrightarrow> payload_entry oob p j = payload_entry oob' p j"
  by (simp add: payload_entry_def payload_wf_def)

lemma skb_bytes_oob:
  assumes "off + n \<le> length (skb_data skb)"
  shows "skb_bytes oob skb off n = take n (drop off (skb_data skb))"
  using assms by (auto simp: skb_bytes_def skb_byte_def intro!: nth_equalityI)

lemma length_skb_bytes [simp, len_bounds]: "length (skb_bytes oob skb off n) = n"
  by (simp add: skb_bytes_def)

lemma ip_hdr_oob: "20 \<le> length (skb_data skb) \<Longrightarrow> ip_hdr oob skb = ip_hdr oob' skb"
  by (auto simp: ip_hdr_def skb_byte_def)

lemma tcp_hdr_oob:
  assumes "20 \<le> length (skb_data skb)"
    and "ip_ihl (ip_hdr oob skb) * 4 + 20 \<le> length (skb_data skb)"
  shows "tcp_hdr oob skb = tcp_hdr oob' skb"
proof -
  have "ip_hdr oob skb = ip_hdr oob' skb" using assms(1) by (rule ip_hdr_oob)
  then show ?thesis using assms(2) by (simp add: tcp_hdr_def skb_byte_def Let_def)
qed

end
