(* ===== verification/Cidr.thy ===== *)
theory Cidr
  imports Fw_Types
begin

section \<open>CIDR matching\<close>

text \<open>
  The blocklist of the firewall (\<^verbatim>\<open>kernel/ip_blocklist.c\<close>) and the login whitelist of the SOC server
  (\<^verbatim>\<open>soc-server/auth.c\<close>) hold addresses with a CIDR mask and match a source against them with the same
  code. The mask is an unchecked 8-bit number; for a mask above 32 the source shifts by a negative
  amount, which C leaves undefined, so the value such a shift gives is the parameter \<open>ub\<close>.

  The locale \<open>cidr_list\<close> is the contract of a list of networks; both components interpret it.
\<close>

subsection \<open>Model\<close>

definition mask_val :: "(u8 \<Rightarrow> u32) \<Rightarrow> u8 \<Rightarrow> u32" where
  "mask_val ub m =
     (if m = 0 then 0 else if unat m \<le> 32 then push_bit (32 - unat m) (- 1) else ub m)"

definition cidr_match :: "(u8 \<Rightarrow> u32) \<Rightarrow> u32 \<Rightarrow> u32 \<Rightarrow> u8 \<Rightarrow> bool" where
  "cidr_match ub src_ip ip m =
     (if m = 32 then ip = src_ip
      else ntohl src_ip AND mask_val ub m = ntohl ip AND mask_val ub m)"

text \<open>Specification: the leading \<^term>\<open>unat m\<close> bits of the two addresses agree.\<close>

definition same_network :: "u32 \<Rightarrow> u32 \<Rightarrow> u8 \<Rightarrow> bool" where
  "same_network a b m \<longleftrightarrow> drop_bit (32 - unat m) (ntohl a) = drop_bit (32 - unat m) (ntohl b)"

subsection \<open>Lemmas\<close>

lemma push_mask_eq_iff:
  fixes x y :: u32
  assumes "k \<le> 32"
  shows "x AND push_bit k (- 1) = y AND push_bit k (- 1) \<longleftrightarrow> drop_bit k x = drop_bit k y"
proof
  assume eq: "x AND push_bit k (- 1) = y AND push_bit k (- 1)"
  have "bit x (k + n) = bit y (k + n)" if "k + n < 32" for n
    using that arg_cong [OF eq, of "\<lambda>w. bit w (k + n)"] by (simp add: bit_simps)
  then have "bit x (k + n) = bit y (k + n)" for n
    using bit_imp_le_length [of x "k + n"] bit_imp_le_length [of y "k + n"] by auto
  then show "drop_bit k x = drop_bit k y"
    by (intro bit_word_eqI) (simp add: bit_simps)
next
  assume eq: "drop_bit k x = drop_bit k y"
  have "bit x n = bit y n" if "k \<le> n" for n
    using that arg_cong [OF eq, of "\<lambda>w. bit w (n - k)"] by (simp add: bit_simps)
  then show "x AND push_bit k (- 1) = y AND push_bit k (- 1)"
    by (intro bit_word_eqI) (auto simp: bit_simps)
qed

lemma cidr_match_same_network:
  assumes "unat m \<le> 32"
  shows "cidr_match ub src ip m \<longleftrightarrow> same_network src ip m"
proof (cases "m = 32 \<or> m = 0")
  case True
  then show ?thesis by (auto simp: cidr_match_def mask_val_def same_network_def)
next
  case False
  then show ?thesis
    using assms push_mask_eq_iff [of "32 - unat m" "ntohl src" "ntohl ip"]
    by (simp add: cidr_match_def mask_val_def same_network_def)
qed

lemma cidr_match_self [simp]: "cidr_match ub ip ip m"
  by (simp add: cidr_match_def)

lemma cidr_match_zero [simp]: "cidr_match ub src ip 0"
  by (simp add: cidr_match_def mask_val_def)

subsection \<open>The interface\<close>

locale cidr_list =
  fixes ub :: "u8 \<Rightarrow> u32"
    and nets :: "'t \<Rightarrow> (u32 \<times> u8) set"
    and check :: "'t \<Rightarrow> u32 \<Rightarrow> bool"
  assumes check_iff: "check t src \<longleftrightarrow> (\<exists>(ip, m) \<in> nets t. cidr_match ub src ip m)"
begin

lemma check_empty: "nets t = {} \<Longrightarrow> \<not> check t src"
  by (simp add: check_iff)

lemma check_mono: "nets t \<subseteq> nets t' \<Longrightarrow> check t src \<Longrightarrow> check t' src"
  by (auto simp: check_iff)

lemma check_networks:
  assumes "snd ` nets t \<subseteq> {m. unat m \<le> 32}"
  shows "check t src \<longleftrightarrow> (\<exists>(ip, m) \<in> nets t. same_network src ip m)"
proof -
  have "cidr_match ub src ip m = same_network src ip m" if "(ip, m) \<in> nets t" for ip m
    using assms that by (intro cidr_match_same_network) force
  then show ?thesis unfolding check_iff by (intro bex_cong) auto
qed

lemma check_hosts:
  assumes "snd ` nets t \<subseteq> {32}"
  shows "check t src \<longleftrightarrow> src \<in> fst ` nets t"
proof -
  have "m = 32" if "(ip, m) \<in> nets t" for ip m
    using assms that by force
  then show ?thesis unfolding check_iff by (force simp: cidr_match_def)
qed

end

end
