(* ===== verification/Ip_Reputation.thy ===== *)
theory Ip_Reputation
  imports Fw_Types
begin

section \<open>IP reputation table (ip\_reputation.c)\<close>

text \<open>
  \<^verbatim>\<open>reputation_table\<close> is an array of 1024 singly linked lists. Here it is a list of buckets, each the
  list of its entries from the head on. Every operation runs under \<^verbatim>\<open>rep_lock\<close>, so each is one
  atomic step on the table. The time \<^verbatim>\<open>time(NULL)\<close> returns is the argument \<open>now\<close>.

  Scores are a C \<^verbatim>\<open>int\<close>, modelled as \<^typ>\<open>int\<close>: with scores inside 0..100 and the damages the program
  uses (10 to 30), no sum leaves the range of an \<^verbatim>\<open>int\<close>.

  The locale \<open>reputation_store\<close> is the interface the packet path relies on: lookups after updates
  and the range of the scores. It is interpreted on the table at the end of the theory, which is the
  refinement of the table to a map from addresses to entries.
\<close>

subsection \<open>Model\<close>

definition HASH_SIZE :: nat where
  "HASH_SIZE = 1024"

record reputation_entry =
  re_ip :: u32
  re_score :: int
  re_last_seen :: u64
  re_mask :: u32

type_synonym reputation_table = "reputation_entry list list"

definition hash_ip :: "u32 \<Rightarrow> u32" where
  "hash_ip ip =
     (let hash = ip;
          hash = (hash + 0x7ed55d16) + push_bit 12 hash;
          hash = (hash XOR 0xc761c23c) XOR drop_bit 19 hash;
          hash = (hash + 0x165667b1) + push_bit 5 hash;
          hash = (hash + 0xd3a2646c) XOR push_bit 9 hash;
          hash = (hash + 0xfd7046c5) + push_bit 3 hash;
          hash = (hash XOR 0xb55a4f09) XOR drop_bit 16 hash
      in hash mod 1024)"

definition bucket_of :: "u32 \<Rightarrow> nat" where
  "bucket_of ip = unat (hash_ip ip)"

definition init_ip_reputation :: "reputation_table" where
  "init_ip_reputation = replicate HASH_SIZE []"

text \<open>The cleanup loop empties every bucket of the table it is given.\<close>

definition cleanup_ip_reputation :: "reputation_table \<Rightarrow> reputation_table" where
  "cleanup_ip_reputation tbl = map (\<lambda>_. []) tbl"

text \<open>The walk along one chain: the score of the first entry with the address.\<close>

fun chain_get :: "reputation_entry list \<Rightarrow> u32 \<Rightarrow> int" where
  "chain_get [] ip = 100"
| "chain_get (entry # rest) ip = (if re_ip entry = ip then re_score entry else chain_get rest ip)"

definition get_ip_reputation :: "reputation_table \<Rightarrow> u32 \<Rightarrow> int" where
  "get_ip_reputation tbl ip = chain_get (tbl ! bucket_of ip) ip"

definition clamp_score :: "int \<Rightarrow> int" where
  "clamp_score s = (let s = (if s > 100 then 100 else s) in if s < 0 then 0 else s)"

definition damage_entry :: "u64 \<Rightarrow> int \<Rightarrow> nat \<Rightarrow> reputation_entry \<Rightarrow> reputation_entry" where
  "damage_entry now damage tt entry =
     entry\<lparr>re_score := clamp_score (re_score entry - damage), re_last_seen := now,
           re_mask := re_mask entry OR push_bit tt 1\<rparr>"

text \<open>The walk of the update: the first entry with the address is damaged; \<^term>\<open>None\<close> when there is none.\<close>

fun chain_damage ::
    "u64 \<Rightarrow> int \<Rightarrow> nat \<Rightarrow> reputation_entry list \<Rightarrow> u32 \<Rightarrow> (reputation_entry list \<times> int) option" where
  "chain_damage now damage tt [] ip = None"
| "chain_damage now damage tt (entry # rest) ip =
     (if re_ip entry = ip
      then let e = damage_entry now damage tt entry in Some (e # rest, re_score e)
      else map_option (\<lambda>(rest', score). (entry # rest', score)) (chain_damage now damage tt rest ip))"

definition new_reputation_entry :: "u64 \<Rightarrow> u32 \<Rightarrow> int \<Rightarrow> nat \<Rightarrow> reputation_entry" where
  "new_reputation_entry now ip damage tt =
     \<lparr>re_ip = ip, re_score = clamp_score (100 - damage), re_last_seen = now, re_mask = push_bit tt 1\<rparr>"

definition update_ip_reputation ::
    "u64 \<Rightarrow> reputation_table \<Rightarrow> u32 \<Rightarrow> int \<Rightarrow> nat \<Rightarrow> reputation_table \<times> int" where
  "update_ip_reputation now tbl ip damage tt =
     (let bucket = bucket_of ip in
      case chain_damage now damage tt (tbl ! bucket) ip of
        Some (chain, score) \<Rightarrow> (tbl[bucket := chain], score)
      | None \<Rightarrow> (let e = new_reputation_entry now ip damage tt
                in (tbl[bucket := e # tbl ! bucket], re_score e)))"

text \<open>The recovery loop over one chain: raise each score, unlink the entries that reach 100.\<close>

fun chain_decay :: "int \<Rightarrow> reputation_entry list \<Rightarrow> reputation_entry list" where
  "chain_decay amount [] = []"
| "chain_decay amount (entry # rest) =
     (let e = entry\<lparr>re_score := re_score entry + amount\<rparr>
      in if re_score e \<ge> 100 then chain_decay amount rest else e # chain_decay amount rest)"

definition decay_reputation_scores :: "int \<Rightarrow> reputation_table \<Rightarrow> reputation_table" where
  "decay_reputation_scores amount tbl = map (chain_decay amount) tbl"

text \<open>The search loop of the synchronisation, \<^verbatim>\<open>j < payload->count\<close>, with no other bound on \<^verbatim>\<open>j\<close>.\<close>

definition payload_lists_ip :: "(nat \<Rightarrow> blocklist_entry) \<Rightarrow> blocklist_payload \<Rightarrow> u32 \<Rightarrow> bool" where
  "payload_lists_ip oob p ip = list_ex (\<lambda>j. be_ip (payload_entry oob p j) = ip) [0..<unat (bp_count p)]"

definition sync_entry ::
    "(nat \<Rightarrow> blocklist_entry) \<Rightarrow> blocklist_payload \<Rightarrow> reputation_entry \<Rightarrow> reputation_entry" where
  "sync_entry oob p entry =
     (if re_score entry \<le> 20 then
        (if \<not> payload_lists_ip oob p (re_ip entry) then entry\<lparr>re_score := 100\<rparr> else entry)
      else entry)"

definition sync_reputation_with_blocklist ::
    "(nat \<Rightarrow> blocklist_entry) \<Rightarrow> reputation_table \<Rightarrow> blocklist_payload option \<Rightarrow> reputation_table" where
  "sync_reputation_with_blocklist oob tbl payload_ptr =
     (case payload_ptr of None \<Rightarrow> tbl | Some p \<Rightarrow> map (map (sync_entry oob p)) tbl)"

subsection \<open>The table as a map\<close>

definition rep_entries :: "reputation_entry list \<Rightarrow> u32 \<Rightarrow> reputation_entry option" where
  "rep_entries chain ip = find (\<lambda>e. re_ip e = ip) chain"

definition rep_abs :: "reputation_table \<Rightarrow> u32 \<Rightarrow> reputation_entry option" where
  "rep_abs tbl ip = rep_entries (tbl ! bucket_of ip) ip"

definition chain_ok :: "nat \<Rightarrow> reputation_entry list \<Rightarrow> bool" where
  "chain_ok b chain \<longleftrightarrow>
     distinct (map re_ip chain) \<and>
     list_all (\<lambda>e. bucket_of (re_ip e) = b \<and> 0 \<le> re_score e \<and> re_score e \<le> 100) chain"

text \<open>The invariant: 1024 buckets, each address in its own bucket and once only, scores from 0 to 100.\<close>

definition rep_ok :: "reputation_table \<Rightarrow> bool" where
  "rep_ok tbl \<longleftrightarrow> length tbl = HASH_SIZE \<and> list_all (\<lambda>b. chain_ok b (tbl ! b)) [0..<HASH_SIZE]"

subsection \<open>Lemmas\<close>

lemma bucket_of_less [simp]: "bucket_of ip < HASH_SIZE"
proof -
  have "unat (w mod 1024) < 1024" for w :: u32
    by (simp add: unat_mod)
  then show ?thesis by (simp add: bucket_of_def hash_ip_def HASH_SIZE_def Let_def)
qed

lemma clamp_score_range [simp]: "0 \<le> clamp_score s" "clamp_score s \<le> 100"
  by (simp_all add: clamp_score_def Let_def)

lemma clamp_score_eq: "clamp_score s = max 0 (min 100 s)"
  by (simp add: clamp_score_def Let_def)

lemma chain_get_find: "chain_get chain ip = (case rep_entries chain ip of Some e \<Rightarrow> re_score e | None \<Rightarrow> 100)"
  by (induction chain) (auto simp: rep_entries_def)

lemma rep_entries_Cons [simp]:
  "rep_entries (e # chain) ip = (if re_ip e = ip then Some e else rep_entries chain ip)"
  by (simp add: rep_entries_def)

lemma rep_entries_Nil [simp]: "rep_entries [] ip = None"
  by (simp add: rep_entries_def)

lemma rep_entries_SomeD: "rep_entries chain ip = Some e \<Longrightarrow> e \<in> set chain \<and> re_ip e = ip"
  by (induction chain) (auto split: if_splits)

lemma rep_entries_None_iff: "rep_entries chain ip = None \<longleftrightarrow> ip \<notin> re_ip ` set chain"
  by (induction chain) auto

lemma re_ip_damage [simp]: "re_ip (damage_entry now damage tt e) = re_ip e"
  by (simp add: damage_entry_def)

lemma chain_damage_None: "chain_damage now damage tt chain ip = None \<longleftrightarrow> rep_entries chain ip = None"
  by (induction chain) (auto simp: Let_def)

text \<open>The update walk changes one entry in place and returns its new score.\<close>

lemma chain_damage_Some:
  assumes "chain_damage now damage tt chain ip = Some (chain', score)"
  shows "\<exists>e. rep_entries chain ip = Some e \<and> score = re_score (damage_entry now damage tt e) \<and>
     rep_entries chain' = (rep_entries chain)(ip \<mapsto> damage_entry now damage tt e) \<and>
     map re_ip chain' = map re_ip chain \<and> set chain' \<subseteq> insert (damage_entry now damage tt e) (set chain)"
  using assms
proof (induction chain arbitrary: chain' score)
  case (Cons e rest)
  show ?case
  proof (cases "re_ip e = ip")
    case True
    with Cons.prems show ?thesis by (auto simp: Let_def fun_eq_iff)
  next
    case False
    with Cons.prems obtain rest' where r: "chain' = e # rest'" "chain_damage now damage tt rest ip = Some (rest', score)"
      by auto
    from Cons.IH [OF r(2)] r(1) False show ?thesis by (auto simp: fun_eq_iff)
  qed
qed simp

lemma rep_okI: "length tbl = HASH_SIZE \<Longrightarrow> (\<And>b. b < HASH_SIZE \<Longrightarrow> chain_ok b (tbl ! b)) \<Longrightarrow> rep_ok tbl"
  by (simp add: rep_ok_def list_all_iff)

lemma rep_okD: "rep_ok tbl \<Longrightarrow> b < HASH_SIZE \<Longrightarrow> chain_ok b (tbl ! b)"
  by (simp add: rep_ok_def list_all_iff)

lemma rep_ok_length [simp]: "rep_ok tbl \<Longrightarrow> length tbl = HASH_SIZE"
  by (simp add: rep_ok_def)

lemma rep_ok_bucket: "rep_ok tbl \<Longrightarrow> bucket_of ip < length tbl"
  by simp

lemma rep_ok_set_bucket:
  assumes "rep_ok tbl" and "chain_ok b chain"
  shows "rep_ok (tbl[b := chain])"
proof (rule rep_okI)
  show "length (tbl[b := chain]) = HASH_SIZE" using assms(1) by simp
  fix c assume "c < HASH_SIZE"
  then show "chain_ok c (tbl[b := chain] ! c)"
    using assms by (cases "c = b") (auto simp: rep_okD)
qed

lemma rep_ok_map:
  assumes "rep_ok tbl" and "\<And>b chain. chain_ok b chain \<Longrightarrow> chain_ok b (f chain)"
  shows "rep_ok (map f tbl)"
  using assms by (intro rep_okI) (auto simp: rep_okD)

lemma rep_abs_set_bucket:
  assumes "rep_ok tbl" and "\<And>x. bucket_of x = b \<Longrightarrow> rep_entries chain x = (if x = ip then v else rep_entries (tbl ! b) x)"
    and "b = bucket_of ip"
  shows "rep_abs (tbl[b := chain]) = (rep_abs tbl)(ip := v)"
proof
  fix x
  show "rep_abs (tbl[b := chain]) x = ((rep_abs tbl)(ip := v)) x"
    using assms by (cases "bucket_of x = b") (auto simp: rep_abs_def nth_list_update)
qed

lemma get_rep_abs: "get_ip_reputation tbl ip = (case rep_abs tbl ip of Some e \<Rightarrow> re_score e | None \<Rightarrow> 100)"
  by (simp add: get_ip_reputation_def chain_get_find rep_abs_def)

text \<open>The entry an update writes, as a function of what the map held before.\<close>

definition updated_entry :: "u64 \<Rightarrow> u32 \<Rightarrow> int \<Rightarrow> nat \<Rightarrow> reputation_entry option \<Rightarrow> reputation_entry" where
  "updated_entry now ip damage tt old =
     (case old of Some e \<Rightarrow> damage_entry now damage tt e | None \<Rightarrow> new_reputation_entry now ip damage tt)"

lemma update_refines:
  assumes "rep_ok tbl"
  shows "rep_abs (fst (update_ip_reputation now tbl ip damage tt)) =
       (rep_abs tbl)(ip \<mapsto> updated_entry now ip damage tt (rep_abs tbl ip))" (is ?abs)
    and "snd (update_ip_reputation now tbl ip damage tt) =
       re_score (updated_entry now ip damage tt (rep_abs tbl ip))" (is ?ret)
    and "rep_ok (fst (update_ip_reputation now tbl ip damage tt))" (is ?ok)
proof -
  let ?b = "bucket_of ip"
  have chain: "chain_ok ?b (tbl ! ?b)" using assms by (simp add: rep_okD)
  have "?abs \<and> ?ret \<and> ?ok"
  proof (cases "chain_damage now damage tt (tbl ! ?b) ip")
    case None
    then have none: "rep_entries (tbl ! ?b) ip = None" by (simp add: chain_damage_None)
    let ?e = "new_reputation_entry now ip damage tt"
    have "chain_ok ?b (?e # tbl ! ?b)"
      using chain none by (auto simp: chain_ok_def rep_entries_None_iff new_reputation_entry_def)
    moreover have "rep_abs (tbl[?b := ?e # tbl ! ?b]) = (rep_abs tbl)(ip := Some ?e)"
      using assms by (intro rep_abs_set_bucket) (auto simp: new_reputation_entry_def)
    moreover have "update_ip_reputation now tbl ip damage tt = (tbl[?b := ?e # tbl ! ?b], re_score ?e)"
      using None by (simp add: update_ip_reputation_def Let_def)
    moreover have "updated_entry now ip damage tt (rep_abs tbl ip) = ?e"
      using none by (simp add: updated_entry_def rep_abs_def)
    ultimately show ?thesis using rep_ok_set_bucket [OF assms] by simp
  next
    case (Some r)
    obtain chain' score where r: "r = (chain', score)" by (cases r)
    from chain_damage_Some [OF Some [unfolded r]] obtain e where e: "rep_entries (tbl ! ?b) ip = Some e"
      "score = re_score (damage_entry now damage tt e)"
      "rep_entries chain' = (rep_entries (tbl ! ?b))(ip \<mapsto> damage_entry now damage tt e)"
      "map re_ip chain' = map re_ip (tbl ! ?b)"
      "set chain' \<subseteq> insert (damage_entry now damage tt e) (set (tbl ! ?b))" by blast
    have "re_ip (damage_entry now damage tt e) = ip \<and> re_score (damage_entry now damage tt e) \<in> {0..100}"
      using rep_entries_SomeD [OF e(1)] by (simp add: damage_entry_def)
    then have "chain_ok ?b chain'"
      using chain e(5) unfolding chain_ok_def list_all_iff e(4) by auto
    moreover have "rep_abs (tbl[?b := chain']) = (rep_abs tbl)(ip := Some (damage_entry now damage tt e))"
      using assms e(3) by (intro rep_abs_set_bucket) auto
    moreover have "update_ip_reputation now tbl ip damage tt = (tbl[?b := chain'], score)"
      using Some r by (simp add: update_ip_reputation_def Let_def)
    moreover have "updated_entry now ip damage tt (rep_abs tbl ip) = damage_entry now damage tt e"
      using e(1) by (simp add: updated_entry_def rep_abs_def)
    ultimately show ?thesis using rep_ok_set_bucket [OF assms] e(2) by simp
  qed
  then show ?abs ?ret ?ok by blast+
qed

lemma init_rep_ok [pool_inv]: "rep_ok init_ip_reputation"
  by (intro rep_okI) (simp_all add: init_ip_reputation_def chain_ok_def)

lemma init_rep_abs: "rep_abs init_ip_reputation ip = None"
  by (simp add: rep_abs_def init_ip_reputation_def)

lemma update_rep_ok [pool_inv]: "rep_ok tbl \<Longrightarrow> rep_ok (fst (update_ip_reputation now tbl ip damage tt))"
  by (rule update_refines)

lemma rep_entries_map:
  "(\<And>e. re_ip (f e) = re_ip e) \<Longrightarrow> rep_entries (map f chain) ip = map_option f (rep_entries chain ip)"
  by (induction chain) auto

lemma rep_abs_map_table:
  assumes "rep_ok tbl"
  shows "rep_abs (map f tbl) ip = rep_entries (f (tbl ! bucket_of ip)) ip"
  using assms by (simp add: rep_abs_def)

lemma chain_decay_eq:
  "chain_decay amount chain =
     map (\<lambda>e. e\<lparr>re_score := re_score e + amount\<rparr>) (filter (\<lambda>e. re_score e + amount < 100) chain)"
  by (induction chain) (auto simp: Let_def)

lemma chain_decay_ok:
  assumes "0 \<le> amount" and "chain_ok b chain"
  shows "chain_ok b (chain_decay amount chain)"
proof -
  have "map re_ip (chain_decay amount chain) = map re_ip (filter (\<lambda>e. re_score e + amount < 100) chain)"
    by (simp add: chain_decay_eq)
  then show ?thesis
    using assms distinct_map_filter [of re_ip chain "\<lambda>e. re_score e + amount < 100"]
    by (auto simp: chain_ok_def chain_decay_eq list_all_iff comp_def)
qed

lemma rep_entries_filter:
  assumes "distinct (map re_ip chain)"
  shows "rep_entries (filter P chain) ip =
     (case rep_entries chain ip of Some e \<Rightarrow> if P e then Some e else None | None \<Rightarrow> None)"
  using assms
proof (induction chain)
  case (Cons e chain)
  have "rep_entries (filter P chain) (re_ip e) = None"
    using Cons.prems by (auto simp: rep_entries_None_iff)
  with Cons show ?case by auto
qed simp

lemma decay_rep_ok [pool_inv]: "rep_ok tbl \<Longrightarrow> 0 \<le> amount \<Longrightarrow> rep_ok (decay_reputation_scores amount tbl)"
  unfolding decay_reputation_scores_def by (rule rep_ok_map) (simp_all add: chain_decay_ok)

lemma decay_rep_abs:
  assumes "rep_ok tbl"
  shows "rep_abs (decay_reputation_scores amount tbl) ip =
     (case rep_abs tbl ip of None \<Rightarrow> None
      | Some e \<Rightarrow> if re_score e + amount < 100 then Some (e\<lparr>re_score := re_score e + amount\<rparr>) else None)"
proof -
  have "distinct (map re_ip (tbl ! bucket_of ip))"
    using rep_okD [OF assms, of "bucket_of ip"] by (simp add: chain_ok_def)
  then show ?thesis
    unfolding decay_reputation_scores_def rep_abs_map_table [OF assms] chain_decay_eq
    by (subst rep_entries_map) (auto simp: rep_entries_filter rep_abs_def split: option.split)
qed

lemma re_ip_sync [simp]: "re_ip (sync_entry oob p e) = re_ip e"
  by (simp add: sync_entry_def)

lemma chain_sync_ok: "chain_ok b chain \<Longrightarrow> chain_ok b (map (sync_entry oob p) chain)"
  by (auto simp: chain_ok_def list_all_iff comp_def) (auto simp: sync_entry_def)

lemma sync_rep_ok [pool_inv]: "rep_ok tbl \<Longrightarrow> rep_ok (sync_reputation_with_blocklist oob tbl pp)"
  by (cases pp) (auto simp: sync_reputation_with_blocklist_def intro!: rep_ok_map chain_sync_ok)

lemma sync_rep_abs:
  assumes "rep_ok tbl"
  shows "rep_abs (sync_reputation_with_blocklist oob tbl (Some p)) ip = map_option (sync_entry oob p) (rep_abs tbl ip)"
  using assms
  by (simp add: sync_reputation_with_blocklist_def rep_abs_map_table rep_entries_map rep_abs_def)

lemma rep_abs_ok:
  assumes "rep_ok tbl" and "rep_abs tbl ip = Some e"
  shows "re_ip e = ip \<and> 0 \<le> re_score e \<and> re_score e \<le> 100"
  using rep_okD [OF assms(1), of "bucket_of ip"] rep_entries_SomeD [OF assms(2) [unfolded rep_abs_def]]
  by (simp add: chain_ok_def list_all_iff)

lemma get_range: "rep_ok tbl \<Longrightarrow> 0 \<le> get_ip_reputation tbl ip \<and> get_ip_reputation tbl ip \<le> 100"
  by (auto simp: get_rep_abs dest: rep_abs_ok split: option.split)

lemma cleanup_rep_ok [pool_inv]: "rep_ok tbl \<Longrightarrow> rep_ok (cleanup_ip_reputation tbl)"
  unfolding cleanup_ip_reputation_def by (rule rep_ok_map) (auto simp: chain_ok_def)

subsection \<open>The interface of the packet path\<close>

text \<open>
  What \<^verbatim>\<open>fw_nfq.c\<close>, \<^verbatim>\<open>http_inspect.c\<close> and the YARA worker rely on. \<open>hits\<close> is a sequence of updates:
  time, address, damage and threat type of each.
\<close>

type_synonym rep_hit = "u64 \<times> u32 \<times> int \<times> nat"

definition damage_to :: "u32 \<Rightarrow> rep_hit list \<Rightarrow> int" where
  "damage_to ip hits = sum_list (map (\<lambda>(_, a, damage, _). if a = ip then damage else 0) hits)"

locale reputation_store =
  fixes ok :: "'t \<Rightarrow> bool"
    and get :: "'t \<Rightarrow> u32 \<Rightarrow> int"
    and upd :: "u64 \<Rightarrow> 't \<Rightarrow> u32 \<Rightarrow> int \<Rightarrow> nat \<Rightarrow> 't \<times> int"
  assumes upd_ok: "ok t \<Longrightarrow> ok (fst (upd now t ip damage tt))"
    and get_bounds: "ok t \<Longrightarrow> 0 \<le> get t ip \<and> get t ip \<le> 100"
    and upd_returns: "ok t \<Longrightarrow> snd (upd now t ip damage tt) = max 0 (min 100 (get t ip - damage))"
    and get_upd: "ok t \<Longrightarrow> get (fst (upd now t ip damage tt)) x =
                    (if x = ip then snd (upd now t ip damage tt) else get t x)"
begin

lemma hits_ok: "ok t \<Longrightarrow> ok (fold (\<lambda>(now, ip, damage, tt) t. fst (upd now t ip damage tt)) hits t)"
  by (induction hits arbitrary: t) (auto simp: upd_ok)

text \<open>Damage accumulates until the score is 0; no order of the attacks and no other address matters.\<close>

lemma hits_score:
  assumes "ok t" and "list_all (\<lambda>(_, _, damage, _). 0 \<le> damage) hits"
  shows "get (fold (\<lambda>(now, ip, damage, tt) t. fst (upd now t ip damage tt)) hits t) x =
    max 0 (get t x - damage_to x hits)"
  using assms
proof (induction hits arbitrary: t)
  case Nil
  then show ?case using get_bounds [of t x] by (simp add: damage_to_def)
next
  case (Cons h hits)
  obtain now ip damage tt where h: "h = (now, ip, damage, tt)" by (cases h)
  let ?t = "fst (upd now t ip damage tt)"
  have dt: "damage_to x (h # hits) = (if ip = x then damage else 0) + damage_to x hits"
    by (simp add: damage_to_def h)
  have nonneg: "0 \<le> damage_to x hits"
    using Cons.prems(2) unfolding damage_to_def by (intro sum_list_nonneg) (auto simp: list_all_iff)
  have "get ?t x = (if x = ip then max 0 (min 100 (get t ip - damage)) else get t x)"
    using Cons.prems(1) by (simp add: get_upd upd_returns)
  moreover have "0 \<le> damage" using Cons.prems(2) h by simp
  ultimately show ?case
    using Cons.IH [of ?t] Cons.prems get_bounds [of t x] dt nonneg by (auto simp: h upd_ok)
qed

end

lemma update_get_score:
  assumes "rep_ok tbl"
  shows "snd (update_ip_reputation now tbl ip damage tt) = max 0 (min 100 (get_ip_reputation tbl ip - damage))"
  using assms
  by (simp add: update_refines(2) updated_entry_def get_rep_abs damage_entry_def new_reputation_entry_def
      clamp_score_eq split: option.split)

interpretation rep: reputation_store rep_ok get_ip_reputation update_ip_reputation
proof
  fix tbl :: reputation_table and now ip damage tt x
  assume ok: "rep_ok tbl"
  show "rep_ok (fst (update_ip_reputation now tbl ip damage tt))" using ok by (rule update_rep_ok)
  show "0 \<le> get_ip_reputation tbl ip \<and> get_ip_reputation tbl ip \<le> 100" using ok by (rule get_range)
  show "snd (update_ip_reputation now tbl ip damage tt) = max 0 (min 100 (get_ip_reputation tbl ip - damage))"
    using ok by (rule update_get_score)
  show "get_ip_reputation (fst (update_ip_reputation now tbl ip damage tt)) x =
      (if x = ip then snd (update_ip_reputation now tbl ip damage tt) else get_ip_reputation tbl x)"
    using ok by (simp add: get_rep_abs update_refines)
qed

subsection \<open>Properties\<close>

text \<open>C23: The chained table implements a map from addresses to entries. On a table that satisfies the
  invariant, an update changes the entry of that address only: a known address loses the damage,
  clamped to 0..100, has its time refreshed and the threat's bit set; an unknown one is entered with
  100 less the damage. The score returned is the one stored, and the invariant holds again.\<close>

theorem rep_update_refines:
  assumes "rep_ok tbl"
  shows "rep_abs (fst (update_ip_reputation now tbl ip damage tt)) =
      (rep_abs tbl)(ip \<mapsto> (case rep_abs tbl ip of
         Some e \<Rightarrow> e\<lparr>re_score := max 0 (min 100 (re_score e - damage)), re_last_seen := now,
                     re_mask := re_mask e OR push_bit tt 1\<rparr>
       | None \<Rightarrow> \<lparr>re_ip = ip, re_score = max 0 (min 100 (100 - damage)), re_last_seen = now,
                  re_mask = push_bit tt 1\<rparr>)) \<and>
    snd (update_ip_reputation now tbl ip damage tt) =
      get_ip_reputation (fst (update_ip_reputation now tbl ip damage tt)) ip \<and>
    rep_ok (fst (update_ip_reputation now tbl ip damage tt))"
  using update_refines [OF assms] rep.get_upd [OF assms]
  by (simp add: updated_entry_def damage_entry_def new_reputation_entry_def clamp_score_eq split: option.split)

theorem rep_update_refines_witness:
  "rep_ok init_ip_reputation \<and>
   get_ip_reputation (fst (update_ip_reputation 7 init_ip_reputation 0x0100007F 30 6)) 0x0100007F = 70"
proof -
  have ok: "rep_ok init_ip_reputation" by (rule init_rep_ok)
  have "rep_abs (fst (update_ip_reputation 7 init_ip_reputation 0x0100007F 30 6)) 0x0100007F =
      Some \<lparr>re_ip = 0x0100007F, re_score = 70, re_last_seen = 7, re_mask = 64\<rparr>"
    using rep_update_refines [OF ok, of 7 "0x0100007F" 30 6] by (simp add: init_rep_abs)
  with ok show ?thesis by (simp add: get_rep_abs)
qed

text \<open>Attacks accumulate: after any sequence of updates with damages that are not negative, in any
  order and interleaved with updates of other addresses, the score of an address is its score before
  less the total damage done to it, and 0 once that is used up.\<close>

theorem rep_damage_accumulates:
  assumes "rep_ok tbl" and "list_all (\<lambda>(_, _, damage, _). 0 \<le> damage) hits"
  shows "get_ip_reputation
      (fold (\<lambda>(now, ip, damage, tt) t. fst (update_ip_reputation now t ip damage tt)) hits tbl) x =
    max 0 (get_ip_reputation tbl x - sum_list (map (\<lambda>(_, a, damage, _). if a = x then damage else 0) hits))"
  using rep.hits_score [OF assms] by (simp add: damage_to_def)

theorem rep_damage_accumulates_witness:
  "get_ip_reputation (fold (\<lambda>(now, ip, damage, tt) t. fst (update_ip_reputation now t ip damage tt))
      [(1, 5, 20, 6), (2, 9, 30, 12), (3, 5, 25, 1)] init_ip_reputation) 5 = 55"
  using rep_damage_accumulates [OF init_rep_ok, of "[(1, 5, 20, 6), (2, 9, 30, 12), (3, 5, 25, 1)]" 5]
  by (simp add: get_rep_abs init_rep_abs)

text \<open>Recovery: raising the scores by an amount that is not negative gives every address its old
  score plus the amount, at most 100, keeps the invariant, and leaves no entry with a score of 100.\<close>

theorem rep_decay_recovers:
  assumes "rep_ok tbl" and "0 \<le> amount"
  shows "get_ip_reputation (decay_reputation_scores amount tbl) ip = min 100 (get_ip_reputation tbl ip + amount) \<and>
    rep_ok (decay_reputation_scores amount tbl) \<and>
    100 \<notin> re_score ` set (concat (decay_reputation_scores amount tbl))"
proof -
  have "re_score e < 100" if "e \<in> set (chain_decay amount chain)" for e chain
    using that by (auto simp: chain_decay_eq)
  then have "100 \<notin> re_score ` set (concat (decay_reputation_scores amount tbl))"
    by (fastforce simp: decay_reputation_scores_def)
  then show ?thesis
    using assms by (auto simp: get_rep_abs decay_rep_abs decay_rep_ok split: option.split)
qed

theorem rep_decay_recovers_witness:
  "get_ip_reputation (decay_reputation_scores 5
     (fst (update_ip_reputation 7 init_ip_reputation 9 30 6))) 9 = 75"
  using rep_decay_recovers [OF update_rep_ok [OF init_rep_ok], of 5 7 9 30 6 9]
  by (simp add: rep.get_upd [OF init_rep_ok] update_get_score [OF init_rep_ok]) (simp add: get_rep_abs init_rep_abs)

text \<open>Synchronising with a new blocklist forgives exactly the addresses that are at 20 or below and
  no longer listed: their score becomes 100, every other score stays, and the invariant holds.\<close>

theorem rep_sync_forgives_unlisted:
  assumes "rep_ok tbl"
  shows "get_ip_reputation (sync_reputation_with_blocklist oob tbl (Some p)) ip =
      (if get_ip_reputation tbl ip \<le> 20 \<and> ip \<notin> (\<lambda>j. be_ip (payload_entry oob p j)) ` {..<unat (bp_count p)}
       then 100 else get_ip_reputation tbl ip) \<and>
    rep_ok (sync_reputation_with_blocklist oob tbl (Some p))"
proof -
  have "payload_lists_ip oob p x \<longleftrightarrow> x \<in> (\<lambda>j. be_ip (payload_entry oob p j)) ` {..<unat (bp_count p)}" for x
    by (auto simp: payload_lists_ip_def list_ex_iff image_iff)
  then show ?thesis
    using assms by (auto simp: get_rep_abs sync_rep_abs sync_rep_ok sync_entry_def
        dest: rep_abs_ok split: option.split)
qed

theorem rep_sync_forgives_unlisted_witness:
  "get_ip_reputation (sync_reputation_with_blocklist (\<lambda>_. \<lparr>be_ip = 0, be_mask = 0\<rparr>)
     (fst (update_ip_reputation 7 init_ip_reputation 9 90 6))
     (Some \<lparr>bp_count = 0, bp_block_local_ips = 0, bp_entries = []\<rparr>)) 9 = 100"
  using rep_sync_forgives_unlisted [OF update_rep_ok [OF init_rep_ok, of 7 9 90 6],
      of "\<lambda>_. \<lparr>be_ip = 0, be_mask = 0\<rparr>" "\<lparr>bp_count = 0, bp_block_local_ips = 0, bp_entries = []\<rparr>" 9]
  by (simp add: rep.get_upd [OF init_rep_ok] update_get_score [OF init_rep_ok]) (simp add: get_rep_abs init_rep_abs)

end
