(* ===== verification/Ip_Blocklist.thy ===== *)
theory Ip_Blocklist
  imports Cidr Ip_Reputation
begin

section \<open>IP blocklist (ip\_blocklist.c)\<close>

text \<open>
  A hash table of 256 chains of \<^verbatim>\<open>blocklist_node\<close>, replaced as a whole by \<^verbatim>\<open>update_ip_blocklist\<close> and
  walked as a whole by \<^verbatim>\<open>inspect_ip_blocklist\<close>. The table macros are those of
  \<^verbatim>\<open>userspace_compat.h\<close>: \<^verbatim>\<open>hash_add_rcu\<close> inserts at the head of bucket \<^verbatim>\<open>key % 256\<close>. Whether the
  allocation of the i-th node succeeds is the parameter \<open>alloc\<close>.
\<close>

subsection \<open>Model\<close>

definition HASH_BUCKETS :: nat where
  "HASH_BUCKETS = 256"

record blocklist_node =
  bn_ip :: u32
  bn_mask :: u8

record blocklist =
  bl_hash :: "blocklist_node list list"
  g_block_local_ips :: u32

definition empty_blocklist :: blocklist where
  "empty_blocklist = \<lparr>bl_hash = replicate HASH_BUCKETS [], g_block_local_ips = 0\<rparr>"

text \<open>The walk along one chain, which stops at the first match.\<close>

fun chain_match :: "(u8 \<Rightarrow> u32) \<Rightarrow> u32 \<Rightarrow> blocklist_node list \<Rightarrow> bool" where
  "chain_match ub src_ip [] = False"
| "chain_match ub src_ip (node # rest) =
     (if cidr_match ub src_ip (bn_ip node) (bn_mask node) then True else chain_match ub src_ip rest)"

text \<open>The \<^verbatim>\<open>break\<close> leaves the chain only: the loop over the buckets goes on with \<^verbatim>\<open>match\<close> set.\<close>

definition inspect_ip_blocklist :: "(u8 \<Rightarrow> u32) \<Rightarrow> blocklist \<Rightarrow> u32 \<Rightarrow> bool" where
  "inspect_ip_blocklist ub bl src_ip =
     foldl (\<lambda>m chain. if chain_match ub src_ip chain then True else m) False (bl_hash bl)"

definition hash_add_rcu :: "blocklist_node list list \<Rightarrow> blocklist_node \<Rightarrow> u32 \<Rightarrow> blocklist_node list list" where
  "hash_add_rcu hash node key = (let b = unat (key mod 256) in hash[b := node # hash ! b])"

definition load_node ::
    "(nat \<Rightarrow> bool) \<Rightarrow> (nat \<Rightarrow> blocklist_entry) \<Rightarrow> blocklist_payload \<Rightarrow> nat \<Rightarrow>
     blocklist_node list list \<Rightarrow> blocklist_node list list" where
  "load_node alloc oob p i hash =
     (if alloc i
      then let e = payload_entry oob p i; node = \<lparr>bn_ip = be_ip e, bn_mask = be_mask e\<rparr>
           in hash_add_rcu hash node (bn_ip node)
      else hash)"

definition load_count :: "blocklist_payload \<Rightarrow> nat" where
  "load_count p = min (unat (bp_count p)) MAX_BLOCKLIST_IPS"

definition update_ip_blocklist ::
    "(nat \<Rightarrow> bool) \<Rightarrow> (nat \<Rightarrow> blocklist_entry) \<Rightarrow> reputation_table \<Rightarrow> blocklist \<Rightarrow> blocklist_payload \<Rightarrow>
     reputation_table \<times> blocklist" where
  "update_ip_blocklist alloc oob rep bl p =
     (let rep' = sync_reputation_with_blocklist oob rep (Some p);
          cleared = map (\<lambda>_. []) (bl_hash bl);
          hash = fold (load_node alloc oob p) [0..<load_count p] cleared
      in (rep', \<lparr>bl_hash = hash, g_block_local_ips = bp_block_local_ips p\<rparr>))"

subsection \<open>Invariant and lemmas\<close>

definition placed :: "blocklist_node list list \<Rightarrow> bool" where
  "placed hash \<longleftrightarrow> length hash = HASH_BUCKETS \<and>
     list_all (\<lambda>b. list_all (\<lambda>n. unat (bn_ip n mod 256) = b) (hash ! b)) [0..<HASH_BUCKETS]"

definition bl_ok :: "blocklist \<Rightarrow> bool" where
  "bl_ok bl \<longleftrightarrow> placed (bl_hash bl)"

definition bl_nodes :: "blocklist_node list list \<Rightarrow> (u32 \<times> u8) set" where
  "bl_nodes hash = (\<lambda>n. (bn_ip n, bn_mask n)) ` set (concat hash)"

lemma chain_match_iff: "chain_match ub src chain \<longleftrightarrow> (\<exists>n\<in>set chain. cidr_match ub src (bn_ip n) (bn_mask n))"
  by (induction chain) auto

lemma fold_found: "foldl (\<lambda>m x. if P x then True else m) m0 xs \<longleftrightarrow> m0 \<or> (\<exists>x\<in>set xs. P x)"
  by (induction xs arbitrary: m0) auto

lemma inspect_iff:
  "inspect_ip_blocklist ub bl src \<longleftrightarrow> (\<exists>(ip, m) \<in> bl_nodes (bl_hash bl). cidr_match ub src ip m)"
  by (auto simp: inspect_ip_blocklist_def fold_found chain_match_iff bl_nodes_def)

interpretation blocklist: cidr_list ub "\<lambda>bl. bl_nodes (bl_hash bl)" "inspect_ip_blocklist ub" for ub
  by unfold_locales (rule inspect_iff)

lemma key_bucket_less: "unat (key mod 256 :: u32) < HASH_BUCKETS"
  by (simp add: unat_mod HASH_BUCKETS_def)

lemma set_concat_update:
  "b < length hash \<Longrightarrow> set (concat (hash[b := x # hash ! b])) = insert x (set (concat hash))"
  by (induction hash arbitrary: b) (auto split: nat.split)

lemma length_load [simp]: "length (fold (load_node alloc oob p) is hash) = length hash"
  by (induction "is" arbitrary: hash) (auto simp: load_node_def hash_add_rcu_def Let_def)

lemma load_nodes:
  assumes "length hash = HASH_BUCKETS"
  shows "bl_nodes (fold (load_node alloc oob p) is hash) = bl_nodes hash \<union>
    (\<lambda>i. (be_ip (payload_entry oob p i), be_mask (payload_entry oob p i))) ` {i \<in> set is. alloc i}"
  using assms
proof (induction "is" arbitrary: hash)
  case (Cons i "is")
  have len: "length (load_node alloc oob p i hash) = HASH_BUCKETS"
    using Cons.prems by (simp add: load_node_def hash_add_rcu_def Let_def)
  have "bl_nodes (load_node alloc oob p i hash) =
      (if alloc i then insert (be_ip (payload_entry oob p i), be_mask (payload_entry oob p i)) (bl_nodes hash)
       else bl_nodes hash)"
    using Cons.prems key_bucket_less
    by (simp add: load_node_def hash_add_rcu_def Let_def bl_nodes_def set_concat_update del: set_concat)
  then show ?case using Cons.IH [OF len] by (auto simp: Let_def)
qed simp

lemma bl_okD: "bl_ok bl \<Longrightarrow> length (bl_hash bl) = HASH_BUCKETS"
  by (simp add: bl_ok_def placed_def)

lemma hash_add_placed:
  assumes "placed hash"
  shows "placed (hash_add_rcu hash n (bn_ip n))"
proof -
  let ?k = "unat (bn_ip n mod 256)"
  have "list_all (\<lambda>n. unat (bn_ip n mod 256) = b) (hash_add_rcu hash n (bn_ip n) ! b)" if "b < HASH_BUCKETS" for b
    using assms that by (cases "b = ?k") (auto simp: placed_def hash_add_rcu_def Let_def list_all_iff [of _ "[0..<_]"])
  then show ?thesis
    using assms by (simp add: placed_def hash_add_rcu_def Let_def list_all_iff [of _ "[0..<_]"])
qed

lemma load_placed: "placed hash \<Longrightarrow> placed (fold (load_node alloc oob p) is hash)"
proof (induction "is" arbitrary: hash)
  case (Cons i "is")
  then have "placed (load_node alloc oob p i hash)"
    using hash_add_placed [of hash "\<lparr>bn_ip = be_ip (payload_entry oob p i), bn_mask = be_mask (payload_entry oob p i)\<rparr>"]
    by (simp add: load_node_def Let_def)
  with Cons.IH show ?case by simp
qed simp

lemma empty_bl_ok [pool_inv]: "bl_ok empty_blocklist"
  by (simp add: bl_ok_def placed_def empty_blocklist_def list_all_iff)

lemma update_bl_ok [pool_inv]: "bl_ok bl \<Longrightarrow> bl_ok (snd (update_ip_blocklist alloc oob rep bl p))"
proof -
  assume "bl_ok bl"
  then have "placed (map (\<lambda>_. []) (bl_hash bl))"
    by (simp add: bl_ok_def placed_def list_all_iff)
  then show ?thesis by (simp add: update_ip_blocklist_def Let_def bl_ok_def load_placed)
qed

lemma update_bl_nodes:
  assumes "bl_ok bl"
  shows "bl_nodes (bl_hash (snd (update_ip_blocklist alloc oob rep bl p))) =
    (\<lambda>i. (be_ip (payload_entry oob p i), be_mask (payload_entry oob p i))) ` {i. i < load_count p \<and> alloc i}"
  using bl_okD [OF assms]
  by (simp add: update_ip_blocklist_def Let_def load_nodes) (auto simp: bl_nodes_def)

subsection \<open>Properties\<close>

text \<open>C11: After an update the blocklist is exactly the payload. With masks up to 32, a source is
  blocked if and only if its leading mask bits agree with one of the first \<^verbatim>\<open>count\<close> entries (at most
  1024) whose node could be allocated; nothing of the old list is left, and no entry outside the array
  is used. The invariant of the table holds again, whatever the payload says.\<close>

theorem blocklist_update_exact:
  assumes "bl_ok bl" and "payload_wf p" and "list_all (\<lambda>e. unat (be_mask e) \<le> 32) (bp_entries p)"
  shows "inspect_ip_blocklist ub (snd (update_ip_blocklist alloc oob rep bl p)) src =
      list_ex (\<lambda>i. alloc i \<and> drop_bit (32 - unat (be_mask (bp_entries p ! i))) (ntohl src) =
                 drop_bit (32 - unat (be_mask (bp_entries p ! i))) (ntohl (be_ip (bp_entries p ! i))))
        [0..<min (unat (bp_count p)) 1024] \<and>
    g_block_local_ips (snd (update_ip_blocklist alloc oob rep bl p)) = bp_block_local_ips p \<and>
    bl_ok (snd (update_ip_blocklist alloc oob rep bl p))"
proof -
  let ?bl = "snd (update_ip_blocklist alloc oob rep bl p)"
  have inside: "payload_entry oob p i = bp_entries p ! i \<and> bp_entries p ! i \<in> set (bp_entries p)"
    if "i < load_count p" for i
    using that assms(2) by (simp add: payload_entry_def payload_wf_def load_count_def)
  have masks: "snd ` bl_nodes (bl_hash ?bl) \<subseteq> {m. unat m \<le> 32}"
    using assms(3) inside by (auto simp: update_bl_nodes [OF assms(1)] list_all_iff)
  have "inspect_ip_blocklist ub ?bl src =
      (\<exists>i<load_count p. alloc i \<and> same_network src (be_ip (bp_entries p ! i)) (be_mask (bp_entries p ! i)))"
    unfolding blocklist.check_networks [OF masks] update_bl_nodes [OF assms(1)] using inside by auto
  moreover have "g_block_local_ips ?bl = bp_block_local_ips p"
    by (simp add: update_ip_blocklist_def Let_def)
  ultimately show ?thesis
    using update_bl_ok [OF assms(1)]
    by (auto simp: same_network_def list_ex_iff load_count_def MAX_BLOCKLIST_IPS_def)
qed

definition sample_payload :: blocklist_payload where
  "sample_payload = \<lparr>bp_count = 1, bp_block_local_ips = 0,
     bp_entries = \<lparr>be_ip = inet_addr4 203 0 113 0, be_mask = 24\<rparr> # replicate 1023 \<lparr>be_ip = 0, be_mask = 0\<rparr>\<rparr>"

theorem blocklist_update_exact_witness:
  "inspect_ip_blocklist (\<lambda>_. 0) (snd (update_ip_blocklist (\<lambda>_. True) (\<lambda>_. \<lparr>be_ip = 0, be_mask = 0\<rparr>)
     init_ip_reputation empty_blocklist sample_payload)) (inet_addr4 203 0 113 77)"
proof -
  have wf: "payload_wf sample_payload"
    by (simp add: payload_wf_def sample_payload_def MAX_BLOCKLIST_IPS_def)
  have masks: "list_all (\<lambda>e. unat (be_mask e) \<le> 32) (bp_entries sample_payload)"
    by (simp add: sample_payload_def list_all_iff)
  have first: "bp_entries sample_payload ! 0 = \<lparr>be_ip = inet_addr4 203 0 113 0, be_mask = 24\<rparr>"
    and count: "bp_count sample_payload = 1" by (simp_all add: sample_payload_def)
  show ?thesis
    using blocklist_update_exact [OF empty_bl_ok wf masks, of "\<lambda>_. 0" "\<lambda>_. True"
        "\<lambda>_. \<lparr>be_ip = 0, be_mask = 0\<rparr>" init_ip_reputation "inet_addr4 203 0 113 77"]
    by (simp add: first count) (simp add: inet_addr4_def)
qed

text \<open>The update and its neighbour disagree on the array bound: the loader stops at 1024 entries, the
  reputation synchronisation it calls runs to \<^verbatim>\<open>count\<close>. With a count above 1024, the memory after the
  array decides whether an address at or below 20 that the list does not name is forgiven.\<close>

lemma blocklist_sync_reads_past_array:
  assumes "payload_wf p" and "1024 < unat (bp_count p)" and "rep_ok rep"
    and "get_ip_reputation rep ip \<le> 20" and "ip \<notin> be_ip ` set (bp_entries p)"
  shows "get_ip_reputation (fst (update_ip_blocklist alloc (\<lambda>_. \<lparr>be_ip = ip, be_mask = 32\<rparr>) rep bl p)) ip \<le> 20 \<and>
    get_ip_reputation (fst (update_ip_blocklist alloc (\<lambda>_. \<lparr>be_ip = ip + 1, be_mask = 32\<rparr>) rep bl p)) ip = 100"
proof -
  let ?E = "\<lambda>oob j. be_ip (payload_entry oob p j)"
  have "?E (\<lambda>_. \<lparr>be_ip = ip, be_mask = 32\<rparr>) 1024 = ip"
    using assms(1) by (simp add: payload_entry_def payload_wf_def MAX_BLOCKLIST_IPS_def)
  then have listed: "payload_lists_ip (\<lambda>_. \<lparr>be_ip = ip, be_mask = 32\<rparr>) p ip"
    unfolding payload_lists_ip_def list_ex_iff using assms(2) by (metis atLeast_upt lessThan_iff)
  have "?E (\<lambda>_. \<lparr>be_ip = ip + 1, be_mask = 32\<rparr>) j \<noteq> ip" for j
    using assms(5) by (auto simp: payload_entry_def)
  then have unlisted: "\<not> payload_lists_ip (\<lambda>_. \<lparr>be_ip = ip + 1, be_mask = 32\<rparr>) p ip"
    by (simp add: payload_lists_ip_def list_ex_iff)
  obtain e where e: "rep_abs rep ip = Some e" "re_score e \<le> 20"
    using assms(4) by (auto simp: get_rep_abs split: option.splits)
  moreover have "re_ip e = ip" using rep_abs_ok [OF assms(3) e(1)] by simp
  ultimately show ?thesis
    using assms(3) listed unlisted
    by (simp add: update_ip_blocklist_def Let_def get_rep_abs sync_rep_abs sync_entry_def)
qed

end
