(* ===== verification/Ip_Blocklist_Heap.thy ===== *)
theory Ip_Blocklist_Heap
  imports Ip_Blocklist
begin

section \<open>The blocklist in memory (ip\_blocklist.c, userspace\_compat.h)\<close>

text \<open>
  \<open>Ip_Blocklist\<close> has the chains as lists. Here they are what the code has: nodes in memory, linked by \<^verbatim>\<open>next\<close> pointers, a table of 256
  heads, \<^verbatim>\<open>malloc\<close> and \<^verbatim>\<open>free\<close>. A node that has been freed is not in \<open>bh_mem\<close>, and to touch it is a fault. Both functions are given as
  steps, one access to a node each, and as the loops that run them to the end (\<open>None\<close> for a loop that does not end).

  The loops refine the lists: they end, touch no freed node, free every old node once and leak none. But in the daemon
  \<^verbatim>\<open>spin_lock\<close> and \<^verbatim>\<open>rcu_read_lock\<close> are empty macros, and the packet thread and the agent listener run at the same time; \<open>race_step\<close>
  interleaves their steps.
\<close>

subsection \<open>Model\<close>

text \<open>\<^verbatim>\<open>struct blocklist_node\<close> with its embedded \<^verbatim>\<open>hlist_node\<close>; \<^verbatim>\<open>pprev\<close> is never used. \<^term>\<open>None\<close> is \<^verbatim>\<open>NULL\<close>.\<close>

record bl_cell =
  bc_node :: blocklist_node
  bc_next :: "nat option"

record bl_heap =
  bh_mem :: "nat \<rightharpoonup> bl_cell"
  bh_table :: "nat option list"
  bh_block_local_ips :: u32

definition bl_heap_boot :: bl_heap where
  "bl_heap_boot = \<lparr>bh_mem = Map.empty, bh_table = replicate HASH_BUCKETS None, bh_block_local_ips = 0\<rparr>"

datatype mem_fault = USE_AFTER_FREE

text \<open>The reader of \<^verbatim>\<open>inspect_ip_blocklist\<close>: the bucket, the pointer \<^verbatim>\<open>curr\<close>, and \<^verbatim>\<open>match\<close>.\<close>

datatype reader = WALK nat "nat option" bool | READ_DONE bool | READ_FAULT

definition next_bucket :: "bl_heap \<Rightarrow> nat \<Rightarrow> bool \<Rightarrow> reader" where
  "next_bucket h b found = (if Suc b < HASH_BUCKETS then WALK (Suc b) (bh_table h ! Suc b) found else READ_DONE found)"

fun reader_step :: "(u8 \<Rightarrow> u32) \<Rightarrow> u32 \<Rightarrow> bl_heap \<Rightarrow> reader \<Rightarrow> reader" where
  "reader_step ub src h (WALK b None found) = next_bucket h b found"
| "reader_step ub src h (WALK b (Some a) found) =
     (case bh_mem h a of None \<Rightarrow> READ_FAULT
      | Some c \<Rightarrow> if cidr_match ub src (bn_ip (bc_node c)) (bn_mask (bc_node c)) then next_bucket h b True
                else WALK b (bc_next c) found)"
| "reader_step ub src h r = r"

partial_function (option) reader_run :: "(u8 \<Rightarrow> u32) \<Rightarrow> u32 \<Rightarrow> bl_heap \<Rightarrow> reader \<Rightarrow> (mem_fault + bool) option" where
  "reader_run ub src h r =
     (case r of READ_DONE found \<Rightarrow> Some (Inr found) | READ_FAULT \<Rightarrow> Some (Inl USE_AFTER_FREE)
      | WALK b p found \<Rightarrow> reader_run ub src h (reader_step ub src h r))"

definition heap_inspect :: "(u8 \<Rightarrow> u32) \<Rightarrow> bl_heap \<Rightarrow> u32 \<Rightarrow> (mem_fault + bool) option" where
  "heap_inspect ub h src = reader_run ub src h (WALK 0 (bh_table h ! 0) False)"

text \<open>The writer of \<^verbatim>\<open>update_ip_blocklist\<close> past the reputation: clearing, with the pointer \<^verbatim>\<open>n\<close>, and loading, with the index \<^verbatim>\<open>i\<close>.\<close>

datatype writer = CLEAR nat "nat option" | LOAD nat | WRITE_DONE | WRITE_FAULT

definition heap_add :: "nat \<Rightarrow> blocklist_node \<Rightarrow> bl_heap \<Rightarrow> bl_heap" where
  "heap_add a node h =
     (let b = unat (bn_ip node mod 256) in
      h\<lparr>bh_mem := (bh_mem h)(a \<mapsto> \<lparr>bc_node = node, bc_next = bh_table h ! b\<rparr>), bh_table := (bh_table h)[b := Some a]\<rparr>)"

text \<open>\<^term>\<open>malloc i\<close> is the result of the i-th allocation.\<close>

fun writer_step ::
    "(nat \<Rightarrow> nat option) \<Rightarrow> (nat \<Rightarrow> blocklist_entry) \<Rightarrow> blocklist_payload \<Rightarrow> bl_heap \<times> writer \<Rightarrow> bl_heap \<times> writer" where
  "writer_step malloc oob p (h, CLEAR b (Some a)) =
     (case bh_mem h a of None \<Rightarrow> (h, WRITE_FAULT)
      | Some c \<Rightarrow> (h\<lparr>bh_mem := (bh_mem h)(a := None)\<rparr>, CLEAR b (bc_next c)))"
| "writer_step malloc oob p (h, CLEAR b None) =
     (let h = h\<lparr>bh_table := (bh_table h)[b := None]\<rparr> in
      (h, if Suc b < HASH_BUCKETS then CLEAR (Suc b) (bh_table h ! Suc b) else LOAD 0))"
| "writer_step malloc oob p (h, LOAD i) =
     (if i < load_count p then
        (case malloc i of None \<Rightarrow> (h, LOAD (Suc i))
         | Some a \<Rightarrow> (let e = payload_entry oob p i in (heap_add a \<lparr>bn_ip = be_ip e, bn_mask = be_mask e\<rparr> h, LOAD (Suc i))))
      else (h, WRITE_DONE))"
| "writer_step malloc oob p (h, w) = (h, w)"

partial_function (option) writer_run ::
    "(nat \<Rightarrow> nat option) \<Rightarrow> (nat \<Rightarrow> blocklist_entry) \<Rightarrow> blocklist_payload \<Rightarrow> bl_heap \<times> writer \<Rightarrow> (mem_fault + bl_heap) option" where
  "writer_run malloc oob p hw =
     (case snd hw of WRITE_DONE \<Rightarrow> Some (Inr (fst hw)) | WRITE_FAULT \<Rightarrow> Some (Inl USE_AFTER_FREE)
      | _ \<Rightarrow> writer_run malloc oob p (writer_step malloc oob p hw))"

definition writer_start :: "blocklist_payload \<Rightarrow> bl_heap \<Rightarrow> bl_heap \<times> writer" where
  "writer_start p h = (h\<lparr>bh_block_local_ips := bp_block_local_ips p\<rparr>, CLEAR 0 (bh_table h ! 0))"

definition heap_update ::
    "(nat \<Rightarrow> nat option) \<Rightarrow> (nat \<Rightarrow> blocklist_entry) \<Rightarrow> blocklist_payload \<Rightarrow> bl_heap \<Rightarrow> (mem_fault + bl_heap) option" where
  "heap_update malloc oob p h = writer_run malloc oob p (writer_start p h)"

text \<open>Both threads of the daemon on one heap.\<close>

inductive race_step ::
    "(u8 \<Rightarrow> u32) \<Rightarrow> u32 \<Rightarrow> (nat \<Rightarrow> nat option) \<Rightarrow> (nat \<Rightarrow> blocklist_entry) \<Rightarrow> blocklist_payload \<Rightarrow>
     bl_heap \<times> writer \<times> reader \<Rightarrow> bl_heap \<times> writer \<times> reader \<Rightarrow> bool"
  for ub src malloc oob p where
  reads: "race_step ub src malloc oob p (h, w, r) (h, w, reader_step ub src h r)"
| writes: "writer_step malloc oob p (h, w) = (h', w') \<Longrightarrow> race_step ub src malloc oob p (h, w, r) (h', w', r)"

subsection \<open>Chains in memory\<close>

text \<open>From pointer \<^term>\<open>p\<close> the nodes lie at the given addresses, and the last one points nowhere.\<close>

fun chain_at :: "(nat \<rightharpoonup> bl_cell) \<Rightarrow> nat option \<Rightarrow> nat list \<Rightarrow> blocklist_node list \<Rightarrow> bool" where
  "chain_at m p [] [] \<longleftrightarrow> p = None"
| "chain_at m p (a # as) (n # ns) \<longleftrightarrow> p = Some a \<and> (\<exists>q. m a = Some \<lparr>bc_node = n, bc_next = q\<rparr> \<and> chain_at m q as ns)"
| "chain_at m p _ _ \<longleftrightarrow> False"

text \<open>The heap holds the table: a chain for every bucket, no node twice, and no node outside the chains.\<close>

definition holds_chains :: "bl_heap \<Rightarrow> nat list list \<Rightarrow> blocklist_node list list \<Rightarrow> bool" where
  "holds_chains h adss hash \<longleftrightarrow> length adss = HASH_BUCKETS \<and> length hash = HASH_BUCKETS \<and> length (bh_table h) = HASH_BUCKETS \<and>
     (\<forall>b < HASH_BUCKETS. chain_at (bh_mem h) (bh_table h ! b) (adss ! b) (hash ! b)) \<and>
     distinct (concat adss) \<and> dom (bh_mem h) = set (concat adss)"

definition heap_holds :: "bl_heap \<Rightarrow> blocklist \<Rightarrow> bool" where
  "heap_holds h bl \<longleftrightarrow> (\<exists>adss. holds_chains h adss (bl_hash bl)) \<and> bh_block_local_ips h = g_block_local_ips bl"

lemma holds_chainsD:
  assumes "holds_chains h adss hash"
  shows "length adss = HASH_BUCKETS" "length hash = HASH_BUCKETS" "length (bh_table h) = HASH_BUCKETS"
    "b < HASH_BUCKETS \<Longrightarrow> chain_at (bh_mem h) (bh_table h ! b) (adss ! b) (hash ! b)"
    "distinct (concat adss)" "dom (bh_mem h) = set (concat adss)"
  using assms by (simp_all add: holds_chains_def)

lemma boot_holds: "heap_holds bl_heap_boot empty_blocklist"
proof -
  have "holds_chains bl_heap_boot (replicate HASH_BUCKETS []) (replicate HASH_BUCKETS [])"
    by (simp add: holds_chains_def bl_heap_boot_def)
  then show ?thesis by (auto simp: heap_holds_def empty_blocklist_def bl_heap_boot_def)
qed

lemma chain_at_other: "a \<notin> set as \<Longrightarrow> chain_at (m(a := v)) p as ns = chain_at m p as ns"
  by (induction m p as ns rule: chain_at.induct) auto

lemma chain_at_restrict: "set as \<inter> A = {} \<Longrightarrow> chain_at (m |` (- A)) p as ns = chain_at m p as ns"
  by (induction m p as ns rule: chain_at.induct) (auto simp: restrict_map_def)

lemma chain_at_None: "chain_at m None as ns \<longleftrightarrow> as = [] \<and> ns = []"
  by (cases as; cases ns) auto

subsection \<open>Reading alone\<close>

lemma reader_run_simps [simp]:
  "reader_run ub src h (READ_DONE found) = Some (Inr found)" "reader_run ub src h READ_FAULT = Some (Inl USE_AFTER_FREE)"
  by (simp_all add: reader_run.simps)

lemma reader_run_walk: "reader_run ub src h (WALK b p found) = reader_run ub src h (reader_step ub src h (WALK b p found))"
  by (subst reader_run.simps) simp

lemma reader_run_chain:
  "chain_at (bh_mem h) p as ns \<Longrightarrow>
    reader_run ub src h (WALK b p found) = reader_run ub src h (next_bucket h b (if chain_match ub src ns then True else found))"
  by (induction "bh_mem h" p as ns rule: chain_at.induct) (auto simp: reader_run_walk)

lemma reader_run_buckets:
  assumes "holds_chains h adss hash" "b < HASH_BUCKETS"
  shows "reader_run ub src h (WALK b (bh_table h ! b) found) =
    Some (Inr (foldl (\<lambda>m chain. if chain_match ub src chain then True else m) found (drop b hash)))"
  using assms(2)
proof (induction "HASH_BUCKETS - b" arbitrary: b found)
  case (Suc k)
  note chain = reader_run_chain [OF holds_chainsD(4) [OF assms(1) Suc.prems], of ub src b found]
  have len: "length hash = HASH_BUCKETS" by (rule holds_chainsD(2) [OF assms(1)])
  then have drop: "drop b hash = hash ! b # drop (Suc b) hash" using Suc.prems by (simp add: Cons_nth_drop_Suc)
  show ?case
  proof (cases "Suc b < HASH_BUCKETS")
    case True
    with Suc.hyps have "reader_run ub src h (WALK (Suc b) (bh_table h ! Suc b) f) =
        Some (Inr (foldl (\<lambda>m chain. if chain_match ub src chain then True else m) f (drop (Suc b) hash)))" for f
      by simp
    with True chain show ?thesis by (simp add: next_bucket_def drop)
  next
    case False
    with chain len show ?thesis by (simp add: next_bucket_def drop)
  qed
qed simp

lemma heap_inspect_eq:
  assumes "heap_holds h bl"
  shows "heap_inspect ub h src = Some (Inr (inspect_ip_blocklist ub bl src))"
proof -
  obtain adss where "holds_chains h adss (bl_hash bl)" using assms by (auto simp: heap_holds_def)
  from reader_run_buckets [OF this, of 0] show ?thesis
    by (simp add: heap_inspect_def inspect_ip_blocklist_def HASH_BUCKETS_def)
qed

subsection \<open>Writing alone\<close>

lemma writer_run_simps:
  "writer_run malloc oob p (h, WRITE_DONE) = Some (Inr h)"
  "writer_run malloc oob p (h, CLEAR b q) = writer_run malloc oob p (writer_step malloc oob p (h, CLEAR b q))"
  "writer_run malloc oob p (h, LOAD i) = writer_run malloc oob p (writer_step malloc oob p (h, LOAD i))"
  by (subst writer_run.simps, simp)+

lemma clear_chain:
  "chain_at (bh_mem h) q as ns \<Longrightarrow> distinct as \<Longrightarrow>
    writer_run malloc oob p (h, CLEAR b q) = writer_run malloc oob p (h\<lparr>bh_mem := bh_mem h |` (- set as)\<rparr>, CLEAR b None)"
proof (induction as arbitrary: h q ns)
  case Nil
  then show ?case by (cases ns) simp_all
next
  case (Cons a as)
  then obtain n ns' q' where c: "q = Some a" "bh_mem h a = Some \<lparr>bc_node = n, bc_next = q'\<rparr>" "chain_at (bh_mem h) q' as ns'"
    by (cases ns) auto
  let ?h = "h\<lparr>bh_mem := (bh_mem h)(a := None)\<rparr>"
  have "a \<notin> set as" "distinct as" using Cons.prems(2) by simp_all
  then have "chain_at (bh_mem ?h) q' as ns'" using c(3) by (simp add: chain_at_other)
  from Cons.IH [OF this \<open>distinct as\<close>]
  have "writer_run malloc oob p (?h, CLEAR b q') = writer_run malloc oob p (?h\<lparr>bh_mem := bh_mem ?h |` (- set as)\<rparr>, CLEAR b None)" .
  moreover have "((bh_mem h)(a := None)) |` (- set as) = bh_mem h |` (- set (a # as))" by (auto simp: restrict_map_def)
  moreover have "writer_run malloc oob p (h, CLEAR b q) = writer_run malloc oob p (?h, CLEAR b q')"
    using c(1,2) by (subst writer_run_simps) simp
  ultimately show ?case by simp
qed

text \<open>Clearing from bucket \<^term>\<open>b\<close> on frees everything when all nodes are there.\<close>

lemma clear_buckets:
  assumes "length (bh_table h) = HASH_BUCKETS" "length adss = HASH_BUCKETS" "b < HASH_BUCKETS"
    and "\<And>c. b \<le> c \<Longrightarrow> c < HASH_BUCKETS \<Longrightarrow> \<exists>ns. chain_at (bh_mem h) (bh_table h ! c) (adss ! c) ns"
    and "distinct (concat (drop b adss))" "dom (bh_mem h) \<subseteq> set (concat (drop b adss))"
  shows "writer_run malloc oob p (h, CLEAR b (bh_table h ! b)) = writer_run malloc oob p
    (h\<lparr>bh_mem := Map.empty, bh_table := take b (bh_table h) @ replicate (HASH_BUCKETS - b) None\<rparr>, LOAD 0)"
  using assms
proof (induction "HASH_BUCKETS - b" arbitrary: b h)
  case (Suc k)
  let ?as = "adss ! b"
  have drop: "drop b adss = ?as # drop (Suc b) adss" using Suc.prems(2,3) by (simp add: Cons_nth_drop_Suc)
  have dist: "distinct ?as" "distinct (concat (drop (Suc b) adss))" "set ?as \<inter> set (concat (drop (Suc b) adss)) = {}"
    using Suc.prems(5) by (simp_all add: drop)
  obtain ns where "chain_at (bh_mem h) (bh_table h ! b) ?as ns" using Suc.prems(4) [OF order_refl Suc.prems(3)] ..
  note chain = clear_chain [OF this dist(1), of malloc oob p b]
  let ?h = "h\<lparr>bh_mem := bh_mem h |` (- set ?as), bh_table := (bh_table h)[b := None]\<rparr>"
  have dom: "dom (bh_mem ?h) \<subseteq> set (concat (drop (Suc b) adss))" using Suc.prems(6) by (auto simp: drop)
  have table: "(bh_table h)[b := None] = take b (bh_table h) @ None # drop (Suc b) (bh_table h)"
    using Suc.prems(1,3) by (simp add: upd_conv_take_nth_drop)
  show ?case
  proof (cases "Suc b < HASH_BUCKETS")
    case True
    have "\<exists>ns. chain_at (bh_mem ?h) (bh_table ?h ! c) (adss ! c) ns" if c: "Suc b \<le> c" "c < HASH_BUCKETS" for c
    proof -
      have "adss ! c = drop (Suc b) adss ! (c - Suc b)" "c - Suc b < length (drop (Suc b) adss)" using that Suc.prems(2) by simp_all
      then have "adss ! c \<in> set (drop (Suc b) adss)" by (metis nth_mem)
      then have "set (adss ! c) \<inter> set ?as = {}" using dist(3) by auto
      moreover obtain ns where "chain_at (bh_mem h) (bh_table h ! c) (adss ! c) ns" using Suc.prems(4) [OF Suc_leD [OF c(1)] c(2)] ..
      ultimately have "chain_at (bh_mem h |` (- set ?as)) (bh_table h ! c) (adss ! c) ns" by (simp add: chain_at_restrict)
      moreover have "bh_table ?h ! c = bh_table h ! c" using that by simp
      ultimately show ?thesis by (intro exI [of _ ns]) simp
    qed
    then have "writer_run malloc oob p (?h, CLEAR (Suc b) (bh_table ?h ! Suc b)) = writer_run malloc oob p
        (?h\<lparr>bh_mem := Map.empty, bh_table := take (Suc b) (bh_table ?h) @ replicate (HASH_BUCKETS - Suc b) None\<rparr>, LOAD 0)"
      using Suc.hyps(2) Suc.prems(1,2) True dist(2) dom by (intro Suc.hyps(1)) simp_all
    moreover have "take (Suc b) (bh_table ?h) @ replicate (HASH_BUCKETS - Suc b) None =
        take b (bh_table h) @ replicate (HASH_BUCKETS - b) None"
      using Suc.prems(1,3) by (simp add: table Suc_diff_Suc [symmetric])
    ultimately show ?thesis using True by (simp add: chain writer_run_simps(2) [of _ _ _ _ _ None] Let_def)
  next
    case False
    then have "HASH_BUCKETS - b = Suc 0" "drop (Suc b) adss = []" using Suc.prems(2,3) by simp_all
    moreover from this(2) have "dom (bh_mem h) \<subseteq> set ?as" using Suc.prems(6) unfolding drop by simp
    then have "bh_mem h |` (- set ?as) = Map.empty" by (auto simp: restrict_map_def fun_eq_iff)
    ultimately show ?thesis
      using False Suc.prems(1) by (simp add: chain writer_run_simps(2) [of _ _ _ _ _ None] Let_def table)
  qed
qed simp

text \<open>Adding a node at a fresh address.\<close>

lemma distinct_concat_update:
  "b < length xss \<Longrightarrow> distinct (concat xss) \<Longrightarrow> x \<notin> set (concat xss) \<Longrightarrow> distinct (concat (xss[b := x # xss ! b]))"
proof (induction xss arbitrary: b)
  case (Cons ys xss)
  show ?case
  proof (cases b)
    case (Suc c)
    have "distinct (concat (xss[c := x # xss ! c]))" using Cons Suc by simp
    moreover have "set (concat (xss[c := x # xss ! c])) = insert x (set (concat xss))"
      using Cons.prems(1) Suc by (intro set_concat_update) simp
    ultimately show ?thesis using Cons.prems(2,3) Suc by (auto simp del: set_concat)
  qed (use Cons.prems in auto)
qed simp

lemma heap_add_holds:
  assumes "holds_chains h adss hash" "a \<notin> dom (bh_mem h)"
  shows "holds_chains (heap_add a n h) (adss[unat (bn_ip n mod 256) := a # adss ! unat (bn_ip n mod 256)]) (hash_add_rcu hash n (bn_ip n))"
proof -
  let ?k = "unat (bn_ip n mod 256)"
  note h = holds_chainsD [OF assms(1)]
  have k: "?k < HASH_BUCKETS" by (rule key_bucket_less)
  have fresh: "a \<notin> set (adss ! b)" if "b < HASH_BUCKETS" for b using assms(2) h(1,6) that by (auto simp: set_conv_nth [of adss])
  have "chain_at (bh_mem (heap_add a n h)) (bh_table (heap_add a n h) ! b) (adss[?k := a # adss ! ?k] ! b) (hash_add_rcu hash n (bn_ip n) ! b)"
    if "b < HASH_BUCKETS" for b
    using h(1-3) h(4) [OF that] h(4) [OF k] k that fresh [OF that] fresh [OF k]
    by (cases "b = ?k") (auto simp: heap_add_def hash_add_rcu_def Let_def chain_at_other)
  moreover have "set (concat (adss[?k := a # adss ! ?k])) = insert a (set (concat adss))" using h(1) k by (intro set_concat_update) simp
  moreover have "distinct (concat (adss[?k := a # adss ! ?k]))" using h(1,5,6) k assms(2) by (intro distinct_concat_update) simp_all
  ultimately show ?thesis
    using h by (simp add: holds_chains_def hash_add_rcu_def heap_add_def Let_def del: set_concat)
qed

text \<open>Live blocks of \<^verbatim>\<open>malloc\<close> are distinct: what the loop still allocates is not in use.\<close>

lemma load_nodes_hold:
  assumes "inj_on malloc {i. malloc i \<noteq> None}" "dom (bh_mem h) \<subseteq> {a. \<exists>j<i. malloc j = Some a}"
    and "holds_chains h adss hash" "i \<le> load_count p"
  shows "\<exists>h' adss'. writer_run malloc oob p (h, LOAD i) = Some (Inr h') \<and> bh_block_local_ips h' = bh_block_local_ips h \<and>
    holds_chains h' adss' (fold (load_node (\<lambda>i. malloc i \<noteq> None) oob p) [i..<load_count p] hash)"
  using assms(2-)
proof (induction "load_count p - i" arbitrary: i h adss hash)
  case 0
  then show ?case by (auto simp: writer_run_simps(1) writer_run_simps(3))
next
  case (Suc k)
  then have i: "i < load_count p" "[i..<load_count p] = i # [Suc i..<load_count p]" by (simp_all add: upt_conv_Cons)
  let ?e = "payload_entry oob p i"
  let ?n = "\<lparr>bn_ip = be_ip ?e, bn_mask = be_mask ?e\<rparr>"
  have k: "k = load_count p - Suc i" "Suc i \<le> load_count p" using Suc.hyps(2) by simp_all
  show ?case
  proof (cases "malloc i")
    case None
    have "dom (bh_mem h) \<subseteq> {a. \<exists>j<Suc i. malloc j = Some a}" using Suc.prems(1) by (auto intro: less_SucI)
    from Suc.hyps(1) [OF k(1) this Suc.prems(2) k(2)] None i show ?thesis
      by (simp add: writer_run_simps(3) load_node_def)
  next
    case (Some a)
    have "a \<notin> dom (bh_mem h)"
    proof
      assume "a \<in> dom (bh_mem h)"
      then obtain j where "j < i" "malloc j = Some a" using Suc.prems(1) by blast
      then show False using inj_onD [OF assms(1), of j i] Some by simp
    qed
    note added = heap_add_holds [OF Suc.prems(2) this, of ?n]
    have "dom (bh_mem (heap_add a ?n h)) \<subseteq> {a. \<exists>j<Suc i. malloc j = Some a}"
      using Suc.prems(1) Some by (auto simp: heap_add_def Let_def intro: less_SucI)
    from Suc.hyps(1) [OF k(1) this added k(2)]
    obtain h' adss' where "writer_run malloc oob p (heap_add a ?n h, LOAD (Suc i)) = Some (Inr h')"
      "bh_block_local_ips h' = bh_block_local_ips (heap_add a ?n h)"
      "holds_chains h' adss' (fold (load_node (\<lambda>i. malloc i \<noteq> None) oob p) [Suc i..<load_count p] (hash_add_rcu hash ?n (be_ip ?e)))"
      by auto
    moreover have "bh_block_local_ips (heap_add a ?n h) = bh_block_local_ips h" by (simp add: heap_add_def Let_def)
    moreover have "writer_run malloc oob p (h, LOAD i) = writer_run malloc oob p (heap_add a ?n h, LOAD (Suc i))"
      using Some i(1) by (simp add: writer_run_simps(3) Let_def)
    ultimately show ?thesis using Some by (auto simp: i(2) load_node_def Let_def)
  qed
qed

lemma heap_update_holds:
  assumes "heap_holds h bl" "inj_on malloc {i. malloc i \<noteq> None}"
  shows "\<exists>h'. heap_update malloc oob p h = Some (Inr h') \<and>
    heap_holds h' (snd (update_ip_blocklist (\<lambda>i. malloc i \<noteq> None) oob rep bl p))"
proof -
  obtain adss where h: "holds_chains h adss (bl_hash bl)" using assms(1) by (auto simp: heap_holds_def)
  note c = holds_chainsD [OF h]
  let ?h = "h\<lparr>bh_block_local_ips := bp_block_local_ips p\<rparr>"
  let ?z = "h\<lparr>bh_block_local_ips := bp_block_local_ips p, bh_mem := Map.empty, bh_table := replicate HASH_BUCKETS None\<rparr>"
  let ?cleared = "map (\<lambda>_. []) (bl_hash bl)"
  have "writer_run malloc oob p (?h, CLEAR 0 (bh_table ?h ! 0)) = writer_run malloc oob p (?z, LOAD 0)"
    using clear_buckets [of ?h adss 0 malloc oob p] c by (auto simp: HASH_BUCKETS_def)
  moreover have "holds_chains ?z (replicate HASH_BUCKETS []) ?cleared" using c(2) by (simp add: holds_chains_def)
  from load_nodes_hold [OF assms(2) _ this, of 0 p oob]
  obtain h' adss' where "writer_run malloc oob p (?z, LOAD 0) = Some (Inr h')" "bh_block_local_ips h' = bp_block_local_ips p"
    "holds_chains h' adss' (fold (load_node (\<lambda>i. malloc i \<noteq> None) oob p) [0..<load_count p] ?cleared)" by auto
  ultimately show ?thesis
    by (auto simp: heap_update_def writer_start_def heap_holds_def update_ip_blocklist_def Let_def)
qed

subsection \<open>Properties\<close>

text \<open>C12: The pointer code implements the blocklist: on memory that holds a blocklist, the walk over the 256 chains ends, touches
  no freed node and answers as the list of nodes does; and an update ends, reads no node it has freed, frees every old node exactly
  once, and leaves memory that holds exactly the new blocklist, with no other node (nothing leaks), for any allocation that
  gives distinct blocks or fails at any point.\<close>

theorem heap_blocklist_refines:
  assumes "heap_holds h bl" "inj_on malloc {i. malloc i \<noteq> None}"
  shows "heap_inspect ub h src = Some (Inr (inspect_ip_blocklist ub bl src)) \<and>
    (\<exists>h'. heap_update malloc oob p h = Some (Inr h') \<and>
      heap_holds h' (snd (update_ip_blocklist (\<lambda>i. malloc i \<noteq> None) oob rep bl p)))"
  using heap_inspect_eq [OF assms(1)] heap_update_holds [OF assms] by blast

theorem heap_blocklist_refines_witness:
  "heap_inspect (\<lambda>_. 0) bl_heap_boot 5 = Some (Inr False) \<and> (\<exists>h'. heap_update Some (\<lambda>_. \<lparr>be_ip = 0, be_mask = 0\<rparr>) sample_payload bl_heap_boot = Some (Inr h'))"
proof -
  have "inj_on Some {i :: nat. Some i \<noteq> None}" by (simp add: inj_on_def)
  moreover have "\<not> inspect_ip_blocklist (\<lambda>_. 0) empty_blocklist 5"
    by (simp add: inspect_iff empty_blocklist_def bl_nodes_def)
  ultimately show ?thesis
    using heap_blocklist_refines [OF boot_holds, of Some "\<lambda>_. 0" 5 "\<lambda>_. \<lparr>be_ip = 0, be_mask = 0\<rparr>" sample_payload] by auto
qed

subsection \<open>Reading while writing\<close>

lemma reader_skips:
  assumes "i \<le> b" "b < HASH_BUCKETS" "\<And>c. i \<le> c \<Longrightarrow> c < b \<Longrightarrow> bh_table h ! c = None"
  shows "(race_step ub src malloc oob p)\<^sup>*\<^sup>* (h, w, WALK i (bh_table h ! i) found) (h, w, WALK b (bh_table h ! b) found)"
  using assms
proof (induction b)
  case (Suc b)
  show ?case
  proof (cases "i = Suc b")
    case False
    then have "(race_step ub src malloc oob p)\<^sup>*\<^sup>* (h, w, WALK i (bh_table h ! i) found) (h, w, WALK b (bh_table h ! b) found)"
      using Suc.prems by (intro Suc.IH) simp_all
    also have "race_step ub src malloc oob p (h, w, WALK b (bh_table h ! b) found) (h, w, reader_step ub src h (WALK b (bh_table h ! b) found))"
      by (rule race_step.reads)
    finally show ?thesis using Suc.prems False by (simp add: next_bucket_def)
  qed simp
qed simp

lemma writer_skips:
  assumes "i \<le> b" "b < HASH_BUCKETS" "\<And>c. i \<le> c \<Longrightarrow> c < b \<Longrightarrow> bh_table h ! c = None"
  shows "(race_step ub src malloc oob p)\<^sup>*\<^sup>* (h, CLEAR i (bh_table h ! i), r) (h, CLEAR b (bh_table h ! b), r)"
  using assms
proof (induction b)
  case (Suc b)
  show ?case
  proof (cases "i = Suc b")
    case False
    then have None: "bh_table h ! b = None" using Suc.prems by simp
    from False have "(race_step ub src malloc oob p)\<^sup>*\<^sup>* (h, CLEAR i (bh_table h ! i), r) (h, CLEAR b (bh_table h ! b), r)"
      using Suc.prems by (intro Suc.IH) simp_all
    also have "(bh_table h)[b := None] = bh_table h" using None list_update_id [of "bh_table h" b] by simp
    then have "writer_step malloc oob p (h, CLEAR b (bh_table h ! b)) = (h, CLEAR (Suc b) (bh_table h ! Suc b))"
      using None Suc.prems(2) by (simp add: Let_def)
    then have "race_step ub src malloc oob p (h, CLEAR b (bh_table h ! b), r) (h, CLEAR (Suc b) (bh_table h ! Suc b), r)"
      by (rule race_step.writes)
    finally show ?thesis .
  qed simp
qed simp

text \<open>Nothing keeps the two threads apart: whenever an update starts on a list that is not empty while a packet is being looked up,
  there is an interleaving in which the packet thread follows its pointer into a node that the listener has just freed.\<close>

theorem blocklist_race_faults:
  assumes "heap_holds h bl" "concat (bl_hash bl) \<noteq> []"
  shows "\<exists>h' w'. (race_step ub src malloc oob p)\<^sup>*\<^sup>*
    (fst (writer_start p h), snd (writer_start p h), WALK 0 (bh_table h ! 0) False) (h', w', READ_FAULT)"
proof -
  obtain adss where c: "holds_chains h adss (bl_hash bl)" using assms(1) by (auto simp: heap_holds_def)
  note h = holds_chainsD [OF c]
  let ?P = "\<lambda>b. b < HASH_BUCKETS \<and> bh_table h ! b \<noteq> None"
  obtain b0 where "b0 < HASH_BUCKETS" "bl_hash bl ! b0 \<noteq> []" using assms(2) h(2) by (auto simp: in_set_conv_nth)
  then have "?P b0" using h(4) [of b0] by (cases "bh_table h ! b0") (simp_all add: chain_at_None)
  define b where "b = (LEAST b. ?P b)"
  have b: "b < HASH_BUCKETS" "bh_table h ! b \<noteq> None" using LeastI [of ?P, OF \<open>?P b0\<close>] by (simp_all add: b_def)
  have empty: "bh_table h ! c = None" if "c < b" for c
    using not_less_Least [of c ?P] that b(1) by (auto simp: b_def)
  obtain a cell where a: "bh_table h ! b = Some a" "bh_mem h a = Some cell"
    using b h(4) [OF b(1)] by (cases "adss ! b"; cases "bl_hash bl ! b") auto
  let ?h = "fst (writer_start p h)"
  let ?f = "?h\<lparr>bh_mem := (bh_mem ?h)(a := None)\<rparr>"
  have hs: "bh_table ?h = bh_table h" "bh_mem ?h = bh_mem h" "snd (writer_start p h) = CLEAR 0 (bh_table ?h ! 0)"
    by (simp_all add: writer_start_def)
  let ?R = "(race_step ub src malloc oob p)\<^sup>*\<^sup>*"
  have "?R (?h, CLEAR 0 (bh_table ?h ! 0), WALK 0 (bh_table ?h ! 0) False) (?h, CLEAR 0 (bh_table ?h ! 0), WALK b (bh_table ?h ! b) False)"
    using b(1) empty by (intro reader_skips) (simp_all add: hs)
  also have "?R \<dots> (?h, CLEAR b (bh_table ?h ! b), WALK b (bh_table ?h ! b) False)"
    using b(1) empty by (intro writer_skips) (simp_all add: hs)
  also have "writer_step malloc oob p (?h, CLEAR b (bh_table ?h ! b)) = (?f, CLEAR b (bc_next cell))" using a by (simp add: hs)
  then have "race_step ub src malloc oob p (?h, CLEAR b (bh_table ?h ! b), WALK b (bh_table ?h ! b) False)
      (?f, CLEAR b (bc_next cell), WALK b (bh_table ?h ! b) False)" by (rule race_step.writes)
  also have "race_step ub src malloc oob p (?f, CLEAR b (bc_next cell), WALK b (bh_table ?h ! b) False)
      (?f, CLEAR b (bc_next cell), reader_step ub src ?f (WALK b (bh_table ?h ! b) False))" by (rule race_step.reads)
  finally show ?thesis using a(1) by (auto simp: hs)
qed

end
