(* ===== verification/Text_Scan.thy ===== *)
theory Text_Scan
  imports Fw_Types
begin

section \<open>URL decoding and substring search\<close>

text \<open>
  The text routines of the detectors. \<^verbatim>\<open>http_inspect.c\<close> decodes a payload with its own hex-digit
  functions; \<^verbatim>\<open>sqli_detect.c\<close>, \<^verbatim>\<open>cmdi_detect.c\<close> and \<^verbatim>\<open>path_detect.c\<close> each carry the same
  decoder written with \<^verbatim>\<open>isxdigit\<close> and \<^verbatim>\<open>strtol\<close>. Both are instances of one loop, so what they
  share is proved once in the locale \<open>url_decoder\<close>, and the two are shown equal.

  The substring searches are modelled as the nested index loops they are, and shown to compute the
  first occurrence (\<^const>\<open>strstr\<close>), case folded where the code folds case.
\<close>

subsection \<open>http\_inspect.c: hex digits and url\_decode\<close>

definition is_hex_char :: "char \<Rightarrow> bool" where
  [cstr_simps]: "is_hex_char c \<longleftrightarrow> (CHR ''0'' = c \<or> (ord (CHR ''0'') \<le> ord c \<and> ord c \<le> ord (CHR ''9'')))
     \<or> (ord (CHR ''a'') \<le> ord c \<and> ord c \<le> ord (CHR ''f''))
     \<or> (ord (CHR ''A'') \<le> ord c \<and> ord c \<le> ord (CHR ''F''))"

definition hex_val :: "char \<Rightarrow> nat" where
  [cstr_simps]: "hex_val c =
     (if ord (CHR ''0'') \<le> ord c \<and> ord c \<le> ord (CHR ''9'') then ord c - ord (CHR ''0'')
      else if ord (CHR ''a'') \<le> ord c \<and> ord c \<le> ord (CHR ''f'') then 10 + (ord c - ord (CHR ''a''))
      else if ord (CHR ''A'') \<le> ord c \<and> ord c \<le> ord (CHR ''F'') then 10 + (ord c - ord (CHR ''A''))
      else 0)"

text \<open>
  One iteration of the decoding loop, at the source character \<^term>\<open>c\<close> with \<^term>\<open>cs\<close> after it:
  the byte written and what is left of the source. \<^term>\<open>hexp\<close> is the digit test and
  \<^term>\<open>hex2\<close> the value of two digits.
\<close>

definition decode_step ::
    "(char \<Rightarrow> bool) \<Rightarrow> (char \<Rightarrow> char \<Rightarrow> char) \<Rightarrow> char \<Rightarrow> byte list \<Rightarrow> byte \<times> byte list" where
  "decode_step hexp hex2 c cs =
     (if c = CHR ''%'' \<and> 2 \<le> length cs \<and> hexp (cs ! 0) \<and> hexp (cs ! 1)
      then (hex2 (cs ! 0) (cs ! 1), drop 2 cs)
      else if c = CHR ''+'' then (CHR '' '', cs)
      else (c, cs))"

text \<open>
  The loop, with \<^term>\<open>j\<close> bytes already written to a destination of \<^term>\<open>dst_len\<close> bytes. The
  result is what is written before the terminating NUL.
\<close>

function decode_loop ::
    "(char \<Rightarrow> bool) \<Rightarrow> (char \<Rightarrow> char \<Rightarrow> char) \<Rightarrow> nat \<Rightarrow> nat \<Rightarrow> byte list \<Rightarrow> byte list" where
  "decode_loop hexp hex2 dst_len j [] = []"
| "decode_loop hexp hex2 dst_len j (c # cs) =
     (if j < dst_len - 1
      then fst (decode_step hexp hex2 c cs) #
           decode_loop hexp hex2 dst_len (j + 1) (snd (decode_step hexp hex2 c cs))
      else [])"
  by pat_completeness auto
termination
  by (relation "measure (\<lambda>(hexp, hex2, dst_len, j, src). length src)")
     (auto simp: decode_step_def)

definition http_url_decode :: "byte list \<Rightarrow> nat \<Rightarrow> byte list" where
  "http_url_decode src dst_len =
     decode_loop is_hex_char (\<lambda>a b. char_of (push_bit 4 (hex_val a) OR hex_val b)) dst_len 0 src"

subsection \<open>The detectors' url\_decode\<close>

definition det_url_decode :: "byte list \<Rightarrow> nat \<Rightarrow> byte list" where
  "det_url_decode src dst_len =
     decode_loop isxdigit (\<lambda>a b. char_of (strtol16 [a, b])) dst_len 0 src"

text \<open>
  The decoding step each detector starts with: decode into a 4096-byte buffer, and decode the result
  again when a \<^verbatim>\<open>%\<close> is left in the C string.
\<close>

definition det_decode :: "byte list \<Rightarrow> byte list" where
  "det_decode payload = (let d = det_url_decode payload 4096 in
     if strchr_found (cstr d) (CHR ''%'') then det_url_decode d 4096 else d)"

subsection \<open>Substring search\<close>

text \<open>\<^verbatim>\<open>k_strstr\<close> and \<^verbatim>\<open>k_stristr\<close>: the inner loop returns the index \<^verbatim>\<open>j\<close> it stopped at.\<close>

definition k_lower :: "char \<Rightarrow> char" where
  "k_lower c = (if ord (CHR ''A'') \<le> ord c \<and> ord c \<le> ord (CHR ''Z'') then char_of (ord c + 32) else c)"

function k_inner :: "(char \<Rightarrow> char) \<Rightarrow> byte list \<Rightarrow> byte list \<Rightarrow> nat \<Rightarrow> nat \<Rightarrow> nat" where
  "k_inner f haystack needle i j =
     (if j < length needle \<and> f (haystack ! (i + j)) = f (needle ! j)
      then k_inner f haystack needle i (j + 1) else j)"
  by pat_completeness auto
termination
  by (relation "measure (\<lambda>(f, haystack, needle, i, j). length needle - j)") auto

declare k_inner.simps [simp del]

function k_outer :: "(char \<Rightarrow> char) \<Rightarrow> byte list \<Rightarrow> byte list \<Rightarrow> nat \<Rightarrow> nat option" where
  "k_outer f haystack needle i =
     (if i \<le> length haystack - length needle
      then if k_inner f haystack needle i 0 = length needle then Some i
           else k_outer f haystack needle (i + 1)
      else None)"
  by pat_completeness auto
termination
  by (relation "measure (\<lambda>(f, haystack, needle, i). Suc (length haystack - length needle) - i)") auto

declare k_outer.simps [simp del]

definition k_strstr :: "byte list \<Rightarrow> byte list \<Rightarrow> nat option" where
  "k_strstr haystack needle =
     (if length needle > length haystack then None else k_outer id haystack needle 0)"

definition k_stristr :: "byte list \<Rightarrow> byte list \<Rightarrow> nat option" where
  "k_stristr haystack needle =
     (if length needle > length haystack then None else k_outer k_lower haystack needle 0)"

text \<open>
  \<^verbatim>\<open>strcase_contains\<close>: the inner loop stops where the haystack string ends, the outer loop moves the
  haystack pointer until it reaches the terminator.
\<close>

fun ci_prefix :: "string \<Rightarrow> string \<Rightarrow> bool" where
  "ci_prefix h [] = True"
| "ci_prefix [] (n # ns) = False"
| "ci_prefix (h # hs) (n # ns) = (tolower h = tolower n \<and> ci_prefix hs ns)"

fun ci_search :: "string \<Rightarrow> string \<Rightarrow> nat option" where
  "ci_search [] needle = None"
| "ci_search (h # hs) needle =
     (if ci_prefix (h # hs) needle then Some 0 else map_option Suc (ci_search hs needle))"

definition strcase_contains :: "string \<Rightarrow> string \<Rightarrow> nat option" where
  "strcase_contains haystack needle = (if needle = [] then Some 0 else ci_search haystack needle)"

definition contains_ci :: "string \<Rightarrow> string \<Rightarrow> bool" where
  "contains_ci haystack needle \<longleftrightarrow> strcase_contains haystack needle \<noteq> None"

text \<open>\<^verbatim>\<open>strcase_equals\<close> of \<^verbatim>\<open>sqli_detect.c\<close>.\<close>

fun strcase_equals :: "string \<Rightarrow> string \<Rightarrow> bool" where
  "strcase_equals (a # as) (b # bs) = (if tolower a \<noteq> tolower b then False else strcase_equals as bs)"
| "strcase_equals as bs = (as = [] \<and> bs = [])"

text \<open>Percent-encoding, the specification the decoder inverts.\<close>

definition hex_digit :: "nat \<Rightarrow> char" where
  "hex_digit n = (if n < 10 then char_of (48 + n) else char_of (87 + n))"

definition percent_encode :: "byte \<Rightarrow> byte list" where
  "percent_encode b = [CHR ''%'', hex_digit (ord b div 16), hex_digit (ord b mod 16)]"

lemma ord_hex_digit: "n < 16 \<Longrightarrow> ord (hex_digit n) = (if n < 10 then 48 + n else 87 + n)"
  by (simp add: hex_digit_def)

lemma isxdigit_hex_digit: "n < 16 \<Longrightarrow> isxdigit (hex_digit n)"
  by (auto simp: isxdigit_def ord_hex_digit)

lemma strtol_digit_hex_digit: "n < 16 \<Longrightarrow> strtol_digit (hex_digit n) = n"
  by (simp add: strtol_digit_def ord_hex_digit)

subsection \<open>What every decoder promises\<close>

locale url_decoder =
  fixes hexp :: "char \<Rightarrow> bool"
    and hex2 :: "char \<Rightarrow> char \<Rightarrow> char"
  assumes hexp_iff: "hexp c \<longleftrightarrow> isxdigit c"
    and hex2_value: "isxdigit a \<Longrightarrow> isxdigit b \<Longrightarrow> ord (hex2 a b) = 16 * strtol_digit a + strtol_digit b"
begin

lemma decode_length:
  "length (decode_loop hexp hex2 dst_len j src) \<le> length src \<and>
   length (decode_loop hexp hex2 dst_len j src) \<le> dst_len - 1 - j"
proof (induction hexp hex2 dst_len j src rule: decode_loop.induct)
  case (2 hexp hex2 dst_len j c cs)
  have "length (snd (decode_step hexp hex2 c cs)) \<le> length cs"
    by (simp add: decode_step_def)
  with 2 show ?case by (cases "j < dst_len - 1") auto
qed simp

lemma decode_plain:
  assumes "CHR ''%'' \<notin> set src" and "CHR ''+'' \<notin> set src"
  shows "decode_loop hexp hex2 dst_len j src = take (dst_len - 1 - j) src"
  using assms
proof (induction src arbitrary: j)
  case (Cons c cs)
  then have step: "decode_step hexp hex2 c cs = (c, cs)"
    by (auto simp: decode_step_def)
  show ?case
  proof (cases "j < dst_len - 1")
    case True
    then have "dst_len - 1 - j = Suc (dst_len - 1 - (j + 1))" by simp
    with True step Cons show ?thesis by simp
  qed simp
qed simp

text \<open>Decoding undoes percent-encoding, as far as the destination buffer reaches.\<close>

lemma decode_encoded:
  "decode_loop hexp hex2 dst_len j (concat (map percent_encode bs)) = take (dst_len - 1 - j) bs"
proof (induction bs arbitrary: j)
  case (Cons b bs)
  have div16: "ord b div 16 < 16" using ord_less [of b] by linarith
  have digs: "isxdigit (hex_digit (ord b div 16))" "isxdigit (hex_digit (ord b mod 16))"
    using div16 by (auto intro!: isxdigit_hex_digit)
  have "ord (hex2 (hex_digit (ord b div 16)) (hex_digit (ord b mod 16))) = ord b"
    using div16 by (subst hex2_value [OF digs]) (simp add: strtol_digit_hex_digit)
  then have "decode_step hexp hex2 (CHR ''%'') (tl (percent_encode b) @ concat (map percent_encode bs))
      = (b, concat (map percent_encode bs))"
    using digs by (simp add: decode_step_def percent_encode_def hexp_iff)
  then have "decode_loop hexp hex2 dst_len j (concat (map percent_encode (b # bs))) =
      (if j < dst_len - 1 then b # decode_loop hexp hex2 dst_len (j + 1) (concat (map percent_encode bs))
       else [])"
    by (simp add: percent_encode_def)
  moreover have "dst_len - 1 - j = Suc (dst_len - 1 - (j + 1))" if "j < dst_len - 1"
    using that by simp
  ultimately show ?case using Cons.IH [of "j + 1"] by simp
qed simp

text \<open>The promise determines the decoder: any two of them write the same bytes.\<close>

lemma decode_canonical:
  "decode_loop hexp hex2 dst_len j src =
   decode_loop isxdigit (\<lambda>a b. char_of (16 * strtol_digit a + strtol_digit b)) dst_len j src"
proof (induction src arbitrary: j rule: length_induct)
  case (1 src)
  have "hex2 a b = char_of (16 * strtol_digit a + strtol_digit b)" if "isxdigit a" "isxdigit b" for a b
    using hex2_value [OF that] by (metis char_of_ord)
  then have step: "decode_step hexp hex2 c cs =
      decode_step isxdigit (\<lambda>a b. char_of (16 * strtol_digit a + strtol_digit b)) c cs" for c cs
    by (simp add: decode_step_def hexp_iff)
  show ?case
  proof (cases src)
    case (Cons c cs)
    have "length (snd (decode_step isxdigit (\<lambda>a b. char_of (16 * strtol_digit a + strtol_digit b)) c cs))
        < length src"
      using Cons by (auto simp: decode_step_def)
    with 1 Cons step show ?thesis by simp
  qed simp
qed

end

lemma hex_val_strtol: "hex_val c = strtol_digit c"
  by (auto simp: hex_val_def strtol_digit_def ord_def)

lemma strtol_digit_less: "strtol_digit c < 16"
  by (auto simp: strtol_digit_def)

lemma hex_or_value: "m < 16 \<Longrightarrow> push_bit 4 n OR m = 16 * n + (m :: nat)"
proof -
  assume "m < 16"
  then have "take_bit 4 m = m" by (simp add: take_bit_nat_eq_self)
  moreover have "push_bit 4 n AND take_bit 4 m = 0"
    by (auto simp: bit_eq_iff bit_simps)
  ultimately have "push_bit 4 n AND m = 0" by simp
  then have "push_bit 4 n OR m = push_bit 4 n + m"
    by (simp add: disjunctive_add_eq_or)
  then show ?thesis by (simp add: push_bit_eq_mult)
qed

interpretation http_dec: url_decoder is_hex_char "\<lambda>a b. char_of (push_bit 4 (hex_val a) OR hex_val b)"
proof
  show "is_hex_char c \<longleftrightarrow> isxdigit c" for c
    by (auto simp: is_hex_char_def isxdigit_def ord_def)
  have "16 * strtol_digit a + strtol_digit b < 256" for a b
    using strtol_digit_less [of a] strtol_digit_less [of b] by linarith
  then show "ord (char_of (push_bit 4 (hex_val a) OR hex_val b)) = 16 * strtol_digit a + strtol_digit b"
    for a b
    by (simp add: hex_val_strtol hex_or_value strtol_digit_less)
qed

interpretation det_dec: url_decoder isxdigit "\<lambda>a b. char_of (strtol16 [a, b])"
proof
  have "16 * strtol_digit a + strtol_digit b < 256" for a b
    using strtol_digit_less [of a] strtol_digit_less [of b] by linarith
  then show "isxdigit a \<Longrightarrow> isxdigit b \<Longrightarrow>
      ord (char_of (strtol16 [a, b])) = 16 * strtol_digit a + strtol_digit b" for a b
    by (simp add: strtol16_def)
qed simp

lemma length_det_url_decode [len_bounds]:
  "length (det_url_decode src dst_len) \<le> length src" "length (det_url_decode src dst_len) \<le> dst_len - 1"
  using det_dec.decode_length [of dst_len 0 src] by (simp_all add: det_url_decode_def)

lemma length_http_url_decode [len_bounds]:
  "length (http_url_decode src dst_len) \<le> length src" "length (http_url_decode src dst_len) \<le> dst_len - 1"
  using http_dec.decode_length [of dst_len 0 src] by (simp_all add: http_url_decode_def)

lemma length_det_decode [len_bounds]: "length (det_decode payload) \<le> 4095"
  using length_det_url_decode(2) [of _ 4096] by (simp add: det_decode_def Let_def)

lemma det_decode_plain:
  assumes "CHR ''%'' \<notin> set payload" and "CHR ''+'' \<notin> set payload" and "length payload \<le> 4095"
  shows "det_decode payload = payload"
proof -
  have "det_url_decode payload 4096 = payload"
    using det_dec.decode_plain [OF assms(1,2), of 4096 0] assms(3) by (simp add: det_url_decode_def)
  moreover have "\<not> strchr_found (cstr payload) (CHR ''%'')"
    using assms(1) by (auto simp: strchr_found_def cstr_def dest: set_takeWhileD)
  ultimately show ?thesis by (simp add: det_decode_def Let_def)
qed

subsection \<open>The searches find the first occurrence\<close>

lemma k_inner_full:
  "j \<le> length needle \<Longrightarrow> k_inner f haystack needle i j = length needle \<longleftrightarrow>
     (\<forall>k. j \<le> k \<and> k < length needle \<longrightarrow> f (haystack ! (i + k)) = f (needle ! k))"
proof (induction f haystack needle i j rule: k_inner.induct)
  case (1 f haystack needle i j)
  show ?case
  proof (cases "j < length needle \<and> f (haystack ! (i + j)) = f (needle ! j)")
    case True
    then have "k_inner f haystack needle i j = k_inner f haystack needle i (j + 1)"
      by (subst k_inner.simps) simp
    moreover have "k_inner f haystack needle i (j + 1) = length needle \<longleftrightarrow>
        (\<forall>k. j + 1 \<le> k \<and> k < length needle \<longrightarrow> f (haystack ! (i + k)) = f (needle ! k))"
      using True by (intro "1.IH") auto
    ultimately show ?thesis
      using True by (metis add_leD1 le_antisym not_less_eq_eq Suc_eq_plus1)
  next
    case False
    with "1.prems" show ?thesis
      by (subst k_inner.simps) (auto simp: le_less)
  qed
qed

lemma prefix_iff_take: "prefix xs ys \<longleftrightarrow> length xs \<le> length ys \<and> take (length xs) ys = xs"
  by (metis append_eq_conv_conj append_take_drop_id prefix_def prefix_length_le)

lemma prefix_map_drop_iff:
  "prefix (map f n) (drop i (map f h)) \<longleftrightarrow>
     length n \<le> length h - i \<and> (\<forall>k<length n. f (h ! (i + k)) = f (n ! k))"
proof -
  have "prefix (map f n) (drop i (map f h)) \<longleftrightarrow>
      length n \<le> length h - i \<and> take (length n) (drop i (map f h)) = map f n"
    by (simp add: prefix_iff_take)
  also have "\<dots> \<longleftrightarrow> length n \<le> length h - i \<and> (\<forall>k<length n. f (h ! (i + k)) = f (n ! k))"
  proof (cases "length n \<le> length h - i")
    case True
    then have "map f h ! (i + k) = f (h ! (i + k))" if "k < length n" for k
      using that by simp
    with True show ?thesis by (auto simp: list_eq_iff_nth_eq)
  qed simp
  finally show ?thesis .
qed

lemma strstr_drop:
  "i \<le> length h \<Longrightarrow> strstr (drop i h) n =
     (if prefix n (drop i h) then Some 0 else if i < length h then map_option Suc (strstr (drop (Suc i) h) n)
      else None)"
  by (cases "i < length h") (auto simp: Cons_nth_drop_Suc [symmetric])

lemma k_outer_strstr:
  assumes "length needle \<le> length haystack" and "needle = [] \<Longrightarrow> i \<le> length haystack"
  shows "k_outer f haystack needle i = map_option ((+) i) (strstr (drop i (map f haystack)) (map f needle))"
  using assms
proof (induction f haystack needle i rule: k_outer.induct)
  case (1 f haystack needle i)
  let ?h = "map f haystack" and ?n = "map f needle"
  show ?case
  proof (cases "i \<le> length haystack - length needle")
    case True
    then have "length needle \<le> length haystack - i" using "1.prems"(1) by simp
    then have pre: "k_inner f haystack needle i 0 = length needle \<longleftrightarrow> prefix ?n (drop i ?h)"
      by (simp add: k_inner_full prefix_map_drop_iff)
    show ?thesis
    proof (cases "k_inner f haystack needle i 0 = length needle")
      case hit: True
      then have "strstr (drop i ?h) ?n = Some 0"
        using pre by (cases "drop i ?h") auto
      then show ?thesis using True hit by (subst k_outer.simps) simp
    next
      case miss: False
      have IH: "k_outer f haystack needle (i + 1) = map_option ((+) (i + 1)) (strstr (drop (i + 1) ?h) ?n)"
        using True miss pre "1.prems" by (intro "1.IH") auto
      have lt: "i < length haystack"
        using True miss pre "1.prems"(1) by (cases needle) auto
      have "strstr (drop i ?h) ?n = map_option Suc (strstr (drop (i + 1) ?h) ?n)"
        using miss pre lt by (subst strstr_drop) auto
      with IH show ?thesis
        using True miss
        by (subst k_outer.simps) (cases "strstr (drop (Suc i) ?h) ?n"; simp)
    qed
  next
    case False
    then have "strstr (drop i ?h) ?n = None"
      using strstr_length [of "drop i ?h" ?n] "1.prems"
      by (cases "strstr (drop i ?h) ?n"; cases "needle = []") auto
    with False show ?thesis by (subst k_outer.simps) simp
  qed
qed

lemma strstr_too_long: "length n > length h \<Longrightarrow> strstr h n = None"
  using strstr_length [of h n] by (cases "strstr h n") auto

lemma k_strstr_strstr: "k_strstr haystack needle = strstr haystack needle"
  using k_outer_strstr [of needle haystack 0 id]
  by (cases "strstr haystack needle") (auto simp: k_strstr_def strstr_too_long)

lemma k_lower_tolower: "k_lower = tolower"
  by (rule ext) (simp add: k_lower_def tolower_def ord_def)

lemma k_stristr_strstr: "k_stristr haystack needle = strstr (map tolower haystack) (map tolower needle)"
  using k_outer_strstr [of needle haystack 0 tolower]
  by (cases "strstr (map tolower haystack) (map tolower needle)")
     (auto simp: k_stristr_def k_lower_tolower strstr_too_long)

lemma ci_prefix_iff: "ci_prefix h n \<longleftrightarrow> prefix (map tolower n) (map tolower h)"
  by (induction h n rule: ci_prefix.induct) auto

lemma strcase_contains_strstr:
  "strcase_contains haystack needle = strstr (map tolower haystack) (map tolower needle)"
proof -
  have "ci_search haystack needle = strstr (map tolower haystack) (map tolower needle)" if "needle \<noteq> []"
    using that by (induction haystack) (auto simp: ci_prefix_iff)
  moreover have "strstr h [] = Some 0" for h by (cases h) auto
  ultimately show ?thesis by (auto simp: strcase_contains_def)
qed

lemma contains_ci_iff: "contains_ci h n \<longleftrightarrow> sublist (map tolower n) (map tolower h)"
  by (simp add: contains_ci_def strcase_contains_strstr strstr_eq_None_iff)

lemma strcase_equals_iff: "strcase_equals a b \<longleftrightarrow> map tolower a = map tolower b"
  by (induction a b rule: strcase_equals.induct) auto

text \<open>Rules that evaluate the searches on literals.\<close>

lemmas scan_eval = cstr_simps contains_ci_def strcase_contains_def Let_def

subsection \<open>Properties\<close>

text \<open>The two URL decoders of the firewall, the one of \<^verbatim>\<open>http_inspect.c\<close> written with
  \<^verbatim>\<open>hex_val\<close> and shifts and the one of the detectors written with \<^verbatim>\<open>isxdigit\<close> and \<^verbatim>\<open>strtol\<close>, write the
  same bytes for every source and every destination size.\<close>

theorem url_decoders_agree: "http_url_decode src dst_len = det_url_decode src dst_len"
  unfolding http_url_decode_def det_url_decode_def
  by (simp only: http_dec.decode_canonical det_dec.decode_canonical)

text \<open>Decoding undoes percent-encoding: the encoding of any bytes that fit the destination with
  its terminator decodes to exactly these bytes.\<close>

theorem url_decode_roundtrip:
  assumes "length bs < dst_len"
  shows "det_url_decode (concat (map percent_encode bs)) dst_len = bs"
  using assms det_dec.decode_encoded [of dst_len 0 bs] by (simp add: det_url_decode_def)

theorem url_decode_roundtrip_witness:
  "length ''../'' < 4096 \<and> det_url_decode (concat (map percent_encode ''../'')) 4096 = ''../''"
  using url_decode_roundtrip [of "''../''" 4096] by simp

text \<open>No decoder overruns its buffers: it writes no more bytes than it read, and it leaves room for the
  terminator in the destination; decoding twice, as the detectors do, keeps within 4095 bytes.\<close>

theorem url_decode_bounds:
  "length (http_url_decode src dst_len) \<le> min (length src) (dst_len - 1) \<and>
   length (det_url_decode src dst_len) \<le> min (length src) (dst_len - 1) \<and>
   length (det_decode src) \<le> min (length src) 4095"
proof -
  have "length (det_decode src) \<le> length src"
    using length_det_url_decode(1) [of src 4096] length_det_url_decode(1) [of "det_url_decode src 4096" 4096]
    by (auto simp: det_decode_def Let_def)
  then show ?thesis
    using length_http_url_decode [of src dst_len] length_det_url_decode [of src dst_len]
      length_det_decode [of src] by simp
qed

text \<open>The hand-written search loops \<^verbatim>\<open>k_strstr\<close> and \<^verbatim>\<open>k_stristr\<close> return the first position at
  which the needle occurs, ignoring the case of ASCII letters in the second, and NULL exactly when it
  does not occur.\<close>

theorem k_search_first_occurrence:
  "k_strstr h n = (if sublist n h then Some (LEAST i. prefix n (drop i h)) else None) \<and>
   k_stristr h n = (if sublist (map tolower n) (map tolower h)
                    then Some (LEAST i. prefix (map tolower n) (drop i (map tolower h))) else None)"
  by (simp add: k_strstr_strstr k_stristr_strstr strstr_LEAST [symmetric])

text \<open>\<^verbatim>\<open>strcase_contains\<close> finds a needle exactly when it occurs in the haystack up to letter case,
  and \<^verbatim>\<open>strcase_equals\<close> is equality up to letter case.\<close>

lemma strcase_search_correct:
  "(strcase_contains h n \<noteq> None) = sublist (map tolower n) (map tolower h) \<and>
   strcase_equals a b = (map tolower a = map tolower b)"
  using contains_ci_iff [of h n] by (simp add: contains_ci_def strcase_equals_iff)

end
