(* ===== verification/Detector.thy ===== *)
theory Detector
  imports Text_Scan
begin

section \<open>What the payload detectors share\<close>

text \<open>
  The detectors \<^verbatim>\<open>detect_sqli\<close>, \<^verbatim>\<open>detect_cmdi\<close>, \<^verbatim>\<open>detect_path_traversal\<close> and \<^verbatim>\<open>detect_bot\<close>
  have one interface: payload and two buffers with their sizes in, a score and the two strings out.
  Each accumulates its score in a run of

  \<^verbatim>\<open>if (flag) { score += n; strncat(matched_pattern, "NAME; ", max_pattern_len - strlen(matched_pattern) - 1); }\<close>

  blocks, which \<open>accumulate\<close> runs from a list of (flag, points, name) in source order. The locale
  \<open>detector\<close> states what the caller, \<^verbatim>\<open>inspect_http_payload\<close>, relies on.
\<close>

record det_result =
  dr_score :: nat
  dr_pattern :: string
  dr_details :: string

text \<open>One block of the accumulation.\<close>

definition score_if :: "nat \<Rightarrow> bool \<times> nat \<times> string \<Rightarrow> nat \<times> string \<Rightarrow> nat \<times> string" where
  "score_if mp chk acc = (case chk of (flag, pts, name) \<Rightarrow>
     (if flag then (fst acc + pts, strncat_buf mp (snd acc) name) else acc))"

definition accumulate :: "nat \<Rightarrow> (bool \<times> nat \<times> string) list \<Rightarrow> nat \<times> string \<Rightarrow> nat \<times> string" where
  "accumulate mp chks acc = fold (score_if mp) chks acc"

lemma accumulate_Nil [simp]: "accumulate mp [] acc = acc"
  by (simp add: accumulate_def)

lemma accumulate_Cons [simp]:
  "accumulate mp ((flag, pts, name) # chks) acc =
     accumulate mp chks (if flag then (fst acc + pts, strncat_buf mp (snd acc) name) else acc)"
  by (simp add: accumulate_def score_if_def)

lemma accumulate_score:
  "fst (accumulate mp chks acc) = fst acc + sum_list (map (\<lambda>(flag, pts, _). if flag then pts else 0) chks)"
  by (induction chks arbitrary: acc) auto

lemma accumulate_score_ge: "fst acc \<le> fst (accumulate mp chks acc)"
  by (simp add: accumulate_score)

lemma accumulate_score_le:
  "fst (accumulate mp chks acc) \<le> fst acc + sum_list (map (\<lambda>(_, pts, _). pts) chks)"
  unfolding accumulate_score by (intro add_left_mono sum_list_mono) auto

lemma accumulate_hit:
  "(True, pts, name) \<in> set chks \<Longrightarrow> fst acc + pts \<le> fst (accumulate mp chks acc)"
proof (induction chks arbitrary: acc)
  case (Cons chk chks)
  obtain flag pts' name' where chk: "chk = (flag, pts', name')" by (cases chk)
  let ?acc = "if flag then (fst acc + pts', strncat_buf mp (snd acc) name') else acc"
  show ?case
  proof (cases "(True, pts, name) \<in> set chks")
    case True
    have "fst acc + pts \<le> fst ?acc + pts" by simp
    also have "\<dots> \<le> fst (accumulate mp chks ?acc)" using True by (rule Cons.IH)
    finally show ?thesis using chk by simp
  next
    case False
    then have "fst ?acc = fst acc + pts" using Cons.prems chk by auto
    then show ?thesis using accumulate_score_ge [of ?acc mp chks] chk by simp
  qed
qed simp

lemma accumulate_length [len_bounds]:
  "length (snd acc) < mp \<Longrightarrow> length (snd (accumulate mp chks acc)) < mp"
  by (induction chks arbitrary: acc) (auto simp: length_strncat_buf)

lemma accumulate_pattern_ge: "length (snd acc) \<le> length (snd (accumulate mp chks acc))"
proof (induction chks arbitrary: acc)
  case (Cons chk chks)
  obtain flag pts name where chk: "chk = (flag, pts, name)" by (cases chk)
  show ?case
    using Cons.IH [of "if flag then (fst acc + pts, strncat_buf mp (snd acc) name) else acc"] chk
      length_strncat_buf_ge [of "snd acc" mp name] by (auto intro: order_trans)
qed simp

text \<open>With room for one character, points and text appear together.\<close>

lemma accumulate_Nil_iff:
  assumes "1 < mp" and "\<forall>(flag, pts, name) \<in> set chks. flag \<longrightarrow> 0 < pts \<and> name \<noteq> []"
    and "fst acc = 0 \<longleftrightarrow> snd acc = []"
  shows "fst (accumulate mp chks acc) = 0 \<longleftrightarrow> snd (accumulate mp chks acc) = []"
  using assms(2,3)
proof (induction chks arbitrary: acc)
  case (Cons chk chks)
  obtain flag pts name where chk: "chk = (flag, pts, name)" by (cases chk)
  let ?acc = "if flag then (fst acc + pts, strncat_buf mp (snd acc) name) else acc"
  have "strncat_buf mp (snd acc) name \<noteq> []" if flag
    using that Cons.prems(1) chk assms(1) by (cases "snd acc") (auto simp: strncat_buf_def)
  then have "fst ?acc = 0 \<longleftrightarrow> snd ?acc = []"
    using Cons.prems chk by auto
  then show ?case using Cons.IH [of ?acc] Cons.prems(1) chk by auto
qed simp

text \<open>
  The contract of a detector: both strings fit their buffers with the terminator, and a score and a
  matched pattern appear together. \<^verbatim>\<open>inspect_http_payload\<close> raises an alert when the score reaches 40.
\<close>

locale detector =
  fixes detect :: "byte list \<Rightarrow> nat \<Rightarrow> nat \<Rightarrow> det_result"
  assumes pattern_fits: "0 < mp \<Longrightarrow> length (dr_pattern (detect payload mp md)) < mp"
    and details_fit: "0 < md \<Longrightarrow> length (dr_details (detect payload mp md)) < md"
    and scored_iff_named: "1 < mp \<Longrightarrow> dr_score (detect payload mp md) = 0 \<longleftrightarrow> dr_pattern (detect payload mp md) = []"
begin

lemma alert_named: "1 < mp \<Longrightarrow> 40 \<le> dr_score (detect payload mp md) \<Longrightarrow> dr_pattern (detect payload mp md) \<noteq> []"
  using scored_iff_named [of mp payload md] by fastforce

text \<open>The strings the caller copies into the 128- and 256-byte event fields arrive unshortened.\<close>

lemma copies_whole:
  "snprintf_buf 128 (dr_pattern (detect payload 128 md)) = dr_pattern (detect payload 128 md)"
  "snprintf_buf 256 (dr_details (detect payload mp 256)) = dr_details (detect payload mp 256)"
  using pattern_fits [of 128 payload md] details_fit [of 256 payload mp]
  by (simp_all add: snprintf_buf_def)

end

end
