(* ===== verification/Sqli_Detect.thy ===== *)
theory Sqli_Detect
  imports Detector
begin

section \<open>SQL injection detector (sqli\_detect.c)\<close>

text \<open>
  \<^verbatim>\<open>detect_sqli\<close>: decode, tokenize into at most 128 tokens of at most 63 characters, set nine flags in
  one pass over the tokens, accumulate the score, fall back on raw substring checks.

  The tokenizer works on the \<^verbatim>\<open>dec_len\<close> decoded bytes, which may contain NUL; a NUL matches the
  terminator in \<^verbatim>\<open>strchr\<close> and so counts as an operator and gives an empty token. The tautology check
  reads \<^verbatim>\<open>tokens[i+5]\<close> under the guard \<^verbatim>\<open>i + 4 < token_count\<close>: at \<^verbatim>\<open>i + 5 == token_count\<close> the slot
  was never written. What the C string there holds is the parameter \<open>junk\<close>.
\<close>

subsection \<open>Tokenizer\<close>

definition MAX_TOKENS :: nat where
  "MAX_TOKENS = 128"

definition sqli_ops :: string where
  "sqli_ops = ''=><!();#'' @ [CHR 0x27] @ '','' @ [CHR 0x22]"

definition starts_dash :: "byte list \<Rightarrow> bool" where
  [cstr_simps]: "starts_dash cs \<longleftrightarrow> (case cs of [] \<Rightarrow> False | c # _ \<Rightarrow> c = CHR ''-'')"

text \<open>The word loop: the characters taken into the token, and the rest.\<close>

fun word_token :: "nat \<Rightarrow> byte list \<Rightarrow> string \<times> byte list" where
  "word_token t_idx [] = ([], [])"
| "word_token t_idx (c # cs) =
     (if \<not> isspace c \<and> \<not> strchr_found (sqli_ops @ ''/*'') c \<and>
         \<not> (c = CHR ''-'' \<and> starts_dash cs) \<and> t_idx < 63
      then (c # fst (word_token (t_idx + 1) cs), snd (word_token (t_idx + 1) cs))
      else ([], c # cs))"

text \<open>One token at a character that is not white space.\<close>

definition next_token :: "char \<Rightarrow> byte list \<Rightarrow> string \<times> byte list" where
  "next_token c cs =
     (if c = CHR ''-'' \<and> starts_dash cs then (''--'', tl cs)
      else if c = CHR ''/'' \<and> cs \<noteq> [] \<and> hd cs = CHR ''*'' then (''/*'', tl cs)
      else if c = CHR ''*'' \<and> cs \<noteq> [] \<and> hd cs = CHR ''/'' then (''*/'', tl cs)
      else if strchr_found sqli_ops c then (cstr [c], cs)
      else word_token 0 (c # cs))"

function tokenize :: "nat \<Rightarrow> byte list \<Rightarrow> string list" where
  "tokenize token_count s =
     (if token_count < MAX_TOKENS
      then (case dropWhile isspace s of
              [] \<Rightarrow> []
            | c # cs \<Rightarrow> fst (next_token c cs) # tokenize (token_count + 1) (snd (next_token c cs)))
      else [])"
  by pat_completeness auto
termination
  by (relation "measure (\<lambda>(token_count, s). MAX_TOKENS - token_count)") auto

declare tokenize.simps [simp del]

subsection \<open>Pattern recognition on tokens\<close>

record sqli_flags =
  union_found :: bool
  select_found :: bool
  admin_bypass :: bool
  tautology :: bool
  comment_found :: bool
  error_func :: bool
  time_func :: bool
  stacked_query :: bool
  write_func :: bool

definition no_flags :: sqli_flags where
  "no_flags = \<lparr>union_found = False, select_found = False, admin_bypass = False, tautology = False,
     comment_found = False, error_func = False, time_func = False, stacked_query = False,
     write_func = False\<rparr>"

definition is_comment :: "string \<Rightarrow> bool" where
  "is_comment t \<longleftrightarrow> t = ''--'' \<or> t = ''#'' \<or> t = ''/*''"

definition one_of :: "string list \<Rightarrow> string \<Rightarrow> bool" where
  "one_of ws t \<longleftrightarrow> (\<exists>w \<in> set ws. strcase_equals t w)"

text \<open>A read of the token array.\<close>

definition tok :: "string \<Rightarrow> string list \<Rightarrow> nat \<Rightarrow> string" where
  "tok junk tokens i = (if i < length tokens then tokens ! i else junk)"

definition quote :: string where
  "quote = [CHR 0x27]"

definition is_admin_bypass :: "string \<Rightarrow> string list \<Rightarrow> nat \<Rightarrow> bool" where
  "is_admin_bypass junk tokens i \<longleftrightarrow>
     strcase_equals (tok junk tokens i) ''admin'' \<and> i + 2 < length tokens \<and>
     tok junk tokens (i + 1) = quote \<and> is_comment (tok junk tokens (i + 2))"

definition is_tautology :: "string \<Rightarrow> string list \<Rightarrow> nat \<Rightarrow> bool" where
  "is_tautology junk tokens i \<longleftrightarrow>
     one_of [''or'', ''and''] (tok junk tokens i) \<and> i + 4 < length tokens \<and>
     (if tok junk tokens (i + 2) = ''='' \<and> tok junk tokens (i + 1) = tok junk tokens (i + 3) then True
      else tok junk tokens (i + 1) = quote \<and> tok junk tokens (i + 3) = quote \<and>
           tok junk tokens (i + 5) = quote \<and> tok junk tokens (i + 2) = tok junk tokens (i + 4))"

definition is_stacked :: "string \<Rightarrow> string list \<Rightarrow> nat \<Rightarrow> bool" where
  "is_stacked junk tokens i \<longleftrightarrow>
     tok junk tokens i = '';'' \<and> i + 1 < length tokens \<and>
     one_of [''drop'', ''delete'', ''insert'', ''update'', ''exec'', ''select''] (tok junk tokens (i + 1))"

text \<open>The body of the loop over the tokens, in the order of the source.\<close>

definition scan_token :: "string \<Rightarrow> string list \<Rightarrow> nat \<Rightarrow> sqli_flags \<Rightarrow> sqli_flags" where
  "scan_token junk tokens i fl =
     (let t = tok junk tokens i;
          union' = (union_found fl \<or> strcase_equals t ''union'')
      in fl\<lparr>union_found := union',
            select_found := select_found fl \<or> (union' \<and> strcase_equals t ''select''),
            comment_found := comment_found fl \<or> is_comment t,
            admin_bypass := admin_bypass fl \<or> is_admin_bypass junk tokens i,
            tautology := tautology fl \<or> is_tautology junk tokens i,
            error_func := error_func fl \<or> one_of [''updatexml'', ''extractvalue'', ''convert'', ''cast''] t,
            time_func := time_func fl \<or> one_of [''sleep'', ''benchmark'', ''pg_sleep''] t,
            stacked_query := stacked_query fl \<or> is_stacked junk tokens i,
            write_func := write_func fl \<or> one_of [''outfile'', ''load_file'', ''dumpfile''] t\<rparr>)"

definition scan_tokens :: "string \<Rightarrow> string list \<Rightarrow> sqli_flags" where
  "scan_tokens junk tokens = fold (scan_token junk tokens) [0..<length tokens] no_flags"

subsection \<open>Score\<close>

definition sqli_checks :: "sqli_flags \<Rightarrow> (bool \<times> nat \<times> string) list" where
  "sqli_checks fl =
     [(union_found fl \<and> select_found fl, 45, ''UNION SELECT; ''),
      (tautology fl, 45, ''TAUTOLOGY (OR 1=1); ''),
      (admin_bypass fl, 45, ''ADMIN BYPASS; ''),
      (stacked_query fl, 40, ''STACKED QUERIES; ''),
      (error_func fl, 25, ''ERROR SQLI FUNC; ''),
      (time_func fl, 35, ''TIME SQLI FUNC; ''),
      (write_func fl, 35, ''FILE WRITE; ''),
      (comment_found fl, 10, ''SQL COMMENT; '')]"

definition sqli_raw_checks :: "string \<Rightarrow> (bool \<times> nat \<times> string) list" where
  "sqli_raw_checks decoded =
     [(contains_ci decoded ''union select'' \<or> contains_ci decoded ''union all select'', 40,
       ''RAW UNION SELECT; ''),
      (contains_ci decoded ''or 1=1'' \<or>
       contains_ci decoded (''or '' @ quote @ ''1'' @ quote @ ''='' @ quote @ ''1'' @ quote), 40,
       ''RAW OR 1=1; '')]"

definition sqli_score :: "string \<Rightarrow> nat \<Rightarrow> byte list \<Rightarrow> nat \<times> string" where
  "sqli_score junk mp decoded =
     (let acc = accumulate mp (sqli_checks (scan_tokens junk (tokenize 0 decoded))) (0, [])
      in if fst acc < 40 then accumulate mp (sqli_raw_checks (cstr decoded)) acc else acc)"

definition detect_sqli :: "string \<Rightarrow> byte list \<Rightarrow> nat \<Rightarrow> nat \<Rightarrow> det_result" where
  "detect_sqli junk payload mp md =
     (let decoded = det_decode payload; acc = sqli_score junk mp decoded
      in \<lparr>dr_score = fst acc, dr_pattern = snd acc,
          dr_details = snprintf_buf md (''SQLi Score: '' @ dec_nat (fst acc) @ ''. Matches: '' @ snd acc @
            ''. Decoded Payload: '' @ cstr decoded)\<rparr>)"

subsection \<open>The tokenizer stays within its arrays\<close>

lemma word_token_length: "length (fst (word_token t_idx s)) \<le> 63 - t_idx"
  by (induction t_idx s rule: word_token.induct) auto

lemma next_token_length: "length (fst (next_token c cs)) \<le> 63"
  using word_token_length [of 0 "c # cs"]
  by (auto simp: next_token_def cstr_def simp del: word_token.simps)

lemma tokenize_full: "MAX_TOKENS \<le> n \<Longrightarrow> tokenize n s = []"
  by (subst tokenize.simps) simp

lemma tokenize_blank: "dropWhile isspace s = [] \<Longrightarrow> tokenize n s = []"
  by (subst tokenize.simps) (simp only: list.case if_cancel)

lemma tokenize_step:
  "n < MAX_TOKENS \<Longrightarrow> dropWhile isspace s = c # cs \<Longrightarrow>
     tokenize n s = fst (next_token c cs) # tokenize (n + 1) (snd (next_token c cs))"
  by (subst tokenize.simps) simp

lemma tokenize_bounds:
  "n \<le> MAX_TOKENS \<Longrightarrow>
     n + length (tokenize n s) \<le> MAX_TOKENS \<and> (\<forall>t \<in> set (tokenize n s). length t \<le> 63)"
proof (induction n s rule: tokenize.induct)
  case (1 n s)
  consider (full) "MAX_TOKENS \<le> n" | (blank) "dropWhile isspace s = []"
    | (step) c cs where "n < MAX_TOKENS" "dropWhile isspace s = c # cs"
    by (cases "dropWhile isspace s") (auto simp: not_less [symmetric])
  then show ?case
  proof cases
    case step
    with 1 show ?thesis using next_token_length [of c cs] by (auto simp: tokenize_step)
  qed (use "1.prems" in \<open>simp_all add: tokenize_full tokenize_blank\<close>)
qed

subsection \<open>What the flags mean\<close>

lemma scan_tokens_mono:
  "fold (scan_token junk tokens) is fl = fl' \<Longrightarrow>
     (union_found fl \<longrightarrow> union_found fl') \<and> (select_found fl \<longrightarrow> select_found fl') \<and>
     (stacked_query fl \<longrightarrow> stacked_query fl')"
  by (induction "is" arbitrary: fl) (auto simp: scan_token_def Let_def)

lemma fold_scan_split:
  "i < length tokens \<Longrightarrow> scan_tokens junk tokens =
     fold (scan_token junk tokens) [Suc i..<length tokens]
       (scan_token junk tokens i (fold (scan_token junk tokens) [0..<i] no_flags))"
proof -
  assume "i < length tokens"
  then have "[0..<length tokens] = [0..<i] @ i # [Suc i..<length tokens]"
    using upt_add_eq_append [of 0 i "length tokens - i"] by (simp add: upt_conv_Cons)
  then show ?thesis by (simp add: scan_tokens_def)
qed

lemma scan_stacked:
  assumes "i < length tokens" and "is_stacked junk tokens i"
  shows "stacked_query (scan_tokens junk tokens)"
proof -
  let ?fl = "scan_token junk tokens i (fold (scan_token junk tokens) [0..<i] no_flags)"
  have "stacked_query ?fl" using assms(2) by (simp add: scan_token_def Let_def)
  then show ?thesis
    using scan_tokens_mono [OF refl, of ?fl] fold_scan_split [OF assms(1)] by simp
qed

lemma scan_union_select:
  assumes "i < j" "j < length tokens" "strcase_equals (tokens ! i) ''union''"
    "strcase_equals (tokens ! j) ''select''"
  shows "union_found (scan_tokens junk tokens) \<and> select_found (scan_tokens junk tokens)"
proof -
  let ?pre = "fold (scan_token junk tokens) [0..<j] no_flags"
  have "[0..<j] = [0..<i] @ i # [Suc i..<j]"
    using assms(1) by (metis append_Nil2 le_add1 less_imp_add_positive plus_nat.add_0 upt_add_eq_append
        upt_conv_Cons add.left_neutral less_imp_le)
  then have "?pre = fold (scan_token junk tokens) [Suc i..<j]
      (scan_token junk tokens i (fold (scan_token junk tokens) [0..<i] no_flags))"
    by simp
  moreover have "union_found (scan_token junk tokens i fl)" for fl
    using assms by (simp add: scan_token_def Let_def tok_def)
  ultimately have u: "union_found ?pre"
    using scan_tokens_mono [OF refl] by metis
  then have "union_found (scan_token junk tokens j ?pre) \<and> select_found (scan_token junk tokens j ?pre)"
    using assms by (simp add: scan_token_def Let_def tok_def)
  then show ?thesis
    using scan_tokens_mono [OF refl, of "scan_token junk tokens j ?pre"] fold_scan_split [OF assms(2)]
    by simp
qed

subsection \<open>The score\<close>

definition token_acc :: "string \<Rightarrow> nat \<Rightarrow> byte list \<Rightarrow> nat \<times> string" where
  "token_acc junk mp decoded =
     accumulate mp (sqli_checks (scan_tokens junk (tokenize 0 decoded))) (0, [])"

lemma sqli_score_alt:
  "sqli_score junk mp decoded =
     (if fst (token_acc junk mp decoded) < 40
      then accumulate mp (sqli_raw_checks (cstr decoded)) (token_acc junk mp decoded)
      else token_acc junk mp decoded)"
  by (simp add: sqli_score_def token_acc_def Let_def)

lemma sqli_score_ge_checks:
  assumes "(True, pts, name) \<in> set (sqli_checks (scan_tokens junk (tokenize 0 decoded)))"
  shows "pts \<le> fst (sqli_score junk mp decoded)"
proof -
  have "pts \<le> fst (token_acc junk mp decoded)"
    using accumulate_hit [OF assms, of "(0, [])" mp] by (simp add: token_acc_def)
  then show ?thesis
    using accumulate_score_ge [of "token_acc junk mp decoded" mp "sqli_raw_checks (cstr decoded)"]
    by (simp add: sqli_score_alt)
qed

lemma sqli_score_ge_raw:
  assumes "(True, 40, name) \<in> set (sqli_raw_checks (cstr decoded))"
  shows "40 \<le> fst (sqli_score junk mp decoded)"
  using accumulate_hit [OF assms, of "token_acc junk mp decoded" mp] by (simp add: sqli_score_alt)

lemma sqli_score_le: "fst (sqli_score junk mp decoded) \<le> 280"
proof -
  have "fst (token_acc junk mp decoded) \<le> 280"
    using accumulate_score_le [of mp "sqli_checks (scan_tokens junk (tokenize 0 decoded))" "(0, [])"]
    by (simp add: sqli_checks_def token_acc_def)
  moreover have "fst (accumulate mp (sqli_raw_checks (cstr decoded)) (token_acc junk mp decoded))
      \<le> fst (token_acc junk mp decoded) + 80"
    using accumulate_score_le [of mp "sqli_raw_checks (cstr decoded)" "token_acc junk mp decoded"]
    by (simp add: sqli_raw_checks_def)
  ultimately show ?thesis by (simp add: sqli_score_alt)
qed

interpretation sqli: detector "detect_sqli junk" for junk
proof
  fix mp md :: nat and payload :: "byte list"
  show "0 < mp \<Longrightarrow> length (dr_pattern (detect_sqli junk payload mp md)) < mp"
    by (simp add: detect_sqli_def sqli_score_def Let_def accumulate_length)
  show "0 < md \<Longrightarrow> length (dr_details (detect_sqli junk payload mp md)) < md"
    by (simp add: detect_sqli_def Let_def length_snprintf_buf)
  assume "1 < mp"
  then show "dr_score (detect_sqli junk payload mp md) = 0 \<longleftrightarrow>
      dr_pattern (detect_sqli junk payload mp md) = []"
    unfolding detect_sqli_def sqli_score_def Let_def
    by (auto simp: accumulate_Nil_iff sqli_checks_def sqli_raw_checks_def
             simp del: accumulate_Cons split: if_splits)
qed

subsection \<open>The tokenizer at a slash\<close>

lemma next_token_slash:
  assumes "rest = [] \<or> hd rest \<noteq> CHR ''*''"
  shows "next_token (CHR ''/'') rest = ([], CHR ''/'' # rest)"
  using assms by (auto simp: next_token_def sqli_ops_def strchr_found_def)

lemma tokenize_slash:
  assumes "rest = [] \<or> hd rest \<noteq> CHR ''*''"
  shows "tokenize n (CHR ''/'' # rest) = replicate (MAX_TOKENS - n) []"
proof (induction "MAX_TOKENS - n" arbitrary: n)
  case 0
  then show ?case by (simp add: tokenize_full)
next
  case (Suc k)
  then have "n < MAX_TOKENS" by simp
  moreover have "dropWhile isspace (CHR ''/'' # rest) = CHR ''/'' # rest"
    by (simp add: isspace_def ord_def)
  moreover have "tokenize (n + 1) (CHR ''/'' # rest) = replicate (MAX_TOKENS - (n + 1)) []"
    using Suc by simp
  moreover have "MAX_TOKENS - n = Suc (MAX_TOKENS - (n + 1))"
    using \<open>n < MAX_TOKENS\<close> by simp
  ultimately show ?case using assms by (simp add: tokenize_step next_token_slash)
qed

lemma tokenize_get:
  assumes "rest = [] \<or> hd rest \<noteq> CHR ''*''"
  shows "tokenize 0 (''GET /'' @ rest) = ''GET'' # replicate 127 []"
proof -
  have "dropWhile isspace (''GET /'' @ rest) = ''GET /'' @ rest"
    by (simp add: isspace_def ord_def)
  moreover have "next_token (CHR ''G'') (''ET /'' @ rest) = (''GET'', '' /'' @ rest)"
    by (simp add: next_token_def cstr_simps sqli_ops_def)
  ultimately have "tokenize 0 (''GET /'' @ rest) = ''GET'' # tokenize 1 ('' /'' @ rest)"
    by (subst tokenize.simps) (simp add: MAX_TOKENS_def)
  moreover have "tokenize 1 ('' /'' @ rest) = tokenize 1 (''/'' @ rest)"
    by (subst (1 2) tokenize.simps) (simp add: isspace_def ord_def)
  ultimately show ?thesis
    using tokenize_slash [OF assms, of 1] by (simp add: MAX_TOKENS_def)
qed

lemma scan_tokens_quiet:
  assumes "\<And>i. i < length tokens \<Longrightarrow> scan_token junk tokens i no_flags = no_flags"
  shows "scan_tokens junk tokens = no_flags"
proof -
  have "n \<le> length tokens \<Longrightarrow> fold (scan_token junk tokens) [0..<n] no_flags = no_flags" for n
    by (induction n) (simp_all add: assms)
  then show ?thesis by (simp add: scan_tokens_def)
qed

lemma scan_tokens_get: "scan_tokens junk (''GET'' # replicate 127 []) = no_flags"
proof (rule scan_tokens_quiet)
  let ?ts = "''GET'' # replicate 127 []"
  fix i assume "i < length ?ts"
  then have t: "tok junk ?ts i \<in> {''GET'', []}"
    by (auto simp: tok_def nth_Cons')
  show "scan_token junk ?ts i no_flags = no_flags"
    using t
    by (auto simp: scan_token_def Let_def no_flags_def is_comment_def one_of_def is_admin_bypass_def
        is_tautology_def is_stacked_def tolower_Char strcase_equals.simps)
qed

subsection \<open>Properties\<close>

text \<open>The tokenizer stays within \<^verbatim>\<open>tokens[128][64]\<close>: it stops on every input with at most 128 tokens,
  each of at most 63 characters and the terminator.\<close>

lemma sqli_tokens_fit:
  "length (tokenize 0 decoded) \<le> MAX_TOKENS \<and> set (tokenize 0 decoded) \<subseteq> {t. length t < 64}"
  using tokenize_bounds [of 0 decoded] by fastforce

text \<open>A payload whose decoded text contains \<^verbatim>\<open>union select\<close>, \<^verbatim>\<open>union all select\<close> or \<^verbatim>\<open>or 1=1\<close>, in any
  letter case, reaches the alert threshold of 40 whatever else it contains.\<close>

theorem sqli_raw_attack_flagged:
  assumes "contains_ci (cstr (det_decode payload)) w"
    and "w \<in> {''union select'', ''union all select'', ''or 1=1''}"
  shows "40 \<le> dr_score (detect_sqli junk payload mp md)"
proof -
  have "\<exists>name. (True, 40, name) \<in> set (sqli_raw_checks (cstr (det_decode payload)))"
    using assms by (auto simp: sqli_raw_checks_def)
  then show ?thesis
    using sqli_score_ge_raw by (auto simp: detect_sqli_def Let_def)
qed

theorem sqli_raw_attack_flagged_witness:
  "contains_ci (cstr (det_decode ''1 UNION select'')) ''union select'' \<and>
   40 \<le> dr_score (detect_sqli [] ''1 UNION select'' 128 256)"
proof -
  have "det_decode ''1 UNION select'' = ''1 UNION select''" by (rule det_decode_plain) simp_all
  then have "contains_ci (cstr (det_decode ''1 UNION select'')) ''union select''"
    by (simp add: scan_eval)
  with sqli_raw_attack_flagged [OF this] show ?thesis by simp
qed

text \<open>If the tokens of the decoded payload hold a \<^verbatim>\<open>union\<close> and after it a \<^verbatim>\<open>select\<close>, however far apart,
  the payload scores at least 45.\<close>

theorem sqli_union_select_flagged:
  assumes "i < j" and "j < length (tokenize 0 (det_decode payload))"
    and "strcase_equals (tokenize 0 (det_decode payload) ! i) ''union''"
    and "strcase_equals (tokenize 0 (det_decode payload) ! j) ''select''"
  shows "45 \<le> dr_score (detect_sqli junk payload mp md)"
  using scan_union_select [OF assms]
    sqli_score_ge_checks [of 45 "''UNION SELECT; ''" junk "det_decode payload" mp]
  by (simp add: sqli_checks_def detect_sqli_def Let_def)

theorem sqli_union_select_flagged_witness:
  "tokenize 0 (det_decode ''union(x)Select'') = [''union'', ''('', ''x'', '')'', ''Select''] \<and>
   45 \<le> dr_score (detect_sqli [] ''union(x)Select'' 128 256)"
proof -
  have "det_decode ''union(x)Select'' = ''union(x)Select''" by (rule det_decode_plain) simp_all
  then have toks: "tokenize 0 (det_decode ''union(x)Select'') = [''union'', ''('', ''x'', '')'', ''Select'']"
    by (simp add: scan_eval tokenize.simps MAX_TOKENS_def next_token_def sqli_ops_def)
  then show ?thesis
    using sqli_union_select_flagged [of 0 4 "''union(x)Select''" "[]" 128 256]
    by (simp add: tolower_Char Let_def)
qed

text \<open>A statement separator followed directly by \<^verbatim>\<open>drop\<close>, \<^verbatim>\<open>delete\<close>, \<^verbatim>\<open>insert\<close>, \<^verbatim>\<open>update\<close>, \<^verbatim>\<open>exec\<close> or
  \<^verbatim>\<open>select\<close> among the tokens reaches the alert threshold.\<close>

lemma sqli_stacked_query_flagged:
  assumes "i + 1 < length (tokenize 0 (det_decode payload))"
    and "tokenize 0 (det_decode payload) ! i = '';''"
    and "one_of [''drop'', ''delete'', ''insert'', ''update'', ''exec'', ''select'']
           (tokenize 0 (det_decode payload) ! (i + 1))"
  shows "40 \<le> dr_score (detect_sqli junk payload mp md)"
proof -
  have "stacked_query (scan_tokens junk (tokenize 0 (det_decode payload)))"
    using assms by (intro scan_stacked [of i]) (simp_all add: is_stacked_def tok_def)
  then show ?thesis
    using sqli_score_ge_checks [of 40 "''STACKED QUERIES; ''" junk "det_decode payload" mp]
    by (simp add: sqli_checks_def detect_sqli_def Let_def)
qed

text \<open>The score lies between 0 and 280 and both strings fit their buffers with the terminator; an
  alerting score always comes with a named pattern.\<close>

theorem sqli_result_bounds:
  "dr_score (detect_sqli junk payload mp md) \<le> 280 \<and>
   length (dr_pattern (detect_sqli junk payload 128 md)) < 128 \<and>
   length (dr_details (detect_sqli junk payload mp 256)) < 256 \<and>
   (dr_score (detect_sqli junk payload 128 md) = 0) = (dr_pattern (detect_sqli junk payload 128 md) = [])"
  using sqli_score_le [of junk mp "det_decode payload"] sqli.pattern_fits [of 128 junk payload md]
    sqli.details_fit [of 256 junk payload mp] sqli.scored_iff_named [of 128 junk payload md]
  by (simp add: detect_sqli_def Let_def)

text \<open>The tokenizer does not move past a slash that opens no comment: it fills the token array
  with empty tokens. For a decoded request line \<^verbatim>\<open>GET /...\<close> the token rules therefore never contribute,
  whatever follows the slash, and the score comes from the raw substring checks alone.\<close>

theorem sqli_tokens_blind_after_slash:
  assumes "rest = [] \<or> hd rest \<noteq> CHR ''*''"
  shows "tokenize 0 (''GET /'' @ rest) = ''GET'' # replicate 127 [] \<and>
         sqli_score junk mp (''GET /'' @ rest) =
           accumulate mp (sqli_raw_checks (cstr (''GET /'' @ rest))) (0, [])"
  using tokenize_get [OF assms]
  by (simp add: sqli_score_def Let_def scan_tokens_get sqli_checks_def no_flags_def)

theorem sqli_tokens_blind_after_slash_witness:
  "sqli_score [] 128 (''GET /?q=1;drop table t'') = (0, [])"
  using sqli_tokens_blind_after_slash [of "''?q=1;drop table t''" "[]" 128]
  by (simp add: sqli_raw_checks_def scan_eval quote_def)

text \<open>The rule meant for \<^verbatim>\<open>OR 'a'='a'\<close> compares the third token with the fifth, the equals sign: the
  quoted tautology is never recognised by the token rules. Where exactly five tokens follow, the rule
  reads a token slot that was never written, and its outcome is decided by what that slot holds.\<close>

theorem sqli_quoted_tautology_missed:
  assumes "a \<noteq> ''=''"
  shows "\<not> is_tautology junk [''or'', quote, a, quote, ''='', quote, a, quote] 0 \<and>
         is_tautology junk [''or'', quote, a, quote, a] 0 = (junk = quote)"
  using assms by (auto simp: is_tautology_def tok_def one_of_def quote_def)

theorem sqli_quoted_tautology_missed_witness:
  "\<not> is_tautology [] [''or'', quote, ''x'', quote, ''='', quote, ''x'', quote] 0 \<and>
   is_tautology quote [''or'', quote, ''x'', quote, ''x''] 0"
  using sqli_quoted_tautology_missed [of "''x''" "[]"] sqli_quoted_tautology_missed [of "''x''" quote]
  by simp

end
