(* ===== verification/Cmdi_Detect.thy ===== *)
theory Cmdi_Detect
  imports Detector
begin

section \<open>Command injection detector (cmdi\_detect.c)\<close>

text \<open>
  \<^verbatim>\<open>detect_cmdi\<close>: decode, look for shell metacharacters, for 32 command names, for sensitive paths
  and for interactive shells, and add up the score. The list of matched commands that goes into the
  details buffer is built in \<^verbatim>\<open>matched_cmds[256]\<close> with \<^verbatim>\<open>strcat\<close> under a length guard.
\<close>

subsection \<open>Model\<close>

definition has_meta :: "string \<Rightarrow> bool" where
  "has_meta decoded \<longleftrightarrow>
     strchr_found decoded (CHR '';'') \<or> strchr_found decoded (CHR ''|'') \<or> strstr_found decoded ''&&'' \<or>
     strchr_found decoded (CHR 0x60) \<or> strstr_found decoded ''$('' \<or>
     (strchr_found decoded (CHR ''>'') \<or> strchr_found decoded (CHR ''<''))"

definition cmdi_commands :: "string list" where
  "cmdi_commands =
     [''whoami'', ''uname'', ''id'', ''hostname'', ''netstat'', ''ifconfig'', ''ip addr'',
      ''wget'', ''curl'', ''nc '', ''ncat'', ''netcat'', ''ping'', ''tftp'', ''ftp '',
      ''bash'', ''sh '', ''ash'', ''csh'', ''zsh'', ''python'', ''perl'', ''ruby'', ''php -r'',
      ''cat /'', ''grep '', ''find '', ''chmod '', ''chown '', ''rm -rf'', ''touch '', ''mkdir '']"

text \<open>One round of the loop over the command table, on the count and the \<^verbatim>\<open>matched_cmds\<close> buffer.\<close>

definition match_command :: "string \<Rightarrow> string \<Rightarrow> nat \<times> string \<Rightarrow> nat \<times> string" where
  "match_command decoded cmd acc =
     (if contains_ci decoded cmd
      then (fst acc + 1, if length (snd acc) < 256 - 32 then snd acc @ cmd @ '', '' else snd acc)
      else acc)"

definition match_commands :: "string \<Rightarrow> nat \<times> string" where
  "match_commands decoded = fold (match_command decoded) cmdi_commands (0, [])"

definition cmdi_checks :: "string \<Rightarrow> (bool \<times> nat \<times> string) list" where
  "cmdi_checks decoded =
     (let n = fst (match_commands decoded) in
      [(has_meta decoded, 15, ''META_CHAR; ''),
       (0 < n, n * 20, ''SHELL_CMD; ''),
       (contains_ci decoded ''/etc/passwd'' \<or> contains_ci decoded ''/etc/shadow'', 35, ''ETC_FILES; ''),
       (contains_ci decoded ''/bin/sh'' \<or> contains_ci decoded ''/bin/bash'', 30, ''BIN_PATHS; ''),
       (contains_ci decoded ''/dev/tcp/'', 40, ''DEV_TCP; ''),
       (has_meta decoded \<and> 0 < n, 25, ''META+CMD; ''),
       (contains_ci decoded ''bash -i'' \<or> contains_ci decoded ''sh -i'', 50, ''REV_SHELL; '')])"

definition detect_cmdi :: "byte list \<Rightarrow> nat \<Rightarrow> nat \<Rightarrow> det_result" where
  "detect_cmdi payload mp md =
     (let decoded = cstr (det_decode payload); acc = accumulate mp (cmdi_checks decoded) (0, [])
      in \<lparr>dr_score = fst acc, dr_pattern = snd acc,
          dr_details = snprintf_buf md (''CMDi Score: '' @ dec_nat (fst acc) @ ''. Matches: '' @ snd acc @
            ''. Commands: '' @ snd (match_commands decoded) @ ''. Decoded: '' @ decoded)\<rparr>)"

subsection \<open>Lemmas\<close>

lemma match_command_fst:
  "fst (match_command d c acc) = fst acc + (if contains_ci d c then 1 else 0)"
  by (simp add: match_command_def)

lemma fold_match_fst:
  "fst (fold (match_command d) cs acc) = fst acc + length (filter (contains_ci d) cs)"
  by (induction cs arbitrary: acc) (auto simp: match_command_fst)

lemma match_commands_count: "fst (match_commands d) = length (filter (contains_ci d) cmdi_commands)"
  by (simp add: match_commands_def fold_match_fst)

lemma match_commands_le: "fst (match_commands d) \<le> 32"
  using length_filter_le [of "contains_ci d" cmdi_commands]
  by (simp add: match_commands_count cmdi_commands_def)

text \<open>Every command name is short, so the guard keeps the \<^verbatim>\<open>strcat\<close> calls inside the buffer.\<close>

lemma fold_match_snd:
  assumes "\<forall>c \<in> set cs. length c \<le> 8" and "length (snd acc) \<le> 233"
  shows "length (snd (fold (match_command d) cs acc)) \<le> 233"
  using assms by (induction cs arbitrary: acc) (auto simp: match_command_def)

lemma cmdi_score_le: "fst (accumulate mp (cmdi_checks d) (0, [])) \<le> 835"
proof -
  have "fst (accumulate mp (cmdi_checks d) (0, [])) \<le> 195 + fst (match_commands d) * 20"
    using accumulate_score_le [of mp "cmdi_checks d" "(0, [])"] by (simp add: cmdi_checks_def Let_def)
  then show ?thesis using match_commands_le [of d] by linarith
qed

interpretation cmdi: detector detect_cmdi
proof
  fix mp md :: nat and payload :: "byte list"
  show "0 < mp \<Longrightarrow> length (dr_pattern (detect_cmdi payload mp md)) < mp"
    by (simp add: detect_cmdi_def Let_def accumulate_length)
  show "0 < md \<Longrightarrow> length (dr_details (detect_cmdi payload mp md)) < md"
    by (simp add: detect_cmdi_def Let_def length_snprintf_buf)
  assume "1 < mp"
  then show "dr_score (detect_cmdi payload mp md) = 0 \<longleftrightarrow> dr_pattern (detect_cmdi payload mp md) = []"
    unfolding detect_cmdi_def Let_def
    by (auto simp: accumulate_Nil_iff cmdi_checks_def Let_def simp del: accumulate_Cons)
qed

lemma cmdi_hit:
  assumes "(True, pts, name) \<in> set (cmdi_checks (cstr (det_decode payload)))"
  shows "pts \<le> dr_score (detect_cmdi payload mp md)"
  using accumulate_hit [OF assms, of "(0, [])" mp] by (simp add: detect_cmdi_def Let_def)

lemma cmdi_command_count:
  assumes "c \<in> set cmdi_commands" and "contains_ci d c"
  shows "0 < fst (match_commands d)"
  using assms by (auto simp: match_commands_count filter_empty_conv)

subsection \<open>Properties\<close>

text \<open>A shell metacharacter together with any command of the table reaches the alert threshold: the
  score is at least 15 + 20 + 25 = 60.\<close>

theorem cmdi_meta_with_command_flagged:
  assumes "has_meta (cstr (det_decode payload))"
    and "c \<in> set cmdi_commands" and "contains_ci (cstr (det_decode payload)) c"
  shows "60 \<le> dr_score (detect_cmdi payload mp md)"
  using assms(1) cmdi_command_count [OF assms(2,3)]
  by (simp add: detect_cmdi_def Let_def cmdi_checks_def accumulate_score)

theorem cmdi_meta_with_command_flagged_witness:
  "has_meta (cstr (det_decode ''c=;whoami'')) \<and> 60 \<le> dr_score (detect_cmdi ''c=;whoami'' 128 256)"
proof -
  have "det_decode ''c=;whoami'' = ''c=;whoami''" by (rule det_decode_plain) simp_all
  then have dec: "cstr (det_decode ''c=;whoami'') = ''c=;whoami''" by (simp add: cstr_def)
  have "has_meta ''c=;whoami''" and "contains_ci ''c=;whoami'' ''whoami''"
    by (simp_all add: has_meta_def scan_eval)
  then show ?thesis
    using cmdi_meta_with_command_flagged [of "''c=;whoami''" "''whoami''" 128 256]
    by (simp add: dec cmdi_commands_def)
qed

text \<open>A decoded payload that contains \<^verbatim>\<open>/dev/tcp/\<close>, \<^verbatim>\<open>bash -i\<close> or \<^verbatim>\<open>sh -i\<close>, in any letter case, reaches the
  alert threshold on its own.\<close>

lemma cmdi_reverse_shell_flagged:
  assumes "contains_ci (cstr (det_decode payload)) w" and "w \<in> {''/dev/tcp/'', ''bash -i'', ''sh -i''}"
  shows "40 \<le> dr_score (detect_cmdi payload mp md)"
proof -
  have "(True, 40, ''DEV_TCP; '') \<in> set (cmdi_checks (cstr (det_decode payload))) \<or>
      (True, 50, ''REV_SHELL; '') \<in> set (cmdi_checks (cstr (det_decode payload)))"
    using assms by (auto simp: cmdi_checks_def Let_def)
  then show ?thesis
    using cmdi_hit [of 40 _ payload mp md] cmdi_hit [of 50 _ payload mp md] by fastforce
qed

text \<open>The buffers hold: the list of matched commands stays within \<^verbatim>\<open>matched_cmds[256]\<close>, pattern and
  details within the caller's buffers, and the score within 835.\<close>

lemma cmdi_result_bounds:
  "length (snd (match_commands d)) < 256 \<and>
   length (dr_pattern (detect_cmdi payload 128 md)) < 128 \<and>
   length (dr_details (detect_cmdi payload mp 256)) < 256 \<and>
   dr_score (detect_cmdi payload mp md) \<le> 835"
proof -
  have "length (snd (match_commands d)) \<le> 233"
    unfolding match_commands_def by (rule fold_match_snd) (simp_all add: cmdi_commands_def)
  moreover have "dr_score (detect_cmdi payload mp md) \<le> 835"
    by (simp add: detect_cmdi_def Let_def cmdi_score_le)
  ultimately show ?thesis
    using cmdi.pattern_fits [of 128 payload md] cmdi.details_fit [of 256 payload mp] by simp
qed

end
