(* ===== verification/Path_Detect.thy ===== *)
theory Path_Detect
  imports Detector
begin

section \<open>Path traversal, LFI and RFI detector (path\_detect.c)\<close>

text \<open>
  \<^verbatim>\<open>detect_path_traversal\<close>: decode, count the traversal sequences \<^verbatim>\<open>../\<close>, \<^verbatim>\<open>..\\<close> and \<^verbatim>\<open>..;\<close>,
  look for sensitive files, PHP wrappers and remote URLs at the start of a value, and for NUL bytes in
  the payload as received. The payload buffer is the \<^verbatim>\<open>payload_len\<close> bytes followed by the NUL that
  \<^verbatim>\<open>inspect_http_payload\<close> puts there.
\<close>

subsection \<open>Model\<close>

text \<open>The counting loop \<^verbatim>\<open>while ((ptr = strstr(ptr, seq)) != NULL) { count++; ptr += 3; }\<close>.\<close>

function count_seq :: "char \<Rightarrow> char \<Rightarrow> char \<Rightarrow> string \<Rightarrow> nat" where
  "count_seq a b c s = (case strstr s [a, b, c] of None \<Rightarrow> 0 | Some i \<Rightarrow> 1 + count_seq a b c (drop (i + 3) s))"
  by pat_completeness auto
termination
proof (relation "measure (\<lambda>(a, b, c, s). length s)")
  fix a b c s i assume "strstr s [a, b, c] = Some i"
  then show "((a, b, c, drop (i + 3) s), (a, b, c, s)) \<in> measure (\<lambda>(a, b, c, s). length s)"
    using strstr_length [of s "[a, b, c]" i] by simp
qed simp

declare count_seq.simps [simp del]

definition traversal_count :: "string \<Rightarrow> nat" where
  "traversal_count decoded =
     count_seq (CHR ''.'') (CHR ''.'') (CHR ''/'') decoded +
     count_seq (CHR ''.'') (CHR ''.'') (CHR 0x5C) decoded +
     count_seq (CHR ''.'') (CHR ''.'') (CHR '';'') decoded"

definition lfi_targets :: "string list" where
  "lfi_targets =
     [''/etc/passwd'', ''/etc/shadow'', ''/etc/hosts'', ''/etc/group'', ''/etc/issue'',
      ''/proc/self/'', ''/proc/version'', ''/proc/cmdline'',
      ''/var/log/apache'', ''/var/log/nginx'', ''/var/log/httpd'', ''/var/log/auth.log'',
      ''boot.ini'', ''win.ini'', ''system.ini'', ''web.config'']"

definition php_wrappers :: "string list" where
  "php_wrappers =
     [''php://filter'', ''php://input'', ''php://output'', ''php://temp'',
      ''data://text'', ''data:text/html'', ''zip://'', ''phar://'', ''expect://'']"

text \<open>The loops over the two tables stop at the first match.\<close>

definition lfi_match :: "string \<Rightarrow> bool" where
  "lfi_match decoded \<longleftrightarrow> find (contains_ci decoded) lfi_targets \<noteq> None"

definition wrapper_match :: "string \<Rightarrow> bool" where
  "wrapper_match decoded \<longleftrightarrow> find (contains_ci decoded) php_wrappers \<noteq> None"

text \<open>
  The first \<^verbatim>\<open>http://\<close>, or else the first \<^verbatim>\<open>https://\<close>, or else the first \<^verbatim>\<open>ftp://\<close>; it counts when it
  stands at the start of the text or right after an equals sign.
\<close>

definition http_idx :: "string \<Rightarrow> nat option" where
  "http_idx decoded =
     (case strstr decoded ''http://'' of Some i \<Rightarrow> Some i
      | None \<Rightarrow> (case strstr decoded ''https://'' of Some i \<Rightarrow> Some i
                | None \<Rightarrow> strstr decoded ''ftp://''))"

definition rfi_match :: "string \<Rightarrow> bool" where
  "rfi_match decoded \<longleftrightarrow>
     (case http_idx decoded of None \<Rightarrow> False | Some i \<Rightarrow> i = 0 \<or> (0 < i \<and> decoded ! (i - 1) = CHR ''=''))"

definition null_byte :: "byte list \<Rightarrow> bool" where
  "null_byte payload \<longleftrightarrow> strstr_found (cstr payload) ''%00'' \<or> NUL \<in> set payload"

definition path_checks :: "byte list \<Rightarrow> string \<Rightarrow> (bool \<times> nat \<times> string) list" where
  "path_checks payload decoded =
     [(0 < traversal_count decoded, traversal_count decoded * 15, ''TRAVERSAL; ''),
      (lfi_match decoded, 35, ''LFI_TARGET; ''),
      (wrapper_match decoded, 45, ''PHP_WRAPPER; ''),
      (rfi_match decoded, 45, ''RFI_HTTP; ''),
      (null_byte payload, 15, ''NULL_BYTE; '')]"

definition detect_path_traversal :: "byte list \<Rightarrow> nat \<Rightarrow> nat \<Rightarrow> det_result" where
  "detect_path_traversal payload mp md =
     (let decoded = cstr (det_decode payload); acc = accumulate mp (path_checks payload decoded) (0, [])
      in \<lparr>dr_score = fst acc, dr_pattern = snd acc,
          dr_details = snprintf_buf md (''Path/LFI/RFI Score: '' @ dec_nat (fst acc) @ ''. Matches: '' @
            snd acc @ ''. Decoded: '' @ decoded)\<rparr>)"

subsection \<open>The counting loop counts every occurrence\<close>

definition occurrences :: "string \<Rightarrow> string \<Rightarrow> nat set" where
  "occurrences n s = {i. prefix n (drop i s)}"

lemma occurrences_bound: "n \<noteq> [] \<Longrightarrow> occurrences n s \<subseteq> {..<length s}"
  by (auto simp: occurrences_def prefix_def) (metis append_is_Nil_conv drop_eq_Nil linorder_not_le)

lemma prefix3_drop:
  "prefix [a, b, c] (drop i s) \<longleftrightarrow> i + 2 < length s \<and> s ! i = a \<and> s ! (i + 1) = b \<and> s ! (i + 2) = c"
proof (cases "i + 2 < length s")
  case True
  then have "drop i s = s ! i # s ! (i + 1) # s ! (i + 2) # drop (i + 3) s"
    by (simp add: Cons_nth_drop_Suc eval_nat_numeral)
  with True show ?thesis by auto
next
  case False
  then show ?thesis using prefix_length_le [of "[a, b, c]" "drop i s"] by auto
qed

lemma occurrences_step:
  assumes "strstr s [a, b, c] = Some i" and "c \<noteq> a" "c \<noteq> b"
  shows "occurrences [a, b, c] s = insert i ((\<lambda>j. i + 3 + j) ` occurrences [a, b, c] (drop (i + 3) s))"
proof -
  note first = strstr_SomeD [OF assms(1)]
  have at_i: "s ! i = a" "s ! (i + 1) = b" "s ! (i + 2) = c"
    using first(2) by (simp_all add: prefix3_drop)
  have "k = i \<or> i + 3 \<le> k" if "k \<in> occurrences [a, b, c] s" for k
  proof -
    have "\<not> k < i" using first(3) that by (auto simp: occurrences_def)
    moreover have "k \<noteq> i + 1"
      using that at_i assms(3) by (auto simp: occurrences_def prefix3_drop)
    moreover have "k \<noteq> i + 2"
      using that at_i assms(2) by (auto simp: occurrences_def prefix3_drop)
    ultimately show ?thesis by linarith
  qed
  moreover have "k - (i + 3) \<in> occurrences [a, b, c] (drop (i + 3) s)"
    if "k \<in> occurrences [a, b, c] s" "i + 3 \<le> k" for k
    using that by (simp add: occurrences_def)
  ultimately have "k \<in> insert i ((\<lambda>j. i + 3 + j) ` occurrences [a, b, c] (drop (i + 3) s))"
    if "k \<in> occurrences [a, b, c] s" for k
    using that by (metis image_eqI insertCI le_add_diff_inverse)
  moreover have "insert i ((\<lambda>j. i + 3 + j) ` occurrences [a, b, c] (drop (i + 3) s))
      \<subseteq> occurrences [a, b, c] s"
    using first(2) by (auto simp: occurrences_def add.commute add.left_commute)
  ultimately show ?thesis by blast
qed

lemma count_seq_card:
  assumes "c \<noteq> a" "c \<noteq> b"
  shows "count_seq a b c s = card (occurrences [a, b, c] s)"
  using assms
proof (induction a b c s rule: count_seq.induct)
  case (1 a b c s)
  show ?case
  proof (cases "strstr s [a, b, c]")
    case None
    then have "occurrences [a, b, c] s = {}"
      by (auto simp: occurrences_def strstr_eq_None_iff sublist_def prefix_def)
         (metis append_take_drop_id)
    with None show ?thesis by (subst count_seq.simps) simp
  next
    case (Some i)
    let ?t = "occurrences [a, b, c] (drop (i + 3) s)"
    have "finite ?t"
      using occurrences_bound [of "[a, b, c]"] finite_subset by blast
    then have "card (insert i ((\<lambda>j. i + 3 + j) ` ?t)) = Suc (card ?t)"
      by (subst card_insert_disjoint) (auto simp: card_image inj_on_def)
    then show ?thesis
      using 1 Some occurrences_step [OF Some] by (subst count_seq.simps) simp
  qed
qed

lemma count_seq_le: "3 * count_seq a b c s \<le> length s"
proof (induction a b c s rule: count_seq.induct)
  case (1 a b c s)
  show ?case
  proof (cases "strstr s [a, b, c]")
    case None
    then show ?thesis by (subst count_seq.simps) simp
  next
    case (Some i)
    then show ?thesis
      using "1.IH" [OF Some] strstr_length [OF Some] by (subst count_seq.simps) simp
  qed
qed

lemma path_score:
  "dr_score (detect_path_traversal payload mp md) =
     (let d = cstr (det_decode payload) in
      traversal_count d * 15 + (if lfi_match d then 35 else 0) + (if wrapper_match d then 45 else 0) +
      (if rfi_match d then 45 else 0) + (if null_byte payload then 15 else 0))"
  by (simp add: detect_path_traversal_def Let_def accumulate_score path_checks_def)

text \<open>The summands one by one, for the two bounds.\<close>

lemma path_score_parts:
  "dr_score (detect_path_traversal payload mp md) =
     traversal_count (cstr (det_decode payload)) * 15 +
     (35 * of_bool (lfi_match (cstr (det_decode payload))) +
      45 * of_bool (wrapper_match (cstr (det_decode payload))) +
      45 * of_bool (rfi_match (cstr (det_decode payload))) + 15 * of_bool (null_byte payload))"
  unfolding path_score Let_def of_bool_def by (simp only: mult_1_right mult_0_right if_distrib [of "(*) _"] add.assoc)

interpretation path: detector detect_path_traversal
proof
  fix mp md :: nat and payload :: "byte list"
  show "0 < mp \<Longrightarrow> length (dr_pattern (detect_path_traversal payload mp md)) < mp"
    by (simp add: detect_path_traversal_def Let_def accumulate_length)
  show "0 < md \<Longrightarrow> length (dr_details (detect_path_traversal payload mp md)) < md"
    by (simp add: detect_path_traversal_def Let_def length_snprintf_buf)
  assume "1 < mp"
  then show "dr_score (detect_path_traversal payload mp md) = 0 \<longleftrightarrow>
      dr_pattern (detect_path_traversal payload mp md) = []"
    unfolding detect_path_traversal_def Let_def
    by (auto simp: accumulate_Nil_iff path_checks_def simp del: accumulate_Cons)
qed

lemma traversal_count_le: "traversal_count s \<le> length s"
  using count_seq_le [of "CHR ''.''" "CHR ''.''" "CHR ''/''" s]
    count_seq_le [of "CHR ''.''" "CHR ''.''" "CHR 0x5C" s]
    count_seq_le [of "CHR ''.''" "CHR ''.''" "CHR '';''" s]
  unfolding traversal_count_def by linarith

subsection \<open>Properties\<close>

text \<open>The traversal count is the number of positions of the decoded text at which \<^verbatim>\<open>../\<close>, \<^verbatim>\<open>..\\<close> or
  \<^verbatim>\<open>..;\<close> stands: the loops that jump three characters ahead after a match miss none.\<close>

theorem path_traversal_count_exact:
  "traversal_count s =
     card {i. prefix ''../'' (drop i s)} + card {i. prefix [CHR ''.'', CHR ''.'', CHR 0x5C] (drop i s)} +
     card {i. prefix ''..;'' (drop i s)}"
  by (simp add: traversal_count_def count_seq_card occurrences_def)

text \<open>Three traversal sequences, one with a sensitive file name, a PHP stream wrapper, or a remote
  URL at the start of a parameter value: each reaches the alert threshold.\<close>

theorem path_attack_flagged:
  assumes "d = cstr (det_decode payload)"
    and "3 \<le> traversal_count d \<or> (1 \<le> traversal_count d \<and> lfi_match d) \<or> wrapper_match d \<or> rfi_match d"
  shows "40 \<le> dr_score (detect_path_traversal payload mp md)"
proof -
  let ?n = "traversal_count d"
  have eq: "dr_score (detect_path_traversal payload mp md) =
      ?n * 15 + (35 * of_bool (lfi_match d) + 45 * of_bool (wrapper_match d) +
        45 * of_bool (rfi_match d) + 15 * of_bool (null_byte payload))"
    unfolding assms(1) by (rule path_score_parts)
  from assms(2) consider "3 \<le> ?n" | "1 \<le> ?n" "lfi_match d" | "wrapper_match d" | "rfi_match d"
    by blast
  then show ?thesis unfolding eq by cases simp_all
qed

theorem path_attack_flagged_witness:
  "wrapper_match (cstr (det_decode ''f=PHP://input'')) \<and>
   40 \<le> dr_score (detect_path_traversal ''f=PHP://input'' 128 256)"
proof -
  have "det_decode ''f=PHP://input'' = ''f=PHP://input''" by (rule det_decode_plain) simp_all
  then have "wrapper_match (cstr (det_decode ''f=PHP://input''))"
    by (simp add: wrapper_match_def php_wrappers_def scan_eval)
  with path_attack_flagged [OF refl, of "''f=PHP://input''" 128 256] show ?thesis by simp
qed

text \<open>The score stays far inside a C \<^verbatim>\<open>int\<close>: at most 15 points for each of the 4095 decoded bytes and
  140 for the other checks; the result strings fit the caller's buffers.\<close>

lemma path_result_bounds:
  "dr_score (detect_path_traversal payload mp md) \<le> 15 * 4095 + 140 \<and>
   length (dr_pattern (detect_path_traversal payload 128 md)) < 128 \<and>
   length (dr_details (detect_path_traversal payload mp 256)) < 256"
proof -
  have "traversal_count (cstr (det_decode payload)) \<le> 4095"
    using traversal_count_le [of "cstr (det_decode payload)"] length_cstr [of "det_decode payload"]
      length_det_decode [of payload] by linarith
  moreover have "35 * of_bool a + 45 * of_bool b + 45 * of_bool c + 15 * of_bool e \<le> (140 :: nat)" for a b c e
    by (cases a; cases b; cases c; cases e) simp_all
  ultimately have "dr_score (detect_path_traversal payload mp md) \<le> 15 * 4095 + 140"
    unfolding path_score_parts by (intro add_mono) simp_all
  then show ?thesis
    using path.pattern_fits [of 128 payload md] path.details_fit [of 256 payload mp] by simp
qed

end
