(* ===== verification/Bot_Detect.thy ===== *)
theory Bot_Detect
  imports Detector
begin

section \<open>Bot and scanner detector (bot\_detect.c)\<close>

text \<open>
  \<^verbatim>\<open>detect_bot\<close>: copy up to 1023 bytes, parse method and path with \<^verbatim>\<open>sscanf\<close>, extract the
  User-Agent header, and match it against scanner names and the path against honeypot paths.
\<close>

subsection \<open>Model\<close>

definition scanner_uas :: "string list" where
  "scanner_uas =
     [''sqlmap'', ''nikto'', ''dirbuster'', ''gobuster'', ''burpsuite'', ''arachni'', ''w3af'',
      ''hydra'', ''nmap'', ''masscan'', ''nessus'', ''acunetix'', ''netsparker'', ''owasp'',
      ''python-urllib'', ''python-requests'', ''curl/'', ''wget'', ''go-http-client'',
      ''libwww-perl'', ''lwp-trivial'', ''perl'', ''ruby'', ''httpx'', ''zjgr'']"

definition honeypot_paths :: "string list" where
  "honeypot_paths =
     [''/wp-login.php'', ''/wp-admin'', ''/xmlrpc.php'',
      ''/phpmyadmin'', ''/pma/'', ''/dbadmin/'',
      ''/.env'', ''/config.php'', ''/database.yml'', ''/credentials'',
      ''/.git/config'', ''/.git/HEAD'',
      ''/admin/login'', ''/admin/config'', ''/administrator/'',
      ''/shell.php'', ''/cmd.php'', ''/upload.php'']"

text \<open>\<^verbatim>\<open>headers_copy\<close>, the NUL-terminated copy of the first bytes.\<close>

definition bot_hdrs :: "byte list \<Rightarrow> string" where
  "bot_hdrs payload = cstr (take (if length payload > 1023 then 1023 else length payload) payload)"

text \<open>\<^verbatim>\<open>sscanf(headers_copy, "%15s %511s", method, path) == 2\<close>: the path, when both words were read.\<close>

definition scan_path :: "string \<Rightarrow> string option" where
  "scan_path headers_copy =
     (case scan_word 15 headers_copy of None \<Rightarrow> None
      | Some (method, rest) \<Rightarrow> (case scan_word 511 rest of None \<Rightarrow> None | Some (path, _) \<Rightarrow> Some path))"

definition ua_char :: "char \<Rightarrow> bool" where
  "ua_char c \<longleftrightarrow> c \<noteq> CHR 0x0D \<and> c \<noteq> CHR 0x0A"

text \<open>The User-Agent value: after the header name and white space, up to the end of the line.\<close>

definition user_agent :: "string \<Rightarrow> string" where
  "user_agent headers_copy =
     (case strcase_contains headers_copy ''User-Agent:'' of None \<Rightarrow> []
      | Some i \<Rightarrow> take 255 (takeWhile ua_char (dropWhile isspace (drop (i + 11) headers_copy))))"

definition ua_match :: "string \<Rightarrow> string option" where
  "ua_match ua = (if 0 < length ua then map_option (take 63) (find (contains_ci ua) scanner_uas) else None)"

definition honeypot_match :: "string option \<Rightarrow> string option" where
  "honeypot_match path_opt =
     (case path_opt of None \<Rightarrow> None
      | Some path \<Rightarrow> map_option (take 63) (find (contains_ci path) honeypot_paths))"

definition bot_checks :: "string \<Rightarrow> (bool \<times> nat \<times> string) list" where
  "bot_checks hdrs =
     (let ua = user_agent hdrs in
      [(length ua = 0, 20, ''EMPTY_UA; ''),
       (ua_match ua \<noteq> None, 45, ''SCANNER_UA; ''),
       (honeypot_match (scan_path hdrs) \<noteq> None, 45, ''HONEYPOT_PATH; '')])"

definition detect_bot :: "byte list \<Rightarrow> nat \<Rightarrow> nat \<Rightarrow> det_result" where
  "detect_bot payload mp md =
     (let hdrs = bot_hdrs payload;
          ua = user_agent hdrs; um = ua_match ua; hm = honeypot_match (scan_path hdrs);
          acc = accumulate mp (bot_checks hdrs) (0, []);
          score = fst acc + (if um \<noteq> None \<and> hm \<noteq> None then 10 else 0)
      in \<lparr>dr_score = score, dr_pattern = snd acc,
          dr_details = snprintf_buf md (''Bot Score: '' @ dec_nat score @ ''. Matches: '' @ snd acc @ ''. UA: '' @
            (case um of Some u \<Rightarrow> u | None \<Rightarrow> if ua \<noteq> [] then ''Browser/Other'' else ''None'') @ '', Path: '' @
            (case hm of Some h \<Rightarrow> h | None \<Rightarrow> ''None''))\<rparr>)"

subsection \<open>Lemmas\<close>

lemma bot_score:
  "dr_score (detect_bot payload mp md) =
     (let ua = user_agent (bot_hdrs payload); hm = honeypot_match (scan_path (bot_hdrs payload)) in
      (if length ua = 0 then 20 else 0) + (if ua_match ua \<noteq> None then 45 else 0) +
      (if hm \<noteq> None then 45 else 0) + (if ua_match ua \<noteq> None \<and> hm \<noteq> None then 10 else 0))"
  by (simp add: detect_bot_def Let_def accumulate_score bot_checks_def del: accumulate_Cons)

interpretation bot: detector detect_bot
proof
  fix mp md :: nat and payload :: "byte list"
  show "0 < mp \<Longrightarrow> length (dr_pattern (detect_bot payload mp md)) < mp"
    by (simp add: detect_bot_def Let_def accumulate_length)
  show "0 < md \<Longrightarrow> length (dr_details (detect_bot payload mp md)) < md"
    by (simp add: detect_bot_def Let_def length_snprintf_buf)
  assume mp: "1 < mp"
  let ?acc = "accumulate mp (bot_checks (bot_hdrs payload)) (0, [])"
  have "fst ?acc = 0 \<longleftrightarrow> snd ?acc = []"
    using mp by (intro accumulate_Nil_iff) (auto simp: bot_checks_def Let_def)
  moreover have "fst ?acc = 0 \<Longrightarrow> ua_match (user_agent (bot_hdrs payload)) = None"
    by (auto simp: accumulate_score bot_checks_def Let_def split: if_splits)
  ultimately show "dr_score (detect_bot payload mp md) = 0 \<longleftrightarrow> dr_pattern (detect_bot payload mp md) = []"
    unfolding detect_bot_def Let_def by auto
qed

subsection \<open>Properties\<close>

text \<open>The score is what the interface documents, a number from 0 to 100, and it reaches the alert
  threshold exactly when the User-Agent names a scanner or the path is a honeypot path; a missing
  User-Agent alone scores 20 and raises no alert.\<close>

theorem bot_score_decides:
  "dr_score (detect_bot payload mp md) \<le> 100 \<and>
   (40 \<le> dr_score (detect_bot payload mp md)) =
     (ua_match (user_agent (bot_hdrs payload)) \<noteq> None \<or>
      honeypot_match (scan_path (bot_hdrs payload)) \<noteq> None)"
proof -
  have "length (user_agent (bot_hdrs payload)) = 0 \<Longrightarrow> ua_match (user_agent (bot_hdrs payload)) = None"
    by (simp add: ua_match_def)
  then show ?thesis unfolding bot_score Let_def by (auto split: if_splits)
qed

text \<open>A request whose User-Agent value contains a name of the scanner table, in any letter case, is
  flagged wherever the header stands in the first 1023 bytes.\<close>

lemma bot_scanner_flagged:
  assumes "s \<in> set scanner_uas" and "contains_ci (user_agent (bot_hdrs payload)) s"
  shows "45 \<le> dr_score (detect_bot payload mp md)"
proof -
  have "s \<noteq> []" using assms(1) by (auto simp: scanner_uas_def)
  then have "user_agent (bot_hdrs payload) \<noteq> []" using assms(2) by (auto simp: contains_ci_iff)
  moreover have "find (contains_ci (user_agent (bot_hdrs payload))) scanner_uas \<noteq> None"
    using assms by (auto simp: find_None_iff)
  ultimately show ?thesis by (simp add: bot_score Let_def ua_match_def)
qed

end
