(* ===== verification/Tcp_Monitor.thy ===== *)
theory Tcp_Monitor
  imports Fw_Types
begin

section \<open>TCP connection monitor (tcp\_monitor.c)\<close>

text \<open>
  A fixed pool of 4096 connection records, indexed by a hash of source address and port, tracks SYN
  rates and incomplete HTTP requests. \<^verbatim>\<open>conn_pool\<close> is an optional list (\<^term>\<open>None\<close> before the
  allocation); every operation runs under \<^verbatim>\<open>pool_lock\<close>. \<^verbatim>\<open>monitor_tcp_stats\<close> returns the new pool, the
  events it passes to \<^verbatim>\<open>send_fw_event\<close> in order, and whether the packet is dropped; the clocks it reads
  are its arguments \<open>now\<close> (jiffies) and \<open>secs\<close>.

  The number of jiffies to a second is the argument \<open>hz\<close>: 100 in the daemon, where \<^verbatim>\<open>userspace_compat.h\<close> defines \<^verbatim>\<open>HZ\<close>, and a
  configuration option of the kernel the module is built for. \<^verbatim>\<open>time_after\<close> takes the sign of the difference of the two values as a
  64-bit number; the macro of \<^verbatim>\<open>userspace_compat.h\<close> casts before it subtracts, which differs only where the signed
  subtraction overflows.
\<close>

subsection \<open>Model\<close>

definition MAX_TRACKED_CONNS :: nat where
  "MAX_TRACKED_CONNS = 4096"

definition SYN_FLOOD_THRESHOLD :: nat where
  "SYN_FLOOD_THRESHOLD = 100"

definition SLOWLORIS_TIMEOUT :: nat where
  "SLOWLORIS_TIMEOUT = 30"

definition HZ :: u64 where
  "HZ = 100"

definition time_after :: "u64 \<Rightarrow> u64 \<Rightarrow> bool" where
  "time_after a b \<longleftrightarrow> sint (b - a) < 0"

text \<open>The clock of the daemon, from the seconds and microseconds of \<^verbatim>\<open>gettimeofday\<close>: ten milliseconds to a jiffy.\<close>

definition get_millis :: "int \<Rightarrow> int \<Rightarrow> u64" where
  "get_millis tv_sec tv_usec = of_int (tv_sec * 1000 + tv_usec div 1000)"

definition jiffies :: "int \<Rightarrow> int \<Rightarrow> u64" where
  "jiffies tv_sec tv_usec = get_millis tv_sec tv_usec div 10"

record conn_state =
  cs_src_ip :: u32
  cs_src_port :: u16
  cs_dest_port :: u16
  cs_last_seen :: u64
  cs_syn_window_start :: u64
  cs_syn_count :: u32
  cs_http_start_time :: u64
  cs_http_header_count :: u8
  cs_is_http_complete :: bool
  cs_is_blocked :: bool

type_synonym conn_pool = "conn_state list option"

text \<open>A record filled with zero bytes, as \<^verbatim>\<open>kzalloc\<close> and \<^verbatim>\<open>memset\<close> leave it.\<close>

definition zero_conn :: conn_state where
  "zero_conn = \<lparr>cs_src_ip = 0, cs_src_port = 0, cs_dest_port = 0, cs_last_seen = 0, cs_syn_window_start = 0,
     cs_syn_count = 0, cs_http_start_time = 0, cs_http_header_count = 0, cs_is_http_complete = False,
     cs_is_blocked = False\<rparr>"

definition ENOMEM :: int where
  "ENOMEM = 12"

definition init_conn_pool :: "bool \<Rightarrow> conn_pool \<times> int" where
  "init_conn_pool alloc =
     (if \<not> alloc then (None, - ENOMEM) else (Some (replicate MAX_TRACKED_CONNS zero_conn), 0))"

definition conn_hash :: "u32 \<Rightarrow> u16 \<Rightarrow> u32" where
  "conn_hash ip port =
     (let hash = ip;
          hash = hash + push_bit 10 hash;
          hash = hash XOR drop_bit 6 hash;
          hash = hash + ucast port;
          hash = hash + push_bit 3 hash;
          hash = hash XOR drop_bit 11 hash;
          hash = hash + push_bit 15 hash
      in hash mod 4096)"

definition conn_index :: "u32 \<Rightarrow> u16 \<Rightarrow> nat" where
  "conn_index ip port = unat (conn_hash ip port)"

definition same_conn :: "conn_state \<Rightarrow> u32 \<Rightarrow> u16 \<Rightarrow> bool" where
  "same_conn conn ip port \<longleftrightarrow> cs_src_ip conn = ip \<and> cs_src_port conn = port"

definition test_get_conn_state :: "conn_pool \<Rightarrow> u32 \<Rightarrow> u16 \<Rightarrow> conn_state option" where
  "test_get_conn_state pool ip port =
     (case pool of None \<Rightarrow> None | Some conns \<Rightarrow> Some (conns ! conn_index ip port))"

definition counts_open :: "u32 \<Rightarrow> conn_state \<Rightarrow> bool" where
  "counts_open ip conn \<longleftrightarrow>
     cs_src_ip conn = ip \<and> cs_src_ip conn \<noteq> 0 \<and> \<not> cs_is_http_complete conn \<and> \<not> cs_is_blocked conn"

fun count_loop :: "u32 \<Rightarrow> nat \<Rightarrow> conn_state list \<Rightarrow> nat" where
  "count_loop ip count [] = count"
| "count_loop ip count (conn # rest) = count_loop ip (if counts_open ip conn then count + 1 else count) rest"

definition count_open_connections :: "conn_pool \<Rightarrow> u32 \<Rightarrow> nat" where
  "count_open_connections pool ip = (case pool of None \<Rightarrow> 0 | Some conns \<Rightarrow> count_loop ip 0 conns)"

definition register_http_header_sent :: "conn_pool \<Rightarrow> u32 \<Rightarrow> u16 \<Rightarrow> conn_pool" where
  "register_http_header_sent pool ip port =
     (case pool of None \<Rightarrow> None
      | Some conns \<Rightarrow>
          (let index = conn_index ip port; conn = conns ! index in
           if same_conn conn ip port
           then Some (conns[index := conn\<lparr>cs_http_header_count := cs_http_header_count conn + 1\<rparr>])
           else Some conns))"

definition register_http_complete :: "conn_pool \<Rightarrow> u32 \<Rightarrow> u16 \<Rightarrow> conn_pool" where
  "register_http_complete pool ip port =
     (case pool of None \<Rightarrow> None
      | Some conns \<Rightarrow>
          (let index = conn_index ip port; conn = conns ! index in
           if same_conn conn ip port
           then Some (conns[index := conn\<lparr>cs_is_http_complete := True\<rparr>])
           else Some conns))"

text \<open>
  \<^verbatim>\<open>monitor_tcp_stats\<close> in the order of its body: the slot is taken over when it is free or stale,
  payload is counted, the SYN window is checked, a blocked connection is dropped, and the Slowloris
  checks run.
\<close>

definition fresh_conn :: "u64 \<Rightarrow> u32 \<Rightarrow> u16 \<Rightarrow> u16 \<Rightarrow> conn_state" where
  "fresh_conn now ip port dport =
     zero_conn\<lparr>cs_src_ip := ip, cs_src_port := port, cs_dest_port := dport, cs_syn_window_start := now,
               cs_last_seen := now\<rparr>"

text \<open>The record the packet is accounted to; \<^term>\<open>None\<close> when an active connection holds the slot.\<close>

definition reclaim :: "u64 \<Rightarrow> u64 \<Rightarrow> u32 \<Rightarrow> u16 \<Rightarrow> u16 \<Rightarrow> conn_state \<Rightarrow> conn_state option" where
  "reclaim hz now ip port dport conn =
     (if cs_src_ip conn \<noteq> ip \<or> cs_src_port conn \<noteq> port then
        (if cs_src_ip conn = 0 \<or> time_after now (cs_last_seen conn + hz * 60)
         then Some (fresh_conn now ip port dport)
         else if time_after now (cs_last_seen conn + hz * 5)
         then Some (fresh_conn now ip port dport)
         else None)
      else Some conn)"

definition http_port :: "u16 \<Rightarrow> bool" where
  "http_port dport \<longleftrightarrow> dport = 80 \<or> dport = 443"

definition count_payload :: "iphdr \<Rightarrow> tcphdr \<Rightarrow> conn_state \<Rightarrow> conn_state" where
  "count_payload iph tcph conn =
     (if http_port (ntohs (tcp_dest tcph)) \<and> tcp_payload_len iph tcph > 0
      then conn\<lparr>cs_http_header_count := cs_http_header_count conn + 1\<rparr> else conn)"

definition tcp_event :: "u64 \<Rightarrow> iphdr \<Rightarrow> tcphdr \<Rightarrow> threat \<Rightarrow> severity \<Rightarrow> string \<Rightarrow> string \<Rightarrow> fw_event" where
  "tcp_event secs iph tcph th sev preview details =
     \<lparr>ev_timestamp = secs, ev_src_ip = ip_saddr iph, ev_dest_ip = ip_daddr iph,
      ev_src_port = tcp_source tcph, ev_dest_port = tcp_dest tcph, ev_threat_type = th, ev_severity = sev,
      ev_payload_preview = snprintf_buf 128 preview, ev_details = snprintf_buf 256 details\<rparr>"

definition syn_flood_event :: "u64 \<Rightarrow> iphdr \<Rightarrow> tcphdr \<Rightarrow> u32 \<Rightarrow> fw_event" where
  "syn_flood_event secs iph tcph count =
     tcp_event secs iph tcph THREAT_SYN_FLOOD SEVERITY_CRITICAL ''SYN Flood Detected''
       (''SYN Rate: '' @ dec_nat (unat count) @ ''/sec (Threshold: '' @ dec_nat SYN_FLOOD_THRESHOLD @ '')'')"

definition syn_check ::
    "u64 \<Rightarrow> u64 \<Rightarrow> u64 \<Rightarrow> iphdr \<Rightarrow> tcphdr \<Rightarrow> conn_state \<Rightarrow> conn_state \<times> fw_event list \<times> bool" where
  "syn_check hz now secs iph tcph conn =
     (if tcp_syn tcph \<and> \<not> tcp_ack tcph then
        (if time_after now (cs_syn_window_start conn + hz)
         then (conn\<lparr>cs_syn_count := 1, cs_syn_window_start := now\<rparr>, [], False)
         else (let conn = conn\<lparr>cs_syn_count := cs_syn_count conn + 1\<rparr> in
               if unat (cs_syn_count conn) > SYN_FLOOD_THRESHOLD
               then (conn\<lparr>cs_is_blocked := True\<rparr>,
                     (if unat (cs_syn_count conn) = SYN_FLOOD_THRESHOLD + 1
                      then [syn_flood_event secs iph tcph (cs_syn_count conn)] else []), True)
               else (conn, [], False)))
      else (conn, [], False))"

definition start_http :: "u64 \<Rightarrow> conn_state \<Rightarrow> conn_state" where
  "start_http now conn = (if cs_http_start_time conn = 0 then conn\<lparr>cs_http_start_time := now\<rparr> else conn)"

definition slowloris_check ::
    "u64 \<Rightarrow> u64 \<Rightarrow> u64 \<Rightarrow> iphdr \<Rightarrow> tcphdr \<Rightarrow> conn_state list \<Rightarrow> nat \<Rightarrow> conn_state \<Rightarrow> bool \<Rightarrow>
     conn_state \<times> fw_event list \<times> bool" where
  "slowloris_check hz now secs iph tcph conns index conn drop_packet =
     (if http_port (ntohs (tcp_dest tcph)) \<and> \<not> cs_is_http_complete conn then
        (let conn = start_http now conn;
             open_conns = count_open_connections (Some (conns[index := conn])) (ip_saddr iph)
         in if open_conns > 20
            then (conn\<lparr>cs_is_blocked := True\<rparr>,
                  [tcp_event secs iph tcph THREAT_SLOWLORIS SEVERITY_CRITICAL ''Slowloris (Max Sockets Exceeded)''
                     (''IP has '' @ dec_nat open_conns @ '' concurrent incomplete HTTP connections (Limit: 20)'')],
                  True)
            else if time_after now (cs_http_start_time conn + hz * of_nat SLOWLORIS_TIMEOUT)
            then (conn\<lparr>cs_is_blocked := True\<rparr>,
                  (if cs_http_header_count conn > 0
                   then [tcp_event secs iph tcph THREAT_SLOWLORIS SEVERITY_WARNING ''Slowloris Timeout''
                          (''HTTP request headers took longer than '' @ dec_nat SLOWLORIS_TIMEOUT @
                           '' seconds to complete'')]
                   else []), True)
            else (conn, [], drop_packet))
      else (conn, [], drop_packet))"

text \<open>The part after the slot has been found or taken over.\<close>

definition track_conn ::
    "u64 \<Rightarrow> u64 \<Rightarrow> u64 \<Rightarrow> iphdr \<Rightarrow> tcphdr \<Rightarrow> conn_state list \<Rightarrow> nat \<Rightarrow> conn_state \<Rightarrow>
     conn_state \<times> fw_event list \<times> bool" where
  "track_conn hz now secs iph tcph conns index conn =
     (let conn = count_payload iph tcph (conn\<lparr>cs_last_seen := now\<rparr>);
          (conn, evs, drop_packet) = syn_check hz now secs iph tcph conn
      in if cs_is_blocked conn then (conn, evs, True)
         else (let (conn, evs', drop_packet) = slowloris_check hz now secs iph tcph conns index conn drop_packet
               in (conn, evs @ evs', drop_packet)))"

definition monitor_tcp_stats ::
    "u64 \<Rightarrow> u64 \<Rightarrow> u64 \<Rightarrow> conn_pool \<Rightarrow> iphdr \<Rightarrow> tcphdr \<Rightarrow> conn_pool \<times> fw_event list \<times> bool" where
  "monitor_tcp_stats hz now secs pool iph tcph =
     (let src_ip = ip_saddr iph; src_port = tcp_source tcph; index = conn_index src_ip src_port in
      case pool of None \<Rightarrow> (None, [], False)
      | Some conns \<Rightarrow>
          (let conn = conns ! index in
           if tcp_fin tcph \<or> tcp_rst tcph then
             (Some (if same_conn conn src_ip src_port then conns[index := zero_conn] else conns), [], False)
           else
             (case reclaim hz now src_ip src_port (tcp_dest tcph) conn of None \<Rightarrow> (Some conns, [], False)
              | Some conn \<Rightarrow>
                  (let (conn, evs, drop_packet) = track_conn hz now secs iph tcph conns index conn
                   in (Some (conns[index := conn]), evs, drop_packet)))))"

subsection \<open>Invariant\<close>

definition slot_ok :: "nat \<Rightarrow> conn_state \<Rightarrow> bool" where
  "slot_ok i conn \<longleftrightarrow> cs_src_ip conn = 0 \<or> conn_index (cs_src_ip conn) (cs_src_port conn) = i"

text \<open>An allocated pool has 4096 records, each of them unused or in the slot of its own hash.\<close>

definition conns_ok :: "conn_state list \<Rightarrow> bool" where
  "conns_ok conns \<longleftrightarrow> length conns = MAX_TRACKED_CONNS \<and> list_all (\<lambda>i. slot_ok i (conns ! i)) [0..<MAX_TRACKED_CONNS]"

definition conn_pool_ok :: "conn_pool \<Rightarrow> bool" where
  "conn_pool_ok pool \<longleftrightarrow> (case pool of None \<Rightarrow> True | Some conns \<Rightarrow> conns_ok conns)"

lemma conn_index_less [simp]: "conn_index ip port < MAX_TRACKED_CONNS"
proof -
  have "unat (w mod 4096) < 4096" for w :: u32
    by (simp add: unat_mod)
  then show ?thesis by (simp add: conn_index_def conn_hash_def MAX_TRACKED_CONNS_def Let_def)
qed

lemma conns_ok_length: "conns_ok conns \<Longrightarrow> length conns = MAX_TRACKED_CONNS"
  by (simp add: conns_ok_def)

lemma conns_okD: "conns_ok conns \<Longrightarrow> i < MAX_TRACKED_CONNS \<Longrightarrow> slot_ok i (conns ! i)"
  by (simp add: conns_ok_def list_all_iff)

lemma conns_ok_update:
  assumes "conns_ok conns" and "slot_ok i conn"
  shows "conns_ok (conns[i := conn])"
proof -
  have "slot_ok j (conns[i := conn] ! j)" if "j < MAX_TRACKED_CONNS" for j
    using assms that by (cases "j = i") (auto simp: conns_okD conns_ok_length)
  then show ?thesis using assms(1) by (simp add: conns_ok_def list_all_iff)
qed

lemma slot_ok_zero [simp]: "slot_ok i zero_conn"
  by (simp add: slot_ok_def zero_conn_def)

text \<open>Tracking keeps the identity of the record.\<close>

definition conn_key :: "conn_state \<Rightarrow> u32 \<times> u16" where
  "conn_key conn = (cs_src_ip conn, cs_src_port conn)"

lemma same_conn_key: "same_conn conn ip port \<longleftrightarrow> conn_key conn = (ip, port)"
  by (simp add: same_conn_def conn_key_def)

lemma reclaim_key: "reclaim hz now ip port dport conn = Some c \<Longrightarrow> conn_key c = (ip, port)"
  by (auto simp: reclaim_def conn_key_def fresh_conn_def split: if_splits)

lemma last_seen_key [simp]: "conn_key (conn\<lparr>cs_last_seen := now\<rparr>) = conn_key conn"
  by (simp add: conn_key_def)

lemma count_payload_key [simp]: "conn_key (count_payload iph tcph conn) = conn_key conn"
  by (simp add: count_payload_def conn_key_def)

lemma syn_check_key: "syn_check hz now secs iph tcph conn = (c, evs, d) \<Longrightarrow> conn_key c = conn_key conn"
  by (auto simp: syn_check_def conn_key_def Let_def split: if_splits)

lemma slowloris_check_key:
  "slowloris_check hz now secs iph tcph conns i conn d0 = (c, evs, d) \<Longrightarrow> conn_key c = conn_key conn"
  by (auto simp: slowloris_check_def start_http_def conn_key_def Let_def split: if_splits)

lemma track_conn_key:
  assumes "track_conn hz now secs iph tcph conns i conn = (c, evs, d)"
  shows "conn_key c = conn_key conn"
proof -
  let ?c0 = "count_payload iph tcph (conn\<lparr>cs_last_seen := now\<rparr>)"
  have k0: "conn_key ?c0 = conn_key conn" by simp
  obtain c1 evs1 d1 where s: "syn_check hz now secs iph tcph ?c0 = (c1, evs1, d1)" by (metis prod_cases3)
  obtain c2 evs2 d2 where l: "slowloris_check hz now secs iph tcph conns i c1 d1 = (c2, evs2, d2)" by (metis prod_cases3)
  have "c = c1 \<or> c = c2"
    using assms s l by (auto simp: track_conn_def Let_def split: if_splits)
  then show ?thesis using k0 syn_check_key [OF s] slowloris_check_key [OF l] by auto
qed

lemma slot_ok_key: "slot_ok i c \<longleftrightarrow> fst (conn_key c) = 0 \<or> conn_index (fst (conn_key c)) (snd (conn_key c)) = i"
  by (simp add: slot_ok_def conn_key_def)

text \<open>Every outcome of the monitor writes the slot of the packet's connection and no other.\<close>

lemma monitor_writes_slot:
  "\<exists>c. fst (monitor_tcp_stats hz now secs (Some conns) iph tcph) =
      Some (conns[conn_index (ip_saddr iph) (tcp_source tcph) := c]) \<and>
    (c = conns ! conn_index (ip_saddr iph) (tcp_source tcph) \<or> c = zero_conn \<or>
     conn_key c = (ip_saddr iph, tcp_source tcph))"
proof (cases "tcp_fin tcph \<or> tcp_rst tcph")
  case True
  let ?i = "conn_index (ip_saddr iph) (tcp_source tcph)"
  show ?thesis
    by (intro exI [of _ "if same_conn (conns ! ?i) (ip_saddr iph) (tcp_source tcph) then zero_conn else conns ! ?i"])
       (simp add: monitor_tcp_stats_def Let_def True)
next
  case False
  let ?i = "conn_index (ip_saddr iph) (tcp_source tcph)"
  show ?thesis
  proof (cases "reclaim hz now (ip_saddr iph) (tcp_source tcph) (tcp_dest tcph) (conns ! ?i)")
    case None
    with False show ?thesis
      by (intro exI [of _ "conns ! ?i"]) (simp add: monitor_tcp_stats_def Let_def)
  next
    case (Some c0)
    obtain c evs d where t: "track_conn hz now secs iph tcph conns ?i c0 = (c, evs, d)" by (metis prod_cases3)
    from track_conn_key [OF t] reclaim_key [OF Some] have "conn_key c = (ip_saddr iph, tcp_source tcph)" by simp
    with False Some t show ?thesis
      by (intro exI [of _ c]) (simp add: monitor_tcp_stats_def Let_def)
  qed
qed

lemma init_pool_ok [pool_inv]: "conn_pool_ok (fst (init_conn_pool alloc))"
  by (simp add: init_conn_pool_def conn_pool_ok_def conns_ok_def list_all_iff)

lemma monitor_pool_ok [pool_inv]:
  assumes "conn_pool_ok pool"
  shows "conn_pool_ok (fst (monitor_tcp_stats hz now secs pool iph tcph))"
proof (cases pool)
  case None
  then show ?thesis by (simp add: monitor_tcp_stats_def Let_def conn_pool_ok_def)
next
  case (Some conns)
  let ?i = "conn_index (ip_saddr iph) (tcp_source tcph)"
  have ok: "conns_ok conns" using assms Some by (simp add: conn_pool_ok_def)
  obtain c where c: "fst (monitor_tcp_stats hz now secs pool iph tcph) = Some (conns[?i := c])"
    "c = conns ! ?i \<or> c = zero_conn \<or> conn_key c = (ip_saddr iph, tcp_source tcph)"
    using monitor_writes_slot [of hz now secs conns iph tcph] Some by blast
  have "slot_ok ?i (conns ! ?i)" using ok conn_index_less by (rule conns_okD)
  moreover have "slot_ok ?i c" if "conn_key c = (ip_saddr iph, tcp_source tcph)" using that by (simp add: slot_ok_key)
  ultimately have "slot_ok ?i c" using c(2) slot_ok_zero by blast
  then show ?thesis using conns_ok_update [OF ok] c(1) by (simp add: conn_pool_ok_def)
qed

lemma register_header_ok [pool_inv]: "conn_pool_ok pool \<Longrightarrow> conn_pool_ok (register_http_header_sent pool ip port)"
  by (auto simp: conn_pool_ok_def register_http_header_sent_def Let_def same_conn_def slot_ok_def
      intro!: conns_ok_update split: option.splits)

lemma register_complete_ok [pool_inv]: "conn_pool_ok pool \<Longrightarrow> conn_pool_ok (register_http_complete pool ip port)"
  by (auto simp: conn_pool_ok_def register_http_complete_def Let_def same_conn_def slot_ok_def
      intro!: conns_ok_update split: option.splits)

subsection \<open>Counting and time\<close>

lemma count_loop_eq: "count_loop ip n conns = n + length (filter (counts_open ip) conns)"
  by (induction conns arbitrary: n) auto

lemma count_open_eq: "count_open_connections (Some conns) ip = length (filter (counts_open ip) conns)"
  by (simp add: count_open_connections_def count_loop_eq)

lemma filter_update_length:
  "i < length xs \<Longrightarrow> \<not> P z \<Longrightarrow>
    length (filter P (xs[i := y])) = length (filter P (xs[i := z])) + (if P y then 1 else 0)"
  by (induction xs arbitrary: i) (auto split: nat.split)

text \<open>One slot adds at most one to the count of the others.\<close>

lemma count_open_update:
  assumes "i < length conns"
  shows "count_open_connections (Some (conns[i := c])) ip =
    count_open_connections (Some (conns[i := zero_conn])) ip + (if counts_open ip c then 1 else 0)"
  unfolding count_open_eq
  using assms by (intro filter_update_length) (simp_all add: counts_open_def zero_conn_def)

lemma sint_small:
  assumes "unat (w :: u64) < 2 ^ 63"
  shows "sint w = int (unat w)"
proof -
  have "int (unat w) < int (2 ^ 63)" using assms by (simp only: of_nat_less_iff)
  then have "uint w < 2 ^ 63" by simp
  moreover have "- (2 ^ 63) \<le> uint w" by (rule order_trans [of _ 0]) simp_all
  ultimately have "signed_take_bit 63 (uint w) = uint w" by (rule signed_take_bit_int_eq_self [rotated])
  then show ?thesis by (simp add: sint_uint)
qed

lemma time_after_unat:
  assumes "unat a < 2 ^ 63" "unat b < 2 ^ 63"
  shows "time_after a b \<longleftrightarrow> unat b < unat a"
proof -
  have diff: "signed_take_bit 63 (y - x) = y - x" if "0 \<le> x" "0 \<le> y" "x < 2 ^ 63" "y < 2 ^ 63" for x y :: int
    using that by (intro signed_take_bit_int_eq_self) auto
  have "int (unat a) < int (2 ^ 63)" "int (unat b) < int (2 ^ 63)" using assms by (simp_all only: of_nat_less_iff)
  then have "signed_take_bit 63 (int (unat b) - int (unat a)) = int (unat b) - int (unat a)" by (intro diff) simp_all
  then have "sint (b - a) = int (unat b) - int (unat a)"
    using sint_small [OF assms(1)] sint_small [OF assms(2)] by (simp add: sint_word_ariths del: int_nat_eq unat_eq_nat_uint uint_nat)
  then show ?thesis unfolding time_after_def by linarith
qed

lemma unat_add_small:
  assumes "unat (a :: u64) < 2 ^ 62" and "unat b < 2 ^ 62"
  shows "unat (a + b) = unat a + unat b"
proof -
  have "unat a + unat b < 2 ^ 64" using assms by simp
  then show ?thesis by (simp add: unat_word_ariths)
qed

text \<open>Readings of the clock are in the range where \<^verbatim>\<open>time_after\<close> compares as numbers do, and timeouts of whole seconds are exact.\<close>

lemma jiffies_in_range: "unat (jiffies s u) < 2 ^ 63"
proof -
  have "unat (get_millis s u) < 2 ^ 64" using unsigned_less [of "get_millis s u"] by simp
  then show ?thesis by (simp add: jiffies_def unat_div)
qed

lemma unat_jiffies:
  assumes "0 \<le> s" "s < 2 ^ 50" "0 \<le> u" "u < 1000000"
  shows "int (unat (jiffies s u)) = s * 100 + u div 10000"
proof -
  let ?m = "s * 1000 + u div 1000"
  have "0 \<le> ?m" "?m < 2 ^ 64" using assms by simp_all
  then have "uint (get_millis s u) = ?m" unfolding get_millis_def by (subst uint_word_of_int) (simp add: mod_pos_pos_trivial)
  moreover have "?m div 10 = s * 100 + u div 10000" by simp
  ultimately show ?thesis by (simp add: jiffies_def uint_div)
qed

lemma jiffies_timeout:
  assumes "0 \<le> s" "0 \<le> k" "s + k < 2 ^ 50" "0 \<le> u" "u < 1000000" "n < 2 ^ 50"
  shows "time_after (jiffies (s + k) u) (jiffies s u + HZ * of_nat n) \<longleftrightarrow> int n < k"
proof -
  have now: "int (unat (jiffies (s + k) u)) = (s + k) * 100 + u div 10000"
    using assms by (intro unat_jiffies) simp_all
  have start: "int (unat (jiffies s u)) = s * 100 + u div 10000"
    using assms by (intro unat_jiffies) simp_all
  have hz: "unat (HZ * of_nat n) = 100 * n"
  proof -
    have "HZ * of_nat n = (of_nat (100 * n) :: u64)" by (simp add: HZ_def)
    moreover have "100 * n < 2 ^ 64" using assms(6) by simp
    ultimately show ?thesis by (simp only: unat_of_nat) (simp add: take_bit_nat_eq_self)
  qed
  have "int (unat (jiffies s u)) < int (2 ^ 62)" unfolding start using assms by simp
  then have "unat (jiffies s u) < 2 ^ 62" by (simp only: of_nat_less_iff)
  moreover have "unat (HZ * of_nat n) < 2 ^ 62" unfolding hz using assms(6) by simp
  ultimately have sum: "unat (jiffies s u + HZ * of_nat n) = unat (jiffies s u) + 100 * n" using unat_add_small hz by simp
  have "unat (jiffies s u + HZ * of_nat n) < 2 ^ 63" unfolding sum using \<open>unat (jiffies s u) < 2 ^ 62\<close> assms(6) by simp
  then have "time_after (jiffies (s + k) u) (jiffies s u + HZ * of_nat n) \<longleftrightarrow>
      int (unat (jiffies s u) + 100 * n) < int (unat (jiffies (s + k) u))"
    by (simp only: time_after_unat [OF jiffies_in_range] sum of_nat_less_iff)
  then show ?thesis unfolding now of_nat_add start by simp
qed

subsection \<open>Runs of the monitor\<close>

text \<open>The monitor on a sequence of packets with their clock readings: final pool, events, decisions.\<close>

fun monitor_run ::
    "conn_pool \<Rightarrow> (u64 \<times> u64 \<times> iphdr \<times> tcphdr) list \<Rightarrow> conn_pool \<times> fw_event list \<times> bool list" where
  "monitor_run pool [] = (pool, [], [])"
| "monitor_run pool ((now, secs, iph, tcph) # pkts) =
     (let (pool, evs, d) = monitor_tcp_stats HZ now secs pool iph tcph;
          (pool, evs', ds) = monitor_run pool pkts
      in (pool, evs @ evs', d # ds))"

text \<open>A record that has seen \<^term>\<open>k\<close> SYN packets in a window that began at \<^term>\<open>t0\<close>.\<close>

definition syn_inv :: "u64 \<Rightarrow> nat \<Rightarrow> conn_state \<Rightarrow> bool" where
  "syn_inv t0 k conn \<longleftrightarrow>
     cs_syn_window_start conn = t0 \<and> unat (cs_syn_count conn) = k \<and>
     cs_is_blocked conn = (SYN_FLOOD_THRESHOLD < k) \<and> \<not> cs_is_http_complete conn \<and>
     (cs_http_start_time conn = 0 \<or> unat t0 \<le> unat (cs_http_start_time conn) \<and>
        unat (cs_http_start_time conn) \<le> unat t0 + 100)"

lemma syn_inv_fresh: "syn_inv t0 0 (fresh_conn t0 ip port dport)"
  by (simp add: syn_inv_def fresh_conn_def zero_conn_def SYN_FLOOD_THRESHOLD_def)

lemma syn_inv_count_payload:
  "syn_inv t0 k conn \<Longrightarrow> syn_inv t0 k (count_payload iph tcph (conn\<lparr>cs_last_seen := now\<rparr>))"
  by (simp add: syn_inv_def count_payload_def)

lemma window_open:
  assumes "unat t0 < 2 ^ 61" and "unat now \<le> unat t0 + 100"
  shows "\<not> time_after now (t0 + HZ)"
proof -
  have "unat (t0 + HZ) = unat t0 + 100"
    using unat_add_small [of t0 HZ] assms(1) by (simp add: HZ_def)
  then show ?thesis using assms by (subst time_after_unat) auto
qed

lemma header_time_left:
  assumes "unat t0 < 2 ^ 61" and "unat now \<le> unat t0 + 100" and "unat t0 \<le> unat s" and "unat s \<le> unat t0 + 100"
  shows "\<not> time_after now (s + HZ * of_nat SLOWLORIS_TIMEOUT)"
proof -
  have "unat (s + 3000) = unat s + 3000"
    using unat_add_small [of s 3000] assms(1,4) by simp
  then have "\<not> time_after now (s + 3000)"
    using assms by (subst time_after_unat) auto
  then show ?thesis by (simp add: HZ_def SLOWLORIS_TIMEOUT_def)
qed

lemma syn_check_inv:
  assumes "syn_inv t0 k conn" and "tcp_syn tcph" "\<not> tcp_ack tcph" and "unat t0 < 2 ^ 61"
    and "unat now \<le> unat t0 + 100" and "Suc k < 2 ^ 32"
  obtains c evs d where "syn_check HZ now secs iph tcph conn = (c, evs, d)" "syn_inv t0 (Suc k) c"
    "d = (SYN_FLOOD_THRESHOLD \<le> k)" "length evs = (if k = SYN_FLOOD_THRESHOLD then 1 else 0)"
proof -
  have cnt: "unat (cs_syn_count conn + 1) = Suc k"
    using assms(1,6) by (simp add: syn_inv_def unat_word_ariths)
  have "\<not> time_after now (cs_syn_window_start conn + HZ)"
    using window_open [OF assms(4,5)] assms(1) by (simp add: syn_inv_def)
  then show ?thesis
    using assms(1-3) cnt
    by (intro that [of "if SYN_FLOOD_THRESHOLD \<le> k then conn\<lparr>cs_syn_count := cs_syn_count conn + 1, cs_is_blocked := True\<rparr>
                        else conn\<lparr>cs_syn_count := cs_syn_count conn + 1\<rparr>"
          "if k = SYN_FLOOD_THRESHOLD then [syn_flood_event secs iph tcph (cs_syn_count conn + 1)] else []"
          "SYN_FLOOD_THRESHOLD \<le> k"])
       (auto simp: syn_check_def syn_inv_def Let_def)
qed

lemma slowloris_check_inv:
  assumes "syn_inv t0 k conn" and "\<not> cs_is_blocked conn" and "unat t0 < 2 ^ 61"
    and "unat t0 \<le> unat now" "unat now \<le> unat t0 + 100"
    and "count_open_connections (Some (conns[i := zero_conn])) (ip_saddr iph) \<le> 19" and "i < length conns"
  obtains c where "slowloris_check HZ now secs iph tcph conns i conn d = (c, [], d)" "syn_inv t0 k c"
proof -
  let ?c = "start_http now conn"
  have inv: "syn_inv t0 k ?c" using assms(1,4,5) by (auto simp: syn_inv_def start_http_def)
  have start: "unat t0 \<le> unat (cs_http_start_time ?c) \<and> unat (cs_http_start_time ?c) \<le> unat t0 + 100"
    using assms(1,4,5) by (auto simp: syn_inv_def start_http_def)
  have "\<not> time_after now (cs_http_start_time ?c + HZ * of_nat SLOWLORIS_TIMEOUT)"
    using header_time_left [OF assms(3,5)] start by blast
  moreover have "\<not> count_open_connections (Some (conns[i := ?c])) (ip_saddr iph) > 20"
    using assms(6) count_open_update [OF assms(7), of ?c "ip_saddr iph"] by simp
  ultimately show ?thesis
    using that inv assms(1)
    by (cases "http_port (ntohs (tcp_dest tcph)) \<and> \<not> cs_is_http_complete conn")
       (simp_all add: slowloris_check_def Let_def)
qed

lemma track_conn_inv:
  assumes "syn_inv t0 k conn" and "tcp_syn tcph" "\<not> tcp_ack tcph" and "unat t0 < 2 ^ 61"
    and "unat t0 \<le> unat now" "unat now \<le> unat t0 + 100" and "Suc k < 2 ^ 32"
    and "count_open_connections (Some (conns[i := zero_conn])) (ip_saddr iph) \<le> 19" and "i < length conns"
  obtains c evs where "track_conn HZ now secs iph tcph conns i conn = (c, evs, SYN_FLOOD_THRESHOLD \<le> k)"
    "syn_inv t0 (Suc k) c" "length evs = (if k = SYN_FLOOD_THRESHOLD then 1 else 0)"
proof -
  let ?c0 = "count_payload iph tcph (conn\<lparr>cs_last_seen := now\<rparr>)"
  obtain c1 evs d where s: "syn_check HZ now secs iph tcph ?c0 = (c1, evs, d)" "syn_inv t0 (Suc k) c1"
    "d = (SYN_FLOOD_THRESHOLD \<le> k)" "length evs = (if k = SYN_FLOOD_THRESHOLD then 1 else 0)"
    using syn_check_inv [OF syn_inv_count_payload [OF assms(1)] assms(2-4,6,7)] by blast
  show ?thesis
  proof (cases "SYN_FLOOD_THRESHOLD \<le> k")
    case True
    then have "cs_is_blocked c1" using s(2) by (simp add: syn_inv_def)
    with True s show ?thesis by (intro that [of c1 evs]) (simp_all add: track_conn_def Let_def)
  next
    case False
    then have "\<not> cs_is_blocked c1" using s(2) by (simp add: syn_inv_def)
    then obtain c2 where l: "slowloris_check HZ now secs iph tcph conns i c1 d = (c2, [], d)" "syn_inv t0 (Suc k) c2"
      using slowloris_check_inv [OF s(2) _ assms(4-6,8,9)] by blast
    show ?thesis
      using False s l \<open>\<not> cs_is_blocked c1\<close> by (intro that [of c2 evs]) (simp_all add: track_conn_def Let_def)
  qed
qed

text \<open>One SYN packet of a run, from a slot that is free or already follows the connection.\<close>

definition syn_packet :: "u32 \<Rightarrow> u16 \<Rightarrow> iphdr \<Rightarrow> tcphdr \<Rightarrow> bool" where
  "syn_packet ip port iph tcph \<longleftrightarrow> ip_saddr iph = ip \<and> tcp_source tcph = port \<and> tcp_syn tcph \<and>
     \<not> tcp_ack tcph \<and> \<not> tcp_fin tcph \<and> \<not> tcp_rst tcph"

lemma monitor_syn_step:
  assumes pkt: "syn_packet ip port iph tcph" and i: "i = conn_index ip port" "i < length conns"
    and slot: "reclaim HZ now ip port (tcp_dest tcph) (conns ! i) = Some conn" "syn_inv t0 k conn"
    and time: "unat t0 < 2 ^ 61" "unat t0 \<le> unat now" "unat now \<le> unat t0 + 100" and k: "Suc k < 2 ^ 32"
    and others: "count_open_connections (Some (conns[i := zero_conn])) ip \<le> 19"
  obtains c evs where
    "monitor_tcp_stats HZ now secs (Some conns) iph tcph = (Some (conns[i := c]), evs, SYN_FLOOD_THRESHOLD \<le> k)"
    "syn_inv t0 (Suc k) c" "conn_key c = (ip, port)" "length evs = (if k = SYN_FLOOD_THRESHOLD then 1 else 0)"
proof -
  have others': "count_open_connections (Some (conns[i := zero_conn])) (ip_saddr iph) \<le> 19"
    and syn: "tcp_syn tcph" "\<not> tcp_ack tcph" using others pkt by (simp_all add: syn_packet_def)
  obtain c evs where t: "track_conn HZ now secs iph tcph conns i conn = (c, evs, SYN_FLOOD_THRESHOLD \<le> k)"
    "syn_inv t0 (Suc k) c" "length evs = (if k = SYN_FLOOD_THRESHOLD then 1 else 0)"
    using track_conn_inv [OF slot(2) syn time k others' i(2)] by blast
  have "conn_key c = (ip, port)" using track_conn_key [OF t(1)] reclaim_key [OF slot(1)] by simp
  then show ?thesis
    using that t pkt i slot(1) by (simp add: monitor_tcp_stats_def Let_def syn_packet_def)
qed

text \<open>The packets after the first of a run, with \<^term>\<open>k\<close> SYNs already counted.\<close>

lemma syn_run_tail:
  assumes "i = conn_index ip port" and "length conns = MAX_TRACKED_CONNS"
    and "conn_key (conns ! i) = (ip, port)" and "syn_inv t0 k (conns ! i)" and "unat t0 < 2 ^ 61"
    and "list_all (\<lambda>(now, secs, iph, tcph). syn_packet ip port iph tcph \<and> unat t0 \<le> unat now \<and>
           unat now \<le> unat t0 + 100) pkts"
    and "k + length pkts < 2 ^ 32"
    and "count_open_connections (Some (conns[i := zero_conn])) ip \<le> 19"
  shows "snd (snd (monitor_run (Some conns) pkts)) = map (\<lambda>j. SYN_FLOOD_THRESHOLD \<le> k + j) [0..<length pkts] \<and>
    length (fst (snd (monitor_run (Some conns) pkts))) =
      (if k \<le> SYN_FLOOD_THRESHOLD \<and> SYN_FLOOD_THRESHOLD < k + length pkts then 1 else 0)"
  using assms(2-)
proof (induction pkts arbitrary: conns k)
  case (Cons p pkts)
  obtain now secs iph tcph where p: "p = (now, secs, iph, tcph)" by (metis prod_cases4)
  have il: "i < length conns" using assms(1) Cons.prems(1) by simp
  have slot: "reclaim HZ now ip port (tcp_dest tcph) (conns ! i) = Some (conns ! i)"
    using Cons.prems(2) by (simp add: reclaim_def conn_key_def)
  have pkt: "syn_packet ip port iph tcph" "unat t0 \<le> unat now" "unat now \<le> unat t0 + 100" "Suc k < 2 ^ 32"
    using Cons.prems(5,6) p by simp_all
  obtain c evs where m: "monitor_tcp_stats HZ now secs (Some conns) iph tcph =
        (Some (conns[i := c]), evs, SYN_FLOOD_THRESHOLD \<le> k)" "syn_inv t0 (Suc k) c" "conn_key c = (ip, port)"
      "length evs = (if k = SYN_FLOOD_THRESHOLD then 1 else 0)"
    using monitor_syn_step [OF pkt(1) assms(1) il slot Cons.prems(3,4) pkt(2-4) Cons.prems(7)] by blast
  obtain pool' evs' ds where r: "monitor_run (Some (conns[i := c])) pkts = (pool', evs', ds)"
    by (metis prod_cases3)
  have "ds = map (\<lambda>j. SYN_FLOOD_THRESHOLD \<le> Suc k + j) [0..<length pkts] \<and>
      length evs' = (if Suc k \<le> SYN_FLOOD_THRESHOLD \<and> SYN_FLOOD_THRESHOLD < Suc k + length pkts then 1 else 0)"
    using Cons.IH [of "conns[i := c]" "Suc k"] Cons.prems m(2,3) il r by simp
  moreover have "map (\<lambda>j. SYN_FLOOD_THRESHOLD \<le> k + j) [0..<length (p # pkts)] =
      (SYN_FLOOD_THRESHOLD \<le> k) # map (\<lambda>j. SYN_FLOOD_THRESHOLD \<le> Suc k + j) [0..<length pkts]"
    unfolding length_Cons upt_conv_Cons [OF zero_less_Suc] map_Suc_upt [symmetric] by simp
  ultimately show ?case using m(1,4) r p by (simp add: Let_def)
qed simp

subsection \<open>Single-packet facts\<close>

lemma syn_check_blocked: "cs_is_blocked conn \<Longrightarrow> cs_is_blocked (fst (syn_check HZ now secs iph tcph conn))"
  by (simp add: syn_check_def Let_def)

lemma blocked_step:
  assumes "conn_key (conns ! i) = (ip_saddr iph, tcp_source tcph)" and "cs_is_blocked (conns ! i)"
    and "i = conn_index (ip_saddr iph) (tcp_source tcph)" and "\<not> tcp_fin tcph" "\<not> tcp_rst tcph"
  obtains c evs where "monitor_tcp_stats HZ now secs (Some conns) iph tcph = (Some (conns[i := c]), evs, True)"
    "cs_is_blocked c" "conn_key c = conn_key (conns ! i)"
proof -
  let ?c0 = "count_payload iph tcph ((conns ! i)\<lparr>cs_last_seen := now\<rparr>)"
  obtain c evs d where s: "syn_check HZ now secs iph tcph ?c0 = (c, evs, d)" by (metis prod_cases3)
  have "cs_is_blocked ?c0" using assms(2) by (simp add: count_payload_def)
  then have b: "cs_is_blocked c" using syn_check_blocked [of ?c0 now secs iph tcph] s by simp
  have "conn_key c = conn_key (conns ! i)" using syn_check_key [OF s] by simp
  moreover have "reclaim HZ now (ip_saddr iph) (tcp_source tcph) (tcp_dest tcph) (conns ! i) = Some (conns ! i)"
    using assms(1) by (simp add: reclaim_def conn_key_def)
  ultimately show ?thesis
    using that [of c evs] b s assms(3-) by (simp add: monitor_tcp_stats_def track_conn_def Let_def)
qed

text \<open>A tracked, unblocked connection whose packet is not a bare SYN goes through the Slowloris checks.\<close>

definition http_deadline :: "u64 \<Rightarrow> conn_state \<Rightarrow> u64" where
  "http_deadline now conn = (if cs_http_start_time conn = 0 then now else cs_http_start_time conn) + 3000"

lemma slowloris_step:
  fixes conns now secs iph tcph
  defines "ip \<equiv> ip_saddr iph" and "i \<equiv> conn_index (ip_saddr iph) (tcp_source tcph)"
  assumes key: "conn_key (conns ! i) = (ip, tcp_source tcph)" and len: "length conns = MAX_TRACKED_CONNS"
    and state: "\<not> cs_is_blocked (conns ! i)" "\<not> cs_is_http_complete (conns ! i)"
    and port: "http_port (ntohs (tcp_dest tcph))"
    and flags: "\<not> tcp_fin tcph" "\<not> tcp_rst tcph" "\<not> (tcp_syn tcph \<and> \<not> tcp_ack tcph)"
  obtains c evs where
    "monitor_tcp_stats HZ now secs (Some conns) iph tcph = (Some (conns[i := c]), evs, cs_is_blocked c)"
    "cs_is_blocked c \<longleftrightarrow> 20 < count_open_connections (Some conns) ip \<or> time_after now (http_deadline now (conns ! i))"
    "evs = [] \<longleftrightarrow> count_open_connections (Some conns) ip \<le> 20 \<and>
       (\<not> cs_is_blocked c \<or> cs_http_header_count (count_payload iph tcph (conns ! i)) = 0)"
    "conn_key c = conn_key (conns ! i)"
proof -
  let ?c0 = "count_payload iph tcph ((conns ! i)\<lparr>cs_last_seen := now\<rparr>)"
  have il: "i < length conns" using len by (simp add: i_def)
  have c0: "\<not> cs_is_blocked ?c0" "\<not> cs_is_http_complete ?c0" "conn_key ?c0 = conn_key (conns ! i)"
      "cs_http_start_time ?c0 = cs_http_start_time (conns ! i)"
      "cs_http_header_count ?c0 = cs_http_header_count (count_payload iph tcph (conns ! i))"
    using state by (simp_all add: count_payload_def conn_key_def)
  have syn: "syn_check HZ now secs iph tcph ?c0 = (?c0, [], False)"
    unfolding syn_check_def by (rule if_not_P [OF flags(3)])
  have rec: "reclaim HZ now ip (tcp_source tcph) (tcp_dest tcph) (conns ! i) = Some (conns ! i)"
    using key by (simp add: reclaim_def conn_key_def)
  have "counts_open ip (start_http now ?c0) = counts_open ip (conns ! i)"
    using c0 state by (simp add: counts_open_def start_http_def conn_key_def)
  then have cnt: "count_open_connections (Some (conns[i := start_http now ?c0])) ip = count_open_connections (Some conns) ip"
    using count_open_update [OF il, of "start_http now ?c0" ip] count_open_update [OF il, of "conns ! i" ip] by simp
  have dl: "cs_http_start_time (start_http now ?c0) + HZ * of_nat SLOWLORIS_TIMEOUT = http_deadline now (conns ! i)"
    using c0(4) by (simp add: start_http_def http_deadline_def HZ_def SLOWLORIS_TIMEOUT_def)
  have st: "\<not> cs_is_blocked (start_http now ?c0)" "conn_key (start_http now ?c0) = conn_key (conns ! i)"
      "cs_http_header_count (start_http now ?c0) = cs_http_header_count ?c0"
    using c0 by (simp_all add: start_http_def conn_key_def)
  obtain c evs d where l: "slowloris_check HZ now secs iph tcph conns i ?c0 False = (c, evs, d)" by (metis prod_cases3)
  have "d = cs_is_blocked c \<and>
      (cs_is_blocked c \<longleftrightarrow> 20 < count_open_connections (Some conns) ip \<or> time_after now (http_deadline now (conns ! i))) \<and>
      (evs = [] \<longleftrightarrow> count_open_connections (Some conns) ip \<le> 20 \<and> (\<not> cs_is_blocked c \<or> cs_http_header_count ?c0 = 0))"
    using l port c0(2) st
    unfolding slowloris_check_def Let_def ip_def [symmetric] cnt dl
    by (auto simp: word_greater_zero_iff split: if_splits)
  moreover have "conn_key c = conn_key (conns ! i)" using slowloris_check_key [OF l] c0(3) by simp
  moreover have "monitor_tcp_stats HZ now secs (Some conns) iph tcph = (Some (conns[i := c]), evs, d)"
    using flags(1,2) rec syn c0(1) l
    unfolding monitor_tcp_stats_def track_conn_def Let_def ip_def i_def by simp
  ultimately show ?thesis using that [of c evs] unfolding c0(5) by blast
qed

subsection \<open>Properties\<close>

text \<open>C32: The pool invariant (4096 records, each unused or in the slot of its own hash) is established by
  the allocation and kept by the monitor and by both HTTP registrations, whatever the packet; and a
  packet changes no record but the one its source address and port hash to.\<close>

theorem tcp_pool_invariant:
  assumes "conn_pool_ok (Some conns)" and "j \<noteq> conn_index (ip_saddr iph) (tcp_source tcph)"
  shows "conn_pool_ok (fst (init_conn_pool alloc)) \<and>
    conn_pool_ok (fst (monitor_tcp_stats hz now secs (Some conns) iph tcph)) \<and>
    conn_pool_ok (register_http_header_sent (Some conns) ip port) \<and>
    conn_pool_ok (register_http_complete (Some conns) ip port) \<and>
    the (fst (monitor_tcp_stats hz now secs (Some conns) iph tcph)) ! j = conns ! j"
proof -
  obtain c where "fst (monitor_tcp_stats hz now secs (Some conns) iph tcph) =
      Some (conns[conn_index (ip_saddr iph) (tcp_source tcph) := c])"
    using monitor_writes_slot by blast
  then have "the (fst (monitor_tcp_stats hz now secs (Some conns) iph tcph)) ! j = conns ! j"
    using assms(2) by simp
  then show ?thesis
    using init_pool_ok monitor_pool_ok [OF assms(1)] register_header_ok [OF assms(1)]
      register_complete_ok [OF assms(1)] by blast
qed

text \<open>Headers of a packet of the connection 10.0.0.9 port 4660 to port 80, and a pool that is empty.\<close>

definition sample_iph :: iphdr where
  "sample_iph = \<lparr>ip_ihl = 5, ip_tot_len = ntohs 40, ip_protocol = 6, ip_saddr = 0x0900000A, ip_daddr = 1\<rparr>"

definition sample_tcph :: "bool \<Rightarrow> bool \<Rightarrow> tcphdr" where
  "sample_tcph syn fin = \<lparr>tcp_source = 0x1234, tcp_dest = ntohs 80, tcp_doff = 5, tcp_fin = fin, tcp_syn = syn,
     tcp_rst = False, tcp_ack = False\<rparr>"

definition empty_conns :: "conn_state list" where
  "empty_conns = replicate MAX_TRACKED_CONNS zero_conn"

lemma empty_conns_nth [simp]: "i < MAX_TRACKED_CONNS \<Longrightarrow> empty_conns ! i = zero_conn"
  and length_empty_conns [simp]: "length empty_conns = MAX_TRACKED_CONNS"
  by (simp_all add: empty_conns_def)

lemma empty_conns_ok: "conn_pool_ok (Some empty_conns)"
  using init_pool_ok [of True] by (simp add: init_conn_pool_def empty_conns_def)

lemma count_open_empty: "count_open_connections (Some (empty_conns[i := zero_conn])) ip = 0"
proof -
  have "empty_conns[i := zero_conn] = empty_conns"
    by (cases "i < MAX_TRACKED_CONNS") (simp_all add: list_update_same_conv list_update_beyond)
  then show ?thesis by (simp add: count_open_eq empty_conns_def counts_open_def zero_conn_def)
qed

theorem tcp_pool_invariant_witness:
  "conn_pool_ok (Some empty_conns) \<and>
   conn_pool_ok (fst (monitor_tcp_stats HZ 7 1 (Some empty_conns) sample_iph (sample_tcph True False)))"
  using tcp_pool_invariant [OF empty_conns_ok, of "MAX_TRACKED_CONNS" sample_iph "sample_tcph True False" True HZ 7 1 0 0]
    conn_index_less [of "ip_saddr sample_iph" "tcp_source (sample_tcph True False)"] empty_conns_ok
  by (simp del: conn_index_less)



text \<open>Once a connection is blocked, by the SYN or by the Slowloris check, every further segment of it
  is dropped, however much time passes, until a FIN or RST segment clears the record.\<close>

theorem tcp_blocked_until_closed:
  assumes "length conns = MAX_TRACKED_CONNS" and "same_conn (conns ! conn_index ip port) ip port"
    and "cs_is_blocked (conns ! conn_index ip port)"
    and "list_all (\<lambda>(now, secs, iph, tcph). ip_saddr iph = ip \<and> tcp_source tcph = port \<and>
           \<not> tcp_fin tcph \<and> \<not> tcp_rst tcph) pkts"
  shows "snd (snd (monitor_run (Some conns) pkts)) = replicate (length pkts) True"
  using assms
proof (induction pkts arbitrary: conns)
  case (Cons p pkts)
  let ?i = "conn_index ip port"
  obtain now secs iph tcph where p: "p = (now, secs, iph, tcph)" by (metis prod_cases4)
  then have h: "ip_saddr iph = ip" "tcp_source tcph = port" "\<not> tcp_fin tcph" "\<not> tcp_rst tcph"
    using Cons.prems(4) by simp_all
  have key: "conn_key (conns ! ?i) = (ip_saddr iph, tcp_source tcph)"
    using Cons.prems(2) h by (simp add: same_conn_key)
  obtain c evs where m: "monitor_tcp_stats HZ now secs (Some conns) iph tcph = (Some (conns[?i := c]), evs, True)"
      "cs_is_blocked c" "conn_key c = conn_key (conns ! ?i)"
    using blocked_step [OF key Cons.prems(3) _ h(3,4)] h(1,2) by metis
  have "?i < length conns" using Cons.prems(1) by simp
  then have "snd (snd (monitor_run (Some (conns[?i := c])) pkts)) = replicate (length pkts) True"
    using Cons.IH [of "conns[?i := c]"] Cons.prems m(2,3) by (simp add: same_conn_key)
  with m(1) p show ?case by (auto simp: Let_def split: prod.split)
qed simp

theorem tcp_blocked_until_closed_witness:
  "snd (snd (monitor_run (Some (replicate MAX_TRACKED_CONNS
       (zero_conn\<lparr>cs_src_ip := 0x0900000A, cs_src_port := 0x1234, cs_is_blocked := True\<rparr>)))
     [(7, 1, sample_iph, sample_tcph True False), (999999, 9, sample_iph, sample_tcph False False)])) = [True, True]"
  using tcp_blocked_until_closed [of "replicate MAX_TRACKED_CONNS
      (zero_conn\<lparr>cs_src_ip := 0x0900000A, cs_src_port := 0x1234, cs_is_blocked := True\<rparr>)" "0x0900000A" "0x1234"
      "[(7, 1, sample_iph, sample_tcph True False), (999999, 9, sample_iph, sample_tcph False False)]"]
  by (simp add: same_conn_def sample_iph_def sample_tcph_def zero_conn_def del: monitor_run.simps)


text \<open>The first segment of a connection, on an empty pool, and the record it leaves.\<close>

lemma monitor_first_segment:
  assumes "ip_saddr iph \<noteq> 0" "\<not> tcp_fin tcph" "\<not> tcp_rst tcph" "\<not> (tcp_syn tcph \<and> \<not> tcp_ack tcph)" "http_port (ntohs (tcp_dest tcph))"
    and "unat now < 2 ^ 61"
  shows "monitor_tcp_stats HZ now secs (Some empty_conns) iph tcph =
    (Some (empty_conns[conn_index (ip_saddr iph) (tcp_source tcph) :=
       start_http now (count_payload iph tcph (fresh_conn now (ip_saddr iph) (tcp_source tcph) (tcp_dest tcph)))]), [], False)"
proof -
  let ?ip = "ip_saddr iph" and ?i = "conn_index (ip_saddr iph) (tcp_source tcph)"
  let ?f = "fresh_conn now ?ip (tcp_source tcph) (tcp_dest tcph)"
  let ?c = "count_payload iph tcph ?f"
  have rec: "reclaim HZ now ?ip (tcp_source tcph) (tcp_dest tcph) (empty_conns ! ?i) = Some ?f"
    using assms(1) by (simp add: reclaim_def zero_conn_def)
  have seen: "?f\<lparr>cs_last_seen := now\<rparr> = ?f" by (simp add: fresh_conn_def)
  have c: "\<not> cs_is_blocked ?c" "\<not> cs_is_http_complete ?c" "cs_http_start_time (start_http now ?c) = now"
    by (simp_all add: count_payload_def start_http_def fresh_conn_def zero_conn_def)
  have syn: "syn_check HZ now secs iph tcph ?c = (?c, [], False)" unfolding syn_check_def by (rule if_not_P [OF assms(4)])
  have "?i < length empty_conns" by simp
  then have few: "\<not> 20 < count_open_connections (Some (empty_conns[?i := start_http now ?c])) ?ip"
    using count_open_update [of ?i empty_conns "start_http now ?c" ?ip] count_open_empty [of ?i ?ip] by simp
  have "\<not> time_after now (now + HZ * of_nat SLOWLORIS_TIMEOUT)" using header_time_left [of now now now] assms(6) by simp
  then have "slowloris_check HZ now secs iph tcph empty_conns ?i ?c False = (start_http now ?c, [], False)"
    using assms(5) c few by (simp add: slowloris_check_def Let_def)
  then show ?thesis using rec seen syn c(1) assms(2,3) by (simp add: monitor_tcp_stats_def track_conn_def Let_def)
qed

text \<open>A connection to port 80 opens with an empty segment and is heard of again 31 seconds later.\<close>

definition slow_conns :: "conn_state list" where
  "slow_conns = the (fst (monitor_tcp_stats HZ 7 1 (Some empty_conns) sample_iph (sample_tcph False False)))"


text \<open>A FIN or RST segment always passes and releases the record of its connection, blocked or not;
  a slot another connection holds is left alone.\<close>

lemma tcp_close_releases:
  assumes "tcp_fin tcph \<or> tcp_rst tcph"
  shows "monitor_tcp_stats hz now secs (Some conns) iph tcph =
    (Some (if same_conn (conns ! conn_index (ip_saddr iph) (tcp_source tcph)) (ip_saddr iph) (tcp_source tcph)
           then conns[conn_index (ip_saddr iph) (tcp_source tcph) := zero_conn] else conns), [], False)"
  using assms by (simp add: monitor_tcp_stats_def Let_def)

text \<open>
  The segment counter is one byte. A connection that has sent 256 counted segments looks like one that
  never sent data, and its timeout block is silent.
\<close>

lemma slowloris_alert_lost_on_wrap:
  assumes "length conns = MAX_TRACKED_CONNS" and "conn = conns ! conn_index (ip_saddr iph) (tcp_source tcph)"
    and "same_conn conn (ip_saddr iph) (tcp_source tcph)" and "\<not> cs_is_blocked conn" "\<not> cs_is_http_complete conn"
    and "http_port (ntohs (tcp_dest tcph))" and "\<not> tcp_fin tcph" "\<not> tcp_rst tcph" "\<not> (tcp_syn tcph \<and> \<not> tcp_ack tcph)"
    and "cs_http_header_count conn = 255" and "tcp_payload_len iph tcph > 0"
    and "count_open_connections (Some conns) (ip_saddr iph) \<le> 20"
    and "cs_http_start_time conn \<noteq> 0" "time_after now (cs_http_start_time conn + 3000)"
  shows "fst (snd (monitor_tcp_stats HZ now secs (Some conns) iph tcph)) = [] \<and>
    snd (snd (monitor_tcp_stats HZ now secs (Some conns) iph tcph))"
proof -
  let ?i = "conn_index (ip_saddr iph) (tcp_source tcph)"
  have key: "conn_key (conns ! ?i) = (ip_saddr iph, tcp_source tcph)" using assms(2,3) by (simp add: same_conn_key)
  have state: "\<not> cs_is_blocked (conns ! ?i)" "\<not> cs_is_http_complete (conns ! ?i)" using assms(2,4,5) by simp_all
  have "cs_http_header_count (count_payload iph tcph conn) = 0"
    using assms(6,10,11) by (simp add: count_payload_def)
  then have hc: "cs_http_header_count (count_payload iph tcph (conns ! ?i)) = 0" using assms(2) by simp
  have late: "time_after now (http_deadline now (conns ! ?i))"
    using assms(2,13,14) by (simp add: http_deadline_def)
  obtain c evs where m: "monitor_tcp_stats HZ now secs (Some conns) iph tcph = (Some (conns[?i := c]), evs, cs_is_blocked c)"
    "cs_is_blocked c \<longleftrightarrow> 20 < count_open_connections (Some conns) (ip_saddr iph) \<or> time_after now (http_deadline now (conns ! ?i))"
    "evs = [] \<longleftrightarrow> count_open_connections (Some conns) (ip_saddr iph) \<le> 20 \<and>
       (\<not> cs_is_blocked c \<or> cs_http_header_count (count_payload iph tcph (conns ! ?i)) = 0)"
    by (rule slowloris_step [OF key assms(1) state assms(6-9), of now secs])
  have "cs_is_blocked c" using m(2) late by blast
  moreover have "evs = []" using m(3) hc assms(12) by blast
  ultimately show ?thesis unfolding m(1) by simp
qed

end
