(* ===== verification/Yara_Engine.thy ===== *)
theory Yara_Engine
  imports Fw_Types
begin

section \<open>YARA engine (yara\_engine.c)\<close>

text \<open>
  The inline scan of HTTP payloads and the queue of uploaded files that a worker thread scans. The
  queue is a ring of 256 slots with head and tail indices; one slot stays free. \<^verbatim>\<open>queue_lock\<close> makes each
  enqueue and dequeue one step; waiting on the condition variable is the step not being enabled.

  libyara, the thread library, the file system and the build flag \<^verbatim>\<open>HAS_YARA\<close> are the record
  \<open>yara_env\<close>: error codes, the messages a scan would deliver to the callback, file contents.

  The locale \<open>bounded_queue\<close> is the contract of a first-in first-out queue of bounded capacity, which
  the ring is shown to implement.
\<close>

subsection \<open>Model\<close>

definition QUEUE_SIZE :: nat where
  "QUEUE_SIZE = 256"

datatype yara_msg = RULE_MATCHING string | OTHER_MSG

record yara_env =
  HAS_YARA :: bool
  yr_initialize :: int
  yr_compiler_create :: int
  rules_file_opens :: bool
  yr_compiler_add_file :: int
  yr_compiler_get_rules :: int
  pthread_create :: int
  yr_rules_scan_mem :: "byte list \<Rightarrow> int \<times> yara_msg list"
  yr_rules_scan_file :: "string \<Rightarrow> int \<times> yara_msg list"
  file_contents :: "string \<Rightarrow> byte list option"
  alert_log_opens :: bool
  strdup_ok :: bool

record yara_state =
  upload_queue :: "string option list"
  queue_head :: nat
  queue_tail :: nat
  worker_running :: bool
  yara_initialized :: bool
  yara_rules_dir :: string
  compiled_rules :: bool

text \<open>The static variables before anything runs.\<close>

definition yara_boot :: yara_state where
  "yara_boot = \<lparr>upload_queue = replicate QUEUE_SIZE None, queue_head = 0, queue_tail = 0,
     worker_running = False, yara_initialized = False, yara_rules_dir = [], compiled_rules = False\<rparr>"

text \<open>The scan callback: the new content of \<^verbatim>\<open>matched\<close>, and whether it asks to abort the scan.\<close>

fun yara_scan_callback :: "yara_msg \<Rightarrow> string \<Rightarrow> string \<times> bool" where
  "yara_scan_callback (RULE_MATCHING identifier) matched = (take 127 identifier, True)"
| "yara_scan_callback OTHER_MSG matched = (matched, False)"

text \<open>libyara calls it on one message after the other until it aborts.\<close>

fun deliver :: "yara_msg list \<Rightarrow> string \<Rightarrow> string" where
  "deliver [] matched = matched"
| "deliver (msg # msgs) matched =
     (case yara_scan_callback msg matched of (m, stop) \<Rightarrow> if stop then m else deliver msgs m)"

text \<open>\<^verbatim>\<open>err == ERROR_SUCCESS && matched[0] != '\0'\<close>.\<close>

definition rules_hit :: "int \<times> yara_msg list \<Rightarrow> string option" where
  "rules_hit res = (let matched = cstr (deliver (snd res) []) in
     if fst res = 0 \<and> matched \<noteq> [] then Some matched else None)"

definition scan_mem_yara :: "yara_env \<Rightarrow> yara_state \<Rightarrow> byte list \<Rightarrow> nat \<Rightarrow> string option" where
  "scan_mem_yara env st buf max_rule_len =
     (if \<not> yara_initialized st then None
      else if HAS_YARA env then
        (if \<not> compiled_rules st then None
         else map_option (take (max_rule_len - 1)) (rules_hit (yr_rules_scan_mem env buf)))
      else if strstr_found (cstr buf) ''base64_decode('' \<or> strstr_found (cstr buf) ''system(''
      then Some (take (max_rule_len - 1) ''Mock_Webshell_Inline'')
      else None)"

definition queue_file_upload_scan :: "yara_env \<Rightarrow> yara_state \<Rightarrow> string \<Rightarrow> yara_state" where
  "queue_file_upload_scan env st filepath =
     (if \<not> yara_initialized st then st
      else let next_head = (queue_head st + 1) mod QUEUE_SIZE in
        if next_head = queue_tail st then st
        else st\<lparr>upload_queue := (upload_queue st)[queue_head st := if strdup_ok env then Some filepath else None],
                queue_head := next_head\<rparr>)"

text \<open>The locked part of one round of the worker; \<^term>\<open>None\<close> while it waits or once it has stopped.\<close>

definition worker_take :: "yara_state \<Rightarrow> (string option \<times> yara_state) option" where
  "worker_take st =
     (if worker_running st \<and> queue_head st \<noteq> queue_tail st
      then Some (upload_queue st ! queue_tail st, st\<lparr>queue_tail := (queue_tail st + 1) mod QUEUE_SIZE\<rparr>)
      else None)"

definition scan_file :: "yara_env \<Rightarrow> yara_state \<Rightarrow> string \<Rightarrow> string option" where
  "scan_file env st filepath =
     (if HAS_YARA env then
        (if compiled_rules st then rules_hit (yr_rules_scan_file env filepath) else None)
      else case file_contents env filepath of None \<Rightarrow> None
        | Some content \<Rightarrow>
            (let buf = take 4095 content in
             if buf \<noteq> [] \<and> (strstr_found (cstr buf) ''eval('' \<or> strstr_found (cstr buf) ''passthru('' \<or>
                  strstr_found (cstr buf) ''system('' \<or> strstr_found (cstr buf) ''exec('')
             then Some ''Mock_PHP_Webshell'' else None))"

text \<open>The line appended to the alert log.\<close>

definition alert_line :: "u64 \<Rightarrow> string \<Rightarrow> string \<Rightarrow> string" where
  "alert_line now matched filepath =
     ''['' @ dec_nat (unat now) @ ''] [YARA_THREAT] [CRITICAL] File upload matched YARA rule '' @ matched @
     '': '' @ filepath @ [CHR 0x0A]"

definition yara_worker_step :: "yara_env \<Rightarrow> u64 \<Rightarrow> yara_state \<Rightarrow> (yara_state \<times> string list) option" where
  "yara_worker_step env now st =
     (case worker_take st of None \<Rightarrow> None
      | Some (None, st') \<Rightarrow> Some (st', [])
      | Some (Some filepath, st') \<Rightarrow>
          (case scan_file env st' filepath of
             Some matched \<Rightarrow> Some (st', if alert_log_opens env then [alert_line now matched filepath] else [])
           | None \<Rightarrow> Some (st', [])))"

text \<open>The drain loop of the cleanup.\<close>

definition drain_dist :: "yara_state \<Rightarrow> nat" where
  "drain_dist st = (queue_head st + QUEUE_SIZE - queue_tail st) mod QUEUE_SIZE"

fun drain :: "nat \<Rightarrow> yara_state \<Rightarrow> yara_state" where
  "drain 0 st = st"
| "drain (Suc fuel) st =
     (if queue_head st \<noteq> queue_tail st
      then drain fuel (st\<lparr>queue_tail := (queue_tail st + 1) mod QUEUE_SIZE\<rparr>) else st)"

definition cleanup_yara_engine :: "yara_env \<Rightarrow> yara_state \<Rightarrow> yara_state" where
  "cleanup_yara_engine env st =
     (if \<not> yara_initialized st then st
      else let st = drain QUEUE_SIZE (st\<lparr>worker_running := False\<rparr>);
               st = (if HAS_YARA env then st\<lparr>compiled_rules := False\<rparr> else st)
           in st\<lparr>yara_initialized := False\<rparr>)"

text \<open>The rule compilation of the initialisation: whether it succeeds and whether rules were loaded.\<close>

definition compile_rules :: "yara_env \<Rightarrow> bool \<Rightarrow> bool \<times> bool" where
  "compile_rules env loaded =
     (if yr_initialize env \<noteq> 0 then (False, loaded)
      else if yr_compiler_create env \<noteq> 0 then (False, loaded)
      else if rules_file_opens env then
        (if yr_compiler_add_file env \<noteq> 0 then (False, loaded)
         else if yr_compiler_get_rules env \<noteq> 0 then (False, loaded)
         else (True, True))
      else (True, loaded))"

definition init_yara_engine :: "yara_env \<Rightarrow> yara_state \<Rightarrow> string \<Rightarrow> yara_state \<times> int" where
  "init_yara_engine env st rules_dir =
     (if yara_initialized st then (st, 0)
      else let st = st\<lparr>yara_rules_dir := take 255 rules_dir\<rparr>;
               (ok, loaded) = (if HAS_YARA env then compile_rules env (compiled_rules st) else (True, compiled_rules st));
               st = st\<lparr>compiled_rules := loaded\<rparr>
           in if \<not> ok then (st, - 1)
              else let st = st\<lparr>worker_running := True\<rparr> in
                if pthread_create env \<noteq> 0 then (cleanup_yara_engine env st, - 1)
                else (st\<lparr>yara_initialized := True\<rparr>, 0))"

subsection \<open>The ring as a list\<close>

definition ring_ok :: "yara_state \<Rightarrow> bool" where
  "ring_ok st \<longleftrightarrow> length (upload_queue st) = QUEUE_SIZE \<and> queue_head st < QUEUE_SIZE \<and> queue_tail st < QUEUE_SIZE"

definition ring_list :: "yara_state \<Rightarrow> string option list" where
  "ring_list st = map (\<lambda>k. upload_queue st ! ((queue_tail st + k) mod QUEUE_SIZE)) [0..<drain_dist st]"

lemma drain_dist_less [simp]: "drain_dist st < QUEUE_SIZE"
  by (simp add: drain_dist_def QUEUE_SIZE_def)

lemma length_ring_list [simp]: "length (ring_list st) = drain_dist st"
  by (simp add: ring_list_def)

lemma drain_dist_cases:
  assumes "ring_ok st"
  shows "drain_dist st = (if queue_tail st \<le> queue_head st then queue_head st - queue_tail st
     else queue_head st + QUEUE_SIZE - queue_tail st)"
proof (cases "queue_tail st \<le> queue_head st")
  case True
  then have "queue_head st + QUEUE_SIZE - queue_tail st = (queue_head st - queue_tail st) + QUEUE_SIZE" by simp
  moreover have "queue_head st - queue_tail st < QUEUE_SIZE" using assms unfolding ring_ok_def by linarith
  ultimately have "(queue_head st + QUEUE_SIZE - queue_tail st) mod QUEUE_SIZE = queue_head st - queue_tail st"
    by (metis mod_add_self2 mod_less)
  then show ?thesis using True by (simp add: drain_dist_def)
next
  case False
  moreover have "queue_head st + QUEUE_SIZE - queue_tail st < QUEUE_SIZE" using False assms unfolding ring_ok_def by linarith
  ultimately show ?thesis by (simp add: drain_dist_def)
qed

lemma drain_dist_zero_iff: "ring_ok st \<Longrightarrow> drain_dist st = 0 \<longleftrightarrow> queue_head st = queue_tail st"
  by (auto simp: drain_dist_cases ring_ok_def)

lemma next_index: "n < 256 \<Longrightarrow> Suc n mod 256 = (if n = 255 then 0 else Suc n)"
  by auto

lemma wrap_index: "a < QUEUE_SIZE \<Longrightarrow> b < QUEUE_SIZE \<Longrightarrow>
    (a + b) mod QUEUE_SIZE = (if a + b < QUEUE_SIZE then a + b else a + b - QUEUE_SIZE)"
  by (simp add: mod_if)

lemma ring_full_iff:
  "ring_ok st \<Longrightarrow> (queue_head st + 1) mod QUEUE_SIZE = queue_tail st \<longleftrightarrow> drain_dist st = QUEUE_SIZE - 1"
  by (auto simp: drain_dist_cases ring_ok_def next_index QUEUE_SIZE_def split: if_splits)

lemma ring_put:
  assumes "ring_ok st" and "drain_dist st < QUEUE_SIZE - 1"
  shows "ring_list (st\<lparr>upload_queue := (upload_queue st)[queue_head st := x], queue_head := (queue_head st + 1) mod QUEUE_SIZE\<rparr>)
      = ring_list st @ [x]"
proof -
  let ?st = "st\<lparr>upload_queue := (upload_queue st)[queue_head st := x], queue_head := (queue_head st + 1) mod QUEUE_SIZE\<rparr>"
  have ok: "ring_ok ?st" using assms(1) by (simp add: ring_ok_def QUEUE_SIZE_def)
  have dist: "drain_dist ?st = Suc (drain_dist st)"
    using assms unfolding drain_dist_cases [OF ok] drain_dist_cases [OF assms(1)]
    by (auto simp: ring_ok_def next_index QUEUE_SIZE_def split: if_splits)
  have last: "(queue_tail st + drain_dist st) mod QUEUE_SIZE = queue_head st"
    using assms(1) by (auto simp: drain_dist_cases ring_ok_def)
  have other: "(queue_tail st + k) mod QUEUE_SIZE \<noteq> queue_head st" if "k < drain_dist st" for k
  proof -
    have lt: "queue_tail st < QUEUE_SIZE" "drain_dist st < QUEUE_SIZE" "k < QUEUE_SIZE"
      using assms(1) that drain_dist_less [of st] by (simp_all add: ring_ok_def del: drain_dist_less)
    show ?thesis
      using that last lt unfolding wrap_index [OF lt(1,3)] wrap_index [OF lt(1,2)]
      by (auto split: if_splits simp del: drain_dist_less)
  qed
  have "queue_head st < length (upload_queue st)" using assms(1) by (simp add: ring_ok_def)
  then show ?thesis
    unfolding ring_list_def [of ?st] dist using last
    by (auto simp: ring_list_def intro!: nth_list_update_neq dest!: other)
qed

lemma ring_get:
  assumes "ring_ok st" and "queue_head st \<noteq> queue_tail st"
  shows "ring_list st = upload_queue st ! queue_tail st # ring_list (st\<lparr>queue_tail := (queue_tail st + 1) mod QUEUE_SIZE\<rparr>)"
proof -
  let ?st = "st\<lparr>queue_tail := (queue_tail st + 1) mod QUEUE_SIZE\<rparr>"
  have ok: "ring_ok ?st" using assms(1) by (simp add: ring_ok_def QUEUE_SIZE_def)
  have dist: "drain_dist st = Suc (drain_dist ?st)"
    using assms unfolding drain_dist_cases [OF ok] drain_dist_cases [OF assms(1)]
    by (auto simp: ring_ok_def next_index QUEUE_SIZE_def split: if_splits)
  have "((queue_tail st + 1) mod QUEUE_SIZE + k) mod QUEUE_SIZE = (queue_tail st + Suc k) mod QUEUE_SIZE" for k
    by (simp add: mod_add_left_eq)
  then have "ring_list ?st = map (\<lambda>k. upload_queue st ! ((queue_tail st + Suc k) mod QUEUE_SIZE)) [0..<drain_dist ?st]"
    by (simp add: ring_list_def)
  moreover have "ring_list st = upload_queue st ! ((queue_tail st + 0) mod QUEUE_SIZE) #
      map (\<lambda>k. upload_queue st ! ((queue_tail st + Suc k) mod QUEUE_SIZE)) [0..<drain_dist ?st]"
    unfolding ring_list_def dist upt_conv_Cons [OF zero_less_Suc] map_Suc_upt [symmetric] by (simp add: comp_def)
  ultimately show ?thesis using assms(1) by (simp add: ring_ok_def)
qed

subsection \<open>The interface of the upload queue\<close>

text \<open>
  What the inotify watcher and the worker rely on: while there is room an element goes to the back of
  the line, when there is none it is refused, and elements leave from the front.
\<close>

locale bounded_queue =
  fixes ok :: "'q \<Rightarrow> bool"
    and items :: "'q \<Rightarrow> 'a list"
    and capacity :: nat
    and enq :: "'q \<Rightarrow> 'a \<Rightarrow> 'q"
    and deq :: "'q \<Rightarrow> ('a \<times> 'q) option"
  assumes enq_ok: "ok q \<Longrightarrow> ok (enq q x)"
    and items_enq: "ok q \<Longrightarrow> items (enq q x) = (if length (items q) < capacity then items q @ [x] else items q)"
    and deq_Nil: "ok q \<Longrightarrow> items q = [] \<Longrightarrow> deq q = None"
    and deq_Cons: "ok q \<Longrightarrow> items q = x # xs \<Longrightarrow> \<exists>q'. deq q = Some (x, q') \<and> ok q' \<and> items q' = xs"
begin

lemma enqs_ok: "ok q \<Longrightarrow> ok (foldl enq q xs)"
  by (induction xs arbitrary: q) (auto simp: enq_ok)

text \<open>A burst is accepted up to the free capacity, in order; the rest of it is refused.\<close>

lemma items_enqs:
  assumes "ok q" and "length (items q) \<le> capacity"
  shows "items (foldl enq q xs) = items q @ take (capacity - length (items q)) xs"
  using assms
proof (induction xs arbitrary: q)
  case (Cons x xs)
  have ok': "ok (enq q x)" using Cons.prems(1) by (rule enq_ok)
  show ?case
  proof (cases "length (items q) < capacity")
    case True
    then have "items (enq q x) = items q @ [x]" using Cons.prems by (simp add: items_enq)
    then show ?thesis using Cons.IH [OF ok'] True by (simp add: take_Cons' Suc_diff_Suc)
  next
    case False
    then have "items (enq q x) = items q" using Cons.prems by (simp add: items_enq)
    then show ?thesis using Cons.IH [OF ok'] Cons.prems(2) False by simp
  qed
qed simp

end

text \<open>The worker's view: only the part of the state the queue lives in, with the engine running.\<close>

definition ring_running :: "yara_state \<Rightarrow> bool" where
  "ring_running st \<longleftrightarrow> ring_ok st \<and> yara_initialized st \<and> worker_running st"

interpretation uploads: bounded_queue ring_running ring_list "QUEUE_SIZE - 1"
  "\<lambda>st filepath. queue_file_upload_scan (env\<lparr>strdup_ok := filepath \<noteq> None\<rparr>) st (the filepath)" worker_take
  for env :: yara_env
proof
  fix st x
  assume ok: "ring_running st"
  then have ring: "ring_ok st" "yara_initialized st" by (simp_all add: ring_running_def)
  let ?enq = "queue_file_upload_scan (env\<lparr>strdup_ok := x \<noteq> None\<rparr>) st (the x)"
  have dup: "(if x \<noteq> None then Some (the x) else None) = x" by (cases x) simp_all
  show "ring_running ?enq"
    using ok by (auto simp: ring_running_def queue_file_upload_scan_def ring_ok_def Let_def QUEUE_SIZE_def)
  show "ring_list ?enq = (if length (ring_list st) < QUEUE_SIZE - 1 then ring_list st @ [x] else ring_list st)"
  proof (cases "drain_dist st < QUEUE_SIZE - 1")
    case True
    then have "(queue_head st + 1) mod QUEUE_SIZE \<noteq> queue_tail st" using ring_full_iff [OF ring(1)] by simp
    then show ?thesis
      using True ring_put [OF ring(1) True, of x] ring(2) dup
      by (simp add: queue_file_upload_scan_def Let_def)
  next
    case False
    then have "drain_dist st = QUEUE_SIZE - 1" using drain_dist_less [of st] by linarith
    then have "(queue_head st + 1) mod QUEUE_SIZE = queue_tail st" using ring_full_iff [OF ring(1)] by simp
    then show ?thesis using False by (simp add: queue_file_upload_scan_def Let_def)
  qed
next
  fix st
  assume ok: "ring_running st"
  then have ring: "ring_ok st" "worker_running st" by (simp_all add: ring_running_def)
  show "worker_take st = None" if "ring_list st = []"
  proof -
    have "drain_dist st = 0" using that length_ring_list [of st] by simp
    then show ?thesis using drain_dist_zero_iff [OF ring(1)] by (simp add: worker_take_def)
  qed
  show "\<exists>q'. worker_take st = Some (x, q') \<and> ring_running q' \<and> ring_list q' = xs" if "ring_list st = x # xs" for x xs
  proof -
    have "queue_head st \<noteq> queue_tail st"
      using that drain_dist_zero_iff [OF ring(1)] length_ring_list [of st] by auto
    with ring_get [OF ring(1) this] that ok show ?thesis
      by (auto simp: worker_take_def ring_running_def ring_ok_def QUEUE_SIZE_def)
  qed
qed

lemma drain_empties:
  assumes "ring_ok st" and "drain_dist st \<le> fuel"
  shows "queue_head (drain fuel st) = queue_tail (drain fuel st) \<and> ring_ok (drain fuel st)"
  using assms
proof (induction fuel st rule: drain.induct)
  case (1 st)
  then show ?case using drain_dist_zero_iff [of st] by simp
next
  case (2 fuel st)
  show ?case
  proof (cases "queue_head st = queue_tail st")
    case False
    let ?st = "st\<lparr>queue_tail := (queue_tail st + 1) mod QUEUE_SIZE\<rparr>"
    have "ring_ok ?st" using "2.prems"(1) by (simp add: ring_ok_def QUEUE_SIZE_def)
    moreover have "drain_dist st = Suc (drain_dist ?st)"
      using arg_cong [OF ring_get [OF "2.prems"(1) False], of length] by simp
    ultimately show ?thesis using "2.IH" "2.prems"(2) False by simp
  qed (use 2 in simp)
qed

lemma deliver_length: "length matched \<le> 127 \<Longrightarrow> length (deliver msgs matched) \<le> 127"
proof (induction msgs arbitrary: matched)
  case (Cons msg msgs)
  then show ?case by (cases msg) auto
qed simp

lemma rules_hit_length: "rules_hit res = Some m \<Longrightarrow> length m \<le> 127"
  using deliver_length [of "[]" "snd res"] length_cstr [of "deliver (snd res) []"]
  by (auto simp: rules_hit_def Let_def split: if_splits)

lemma boot_ring_ok [pool_inv]: "ring_ok yara_boot"
  by (simp add: ring_ok_def yara_boot_def QUEUE_SIZE_def)

lemma enqueue_ring_ok [pool_inv]: "ring_ok st \<Longrightarrow> ring_ok (queue_file_upload_scan env st filepath)"
  by (auto simp: queue_file_upload_scan_def ring_ok_def Let_def QUEUE_SIZE_def)

lemma worker_ring_ok [pool_inv]: "ring_ok st \<Longrightarrow> yara_worker_step env now st = Some (st', lines) \<Longrightarrow> ring_ok st'"
  by (auto simp: yara_worker_step_def worker_take_def ring_ok_def QUEUE_SIZE_def split: option.splits if_splits)

lemma cleanup_ring_ok [pool_inv]: "ring_ok st \<Longrightarrow> ring_ok (cleanup_yara_engine env st)"
  using drain_empties [of "st\<lparr>worker_running := False\<rparr>" QUEUE_SIZE] drain_dist_less [of "st\<lparr>worker_running := False\<rparr>"]
  by (simp add: cleanup_yara_engine_def Let_def ring_ok_def del: drain_dist_less)

lemma init_ring_ok [pool_inv]: "ring_ok st \<Longrightarrow> ring_ok (fst (init_yara_engine env st dir))"
  using cleanup_ring_ok
  by (simp add: init_yara_engine_def Let_def ring_ok_def split: prod.split)

text \<open>A burst of uploads whose paths can be copied.\<close>

lemma enqueue_burst:
  assumes "ring_running st" and "strdup_ok env"
  shows "ring_list (foldl (queue_file_upload_scan env) st files) = ring_list st @ take (255 - length (ring_list st)) (map Some files)"
proof -
  have "queue_file_upload_scan (env\<lparr>strdup_ok := Some f \<noteq> None\<rparr>) st f = queue_file_upload_scan env st f" for st f
    using assms(2) by (simp add: queue_file_upload_scan_def)
  then have "foldl (queue_file_upload_scan env) st files =
      foldl (\<lambda>st filepath. queue_file_upload_scan (env\<lparr>strdup_ok := filepath \<noteq> None\<rparr>) st (the filepath)) st (map Some files)"
    by (induction files arbitrary: st) simp_all
  moreover have "length (ring_list st) \<le> QUEUE_SIZE - 1" using drain_dist_less [of st] by (simp del: drain_dist_less)
  ultimately show ?thesis using uploads.items_enqs [OF assms(1), of env "map Some files"] by (simp add: QUEUE_SIZE_def)
qed

subsection \<open>Properties\<close>

text \<open>C35: The ring implements a first-in first-out queue of 255 paths. A burst of uploads, from any state
  of the running engine, is queued in order behind what is already there, up to 255 in all; the rest of
  the burst is dropped and nothing queued is lost. A worker that runs takes the oldest path, and only
  that one, whenever there is one.\<close>

theorem yara_queue_fifo:
  assumes "ring_running st" and "strdup_ok env"
  shows "ring_list (foldl (queue_file_upload_scan env) st files) =
      ring_list st @ take (255 - length (ring_list st)) (map Some files) \<and>
    (case ring_list st of [] \<Rightarrow> worker_take st = None
     | x # xs \<Rightarrow> (case worker_take st of None \<Rightarrow> False | Some (y, st') \<Rightarrow> y = x \<and> ring_list st' = xs))"
proof
  show "case ring_list st of [] \<Rightarrow> worker_take st = None
     | x # xs \<Rightarrow> (case worker_take st of None \<Rightarrow> False | Some (y, st') \<Rightarrow> y = x \<and> ring_list st' = xs)"
    using uploads.deq_Nil [OF assms(1)] uploads.deq_Cons [OF assms(1)] by (auto split: list.split)
qed (rule enqueue_burst [OF assms])

text \<open>A build without libyara, with nothing on disk.\<close>

definition mock_yara :: yara_env where
  "mock_yara = \<lparr>HAS_YARA = False, yr_initialize = 0, yr_compiler_create = 0, rules_file_opens = False,
     yr_compiler_add_file = 0, yr_compiler_get_rules = 0, pthread_create = 0,
     yr_rules_scan_mem = (\<lambda>_. (0, [])), yr_rules_scan_file = (\<lambda>_. (0, [])),
     file_contents = (\<lambda>_. None), alert_log_opens = True, strdup_ok = True\<rparr>"

lemma mock_started: "ring_running (fst (init_yara_engine mock_yara yara_boot ''/r''))"
    "ring_list (fst (init_yara_engine mock_yara yara_boot ''/r'')) = []"
  by (simp_all add: ring_running_def ring_ok_def init_yara_engine_def mock_yara_def yara_boot_def QUEUE_SIZE_def
      ring_list_def drain_dist_def)

theorem yara_queue_fifo_witness:
  "ring_list (foldl (queue_file_upload_scan mock_yara) (fst (init_yara_engine mock_yara yara_boot ''/r''))
     [''/u/a.php'', ''/u/b.php'']) = [Some ''/u/a.php'', Some ''/u/b.php'']"
proof -
  have "strdup_ok mock_yara" by (simp add: mock_yara_def)
  then show ?thesis
    using yara_queue_fifo [OF mock_started(1), of mock_yara "[''/u/a.php'', ''/u/b.php'']"] mock_started(2) by simp
qed

text \<open>Every start of the engine ends in one of two states: it reports success and is initialised with
  its worker running, or it reports -1 and is not initialised; the ring is well formed in both. Shutting
  a started engine down always ends: the drain loop needs fewer rounds than the ring has slots and
  leaves the queue empty, the worker stopped and the engine not initialised.\<close>

theorem yara_lifecycle:
  assumes "ring_ok st"
  shows "snd (init_yara_engine env st dir) \<in> {0, - 1} \<and>
    yara_initialized (fst (init_yara_engine env st dir)) = (snd (init_yara_engine env st dir) = 0) \<and>
    ring_ok (fst (init_yara_engine env st dir)) \<and>
    yara_initialized (cleanup_yara_engine env st) = False \<and>
    (worker_running (cleanup_yara_engine env st) \<and> yara_initialized st) = False \<and>
    (queue_head (cleanup_yara_engine env st) = queue_tail (cleanup_yara_engine env st) \<or> \<not> yara_initialized st)"
proof -
  have run: "worker_running (drain fuel s) = worker_running s" for fuel s
    by (induction fuel s rule: drain.induct) auto
  have "ring_ok (st\<lparr>worker_running := False\<rparr>)" using assms by (simp add: ring_ok_def)
  then have "queue_head (drain QUEUE_SIZE (st\<lparr>worker_running := False\<rparr>)) = queue_tail (drain QUEUE_SIZE (st\<lparr>worker_running := False\<rparr>))"
    using drain_empties less_imp_le [OF drain_dist_less] by blast
  then have "yara_initialized (cleanup_yara_engine env st) = False"
    "(worker_running (cleanup_yara_engine env st) \<and> yara_initialized st) = False"
    "queue_head (cleanup_yara_engine env st) = queue_tail (cleanup_yara_engine env st) \<or> \<not> yara_initialized st"
    by (auto simp: cleanup_yara_engine_def Let_def run)
  moreover have "snd (init_yara_engine env st dir) \<in> {0, - 1}"
    "yara_initialized (fst (init_yara_engine env st dir)) = (snd (init_yara_engine env st dir) = 0)"
    by (auto simp: init_yara_engine_def cleanup_yara_engine_def Let_def split: prod.split)
  ultimately show ?thesis using init_ring_ok [OF assms] by blast
qed

theorem yara_lifecycle_witness:
  "yara_initialized (fst (init_yara_engine mock_yara yara_boot ''/r'')) \<and>
   \<not> yara_initialized (cleanup_yara_engine mock_yara (fst (init_yara_engine mock_yara yara_boot ''/r'')))"
  using yara_lifecycle [OF boot_ring_ok, of mock_yara "''/r''"]
    yara_lifecycle [OF init_ring_ok [OF boot_ring_ok], of mock_yara mock_yara "''/r''"]
  by (simp add: init_yara_engine_def mock_yara_def yara_boot_def)

end
