(* ===== verification/Http_Inspect.thy ===== *)
theory Http_Inspect
  imports Sqli_Detect Cmdi_Detect Path_Detect Bot_Detect Ip_Reputation Tcp_Monitor Yara_Engine
begin

section \<open>HTTP payload inspection (http\_inspect.c)\<close>

text \<open>
  \<^verbatim>\<open>inspect_http_payload\<close> takes the TCP payload of a packet to port 80, tells the connection monitor
  about it, decodes up to 2048 bytes of it once and runs seven scans in order: SQL injection, command
  injection, path traversal, bots, PHP shell signatures, XSS signatures, YARA. The first that matches
  sends one event, damages the source's reputation and drops the packet.

  The scans only read; \<open>http_scan\<close> is the order of the scans with what each would report, and
  \<open>inspect_http_payload\<close> adds the effects every branch has: the event, the damage, the return value.
  Whether \<^verbatim>\<open>pskb_may_pull\<close> can make a number of bytes readable is the function \<open>he_may_pull\<close>; in the daemon the macro of that name is
  constantly true.
\<close>

subsection \<open>Model\<close>

record http_env =
  he_secs :: u64
  he_oob :: "nat \<Rightarrow> byte"
  he_junk :: string
  he_yara :: yara_env
  he_may_pull :: "nat \<Rightarrow> bool"

definition php_signatures :: "string list" where
  "php_signatures =
     [''eval('', ''base64_decode('', ''system('', ''passthru('', ''exec('', ''shell_exec('', ''popen('', ''proc_open('']"

definition xss_signatures :: "string list" where
  "xss_signatures = [''<script>'', ''javascript:'', ''onerror='', ''onload='', ''<img'', ''alert('']"

text \<open>What a matching scan reports: threat, severity, the two texts of the event, and the damage.\<close>

record http_alert =
  ha_threat :: threat
  ha_severity :: severity
  ha_preview :: string
  ha_details :: string
  ha_damage :: int

definition path_threat :: "string \<Rightarrow> threat" where
  "path_threat pattern =
     (if strstr_found pattern ''RFI'' then THREAT_RFI
      else if strstr_found pattern ''LFI'' then THREAT_LFI else THREAT_PATH_TRAV)"

definition detector_alert :: "threat \<Rightarrow> severity \<Rightarrow> int \<Rightarrow> det_result \<Rightarrow> http_alert" where
  "detector_alert th sev damage r =
     \<lparr>ha_threat = th, ha_severity = sev, ha_preview = snprintf_buf 128 (dr_pattern r),
      ha_details = snprintf_buf 256 (dr_details r), ha_damage = damage\<rparr>"

definition signature_alert :: "threat \<Rightarrow> severity \<Rightarrow> int \<Rightarrow> string \<Rightarrow> string \<Rightarrow> byte list \<Rightarrow> http_alert" where
  "signature_alert th sev damage label sig payload =
     \<lparr>ha_threat = th, ha_severity = sev, ha_preview = snprintf_buf 128 (label @ take 100 sig),
      ha_details = take 255 payload, ha_damage = damage\<rparr>"

definition yara_alert :: "string \<Rightarrow> http_alert" where
  "yara_alert pattern =
     \<lparr>ha_threat = THREAT_YARA, ha_severity = SEVERITY_CRITICAL,
      ha_preview = snprintf_buf 128 (''YARA matched: '' @ take 100 pattern),
      ha_details = snprintf_buf 256 (''HTTP payload triggered inline YARA rule '' @ take 100 pattern),
      ha_damage = 30\<rparr>"

text \<open>The signature and YARA scans, steps 5 to 7.\<close>

definition signature_scan :: "http_env \<Rightarrow> yara_state \<Rightarrow> byte list \<Rightarrow> http_alert option" where
  "signature_scan env ys payload =
     (case find (\<lambda>sig. k_strstr payload sig \<noteq> None) php_signatures of
        Some sig \<Rightarrow> Some (signature_alert THREAT_PHP_SHELL SEVERITY_CRITICAL 25 ''PHP Shell: '' sig payload)
      | None \<Rightarrow>
          (case find (\<lambda>sig. k_stristr payload sig \<noteq> None) xss_signatures of
             Some sig \<Rightarrow> Some (signature_alert THREAT_XSS SEVERITY_WARNING 10 ''XSS Detected: '' sig payload)
           | None \<Rightarrow> map_option yara_alert (scan_mem_yara (he_yara env) ys payload 128)))"

definition http_scan :: "http_env \<Rightarrow> yara_state \<Rightarrow> byte list \<Rightarrow> http_alert option" where
  "http_scan env ys payload =
     (let sqli = detect_sqli (he_junk env) payload 128 256; cmdi = detect_cmdi payload 128 256;
          path = detect_path_traversal payload 128 256; bot = detect_bot payload 128 256
      in if dr_score sqli \<ge> 40 then Some (detector_alert THREAT_SQLI SEVERITY_CRITICAL 20 sqli)
         else if dr_score cmdi \<ge> 40 then Some (detector_alert THREAT_CMDI SEVERITY_CRITICAL 20 cmdi)
         else if dr_score path \<ge> 40
         then Some (detector_alert (path_threat (dr_pattern path)) SEVERITY_CRITICAL 20 path)
         else if dr_score bot \<ge> 40 then Some (detector_alert THREAT_BOT SEVERITY_INFO 15 bot)
         else signature_scan env ys payload)"

definition http_event :: "u64 \<Rightarrow> iphdr \<Rightarrow> tcphdr \<Rightarrow> http_alert \<Rightarrow> fw_event" where
  "http_event secs iph tcph a =
     \<lparr>ev_timestamp = secs, ev_src_ip = ip_saddr iph, ev_dest_ip = ip_daddr iph,
      ev_src_port = tcp_source tcph, ev_dest_port = tcp_dest tcph, ev_threat_type = ha_threat a,
      ev_severity = ha_severity a, ev_payload_preview = ha_preview a, ev_details = ha_details a\<rparr>"

text \<open>The raw bytes that are scanned, at most 2048, and the registration with the connection monitor.\<close>

definition raw_payload :: "http_env \<Rightarrow> sk_buff \<Rightarrow> iphdr \<Rightarrow> tcphdr \<Rightarrow> byte list" where
  "raw_payload env skb iph tcph =
     (let payload_offset = ip_ihl iph * 4 + tcp_doff tcph * 4; payload_len = nat (tcp_payload_len iph tcph)
      in skb_bytes (he_oob env) skb payload_offset (if payload_len > 2048 then 2048 else payload_len))"

definition CRLFCRLF :: string where
  "CRLFCRLF = [CHR 0x0D, CHR 0x0A, CHR 0x0D, CHR 0x0A]"

definition register_http :: "conn_pool \<Rightarrow> u32 \<Rightarrow> u16 \<Rightarrow> byte list \<Rightarrow> conn_pool" where
  "register_http pool ip port raw =
     (let pool = register_http_header_sent pool ip port
      in if k_strstr raw CRLFCRLF \<noteq> None then register_http_complete pool ip port else pool)"

text \<open>The bytes asked of \<^verbatim>\<open>pskb_may_pull\<close>: the headers and at most 1024 bytes after them.\<close>

definition pull_len :: "iphdr \<Rightarrow> tcphdr \<Rightarrow> nat" where
  "pull_len iph tcph =
     (let payload_offset = ip_ihl iph * 4 + tcp_doff tcph * 4; payload_len = nat (tcp_payload_len iph tcph)
      in payload_offset + (if payload_len > 1024 then 1024 else payload_len))"

definition inspect_http_payload ::
    "http_env \<Rightarrow> yara_state \<Rightarrow> conn_pool \<Rightarrow> reputation_table \<Rightarrow> sk_buff \<Rightarrow> iphdr \<Rightarrow> tcphdr \<Rightarrow>
     conn_pool \<times> reputation_table \<times> fw_event list \<times> bool" where
  "inspect_http_payload env ys pool rep skb iph tcph =
     (if tcp_payload_len iph tcph \<le> 0 then (pool, rep, [], False)
      else if \<not> he_may_pull env (pull_len iph tcph) then (pool, rep, [], False)
      else let raw = raw_payload env skb iph tcph;
               iph = ip_hdr (he_oob env) skb; tcph = tcp_hdr (he_oob env) skb;
               pool = register_http pool (ip_saddr iph) (tcp_source tcph) raw;
               payload = http_url_decode raw 4096
           in case http_scan env ys payload of
                None \<Rightarrow> (pool, rep, [], False)
              | Some a \<Rightarrow>
                  (pool, fst (update_ip_reputation (he_secs env) rep (ip_saddr iph) (ha_damage a) (threat_code (ha_threat a))),
                   [http_event (he_secs env) iph tcph a], True))"

subsection \<open>Lemmas\<close>

lemma raw_payload_length [len_bounds]: "length (raw_payload env skb iph tcph) \<le> 2048"
  by (simp add: raw_payload_def Let_def)

lemma register_http_ok [pool_inv]: "conn_pool_ok pool \<Longrightarrow> conn_pool_ok (register_http pool ip port raw)"
  by (simp add: register_http_def Let_def register_header_ok register_complete_ok)

lemma inspect_pool_ok [pool_inv]:
  "conn_pool_ok pool \<Longrightarrow> conn_pool_ok (fst (inspect_http_payload env ys pool rep skb iph tcph))"
  by (simp add: inspect_http_payload_def Let_def register_http_ok split: option.split)

lemma inspect_rep_ok [pool_inv]:
  "rep_ok rep \<Longrightarrow> rep_ok (fst (snd (inspect_http_payload env ys pool rep skb iph tcph)))"
  by (simp add: inspect_http_payload_def Let_def update_rep_ok split: option.split)

text \<open>The damage of each threat, as the branches have it.\<close>

definition http_damage :: "(threat \<times> int) set" where
  "http_damage = {(THREAT_SQLI, 20), (THREAT_CMDI, 20), (THREAT_PATH_TRAV, 20), (THREAT_LFI, 20), (THREAT_RFI, 20),
     (THREAT_BOT, 15), (THREAT_PHP_SHELL, 25), (THREAT_XSS, 10), (THREAT_YARA, 30)}"

definition alert_ok :: "http_alert \<Rightarrow> bool" where
  "alert_ok a \<longleftrightarrow> (ha_threat a, ha_damage a) \<in> http_damage \<and> length (ha_preview a) < 128 \<and> length (ha_details a) < 256"

lemma detector_alert_ok: "(th, d) \<in> http_damage \<Longrightarrow> alert_ok (detector_alert th sev d r)"
  by (simp add: alert_ok_def detector_alert_def length_snprintf_buf)

lemma signature_alert_ok: "(th, d) \<in> http_damage \<Longrightarrow> alert_ok (signature_alert th sev d label sig payload)"
  by (simp add: alert_ok_def signature_alert_def length_snprintf_buf less_Suc_eq_le)

lemma yara_alert_ok: "alert_ok (yara_alert pattern)"
  by (simp add: alert_ok_def yara_alert_def length_snprintf_buf http_damage_def)

lemma damages:
  "(THREAT_SQLI, 20) \<in> http_damage" "(THREAT_CMDI, 20) \<in> http_damage" "(path_threat p, 20) \<in> http_damage"
  "(THREAT_BOT, 15) \<in> http_damage" "(THREAT_PHP_SHELL, 25) \<in> http_damage" "(THREAT_XSS, 10) \<in> http_damage"
  by (simp_all add: http_damage_def path_threat_def)

lemma signature_scan_ok:
  assumes "signature_scan env ys payload = Some a"
  shows "alert_ok a"
  using assms signature_alert_ok [OF damages(5)] signature_alert_ok [OF damages(6)] yara_alert_ok
  unfolding signature_scan_def by (auto split: option.split_asm)

lemma http_scan_ok:
  assumes "http_scan env ys payload = Some a"
  shows "alert_ok a"
proof -
  from assms consider r where "a = detector_alert THREAT_SQLI SEVERITY_CRITICAL 20 r"
    | r where "a = detector_alert THREAT_CMDI SEVERITY_CRITICAL 20 r"
    | r p where "a = detector_alert (path_threat p) SEVERITY_CRITICAL 20 r"
    | r where "a = detector_alert THREAT_BOT SEVERITY_INFO 15 r"
    | "signature_scan env ys payload = Some a"
    unfolding http_scan_def Let_def
    by (simp only: option.inject split: if_split_asm) blast+
  then show ?thesis
    using detector_alert_ok [OF damages(1)] detector_alert_ok [OF damages(2)] detector_alert_ok [OF damages(3)]
      detector_alert_ok [OF damages(4)] signature_scan_ok by cases blast+
qed

text \<open>A payload is clean exactly when none of the seven scans matches.\<close>

lemma http_scan_None_iff:
  "http_scan env ys payload = None \<longleftrightarrow>
     dr_score (detect_sqli (he_junk env) payload 128 256) < 40 \<and> dr_score (detect_cmdi payload 128 256) < 40 \<and>
     dr_score (detect_path_traversal payload 128 256) < 40 \<and> dr_score (detect_bot payload 128 256) < 40 \<and>
     \<not> list_ex (\<lambda>sig. sublist sig payload) php_signatures \<and>
     \<not> list_ex (\<lambda>sig. sublist (map tolower sig) (map tolower payload)) xss_signatures \<and>
     scan_mem_yara (he_yara env) ys payload 128 = None"
proof -
  have "(find (\<lambda>sig. k_strstr payload sig \<noteq> None) php_signatures = None) =
      (\<not> list_ex (\<lambda>sig. sublist sig payload) php_signatures)"
    by (auto simp: find_None_iff k_strstr_strstr strstr_eq_None_iff [symmetric] list_ex_iff)
  moreover have "(find (\<lambda>sig. k_stristr payload sig \<noteq> None) xss_signatures = None) =
      (\<not> list_ex (\<lambda>sig. sublist (map tolower sig) (map tolower payload)) xss_signatures)"
    by (auto simp: find_None_iff k_stristr_strstr strstr_eq_None_iff [symmetric] list_ex_iff)
  ultimately show ?thesis
    unfolding http_scan_def signature_scan_def Let_def by (auto split: option.splits if_splits)
qed

lemma http_scan_oob: "http_scan (env\<lparr>he_oob := oob\<rparr>) ys payload = http_scan env ys payload"
proof -
  have "signature_scan (env\<lparr>he_oob := oob\<rparr>) = signature_scan env"
    by (intro ext) (simp add: signature_scan_def cong: option.case_cong)
  then show ?thesis by (simp add: http_scan_def Let_def cong: if_cong)
qed

lemma http_url_decode_encoded:
  "length bs < 4096 \<Longrightarrow> http_url_decode (concat (map percent_encode bs)) 4096 = bs"
  using http_dec.decode_encoded [of 4096 0 bs] by (simp add: http_url_decode_def)

lemma length_percent_encoded: "length (concat (map percent_encode bs)) = 3 * length bs"
  by (induction bs) (simp_all add: percent_encode_def)

lemma inspect_oob_raw:
  assumes "raw_payload (env\<lparr>he_oob := oob\<rparr>) skb iph tcph = raw_payload env skb iph tcph"
    and "ip_hdr oob skb = ip_hdr (he_oob env) skb" and "tcp_hdr oob skb = tcp_hdr (he_oob env) skb"
  shows "inspect_http_payload (env\<lparr>he_oob := oob\<rparr>) ys pool rep skb iph tcph =
    inspect_http_payload env ys pool rep skb iph tcph"
  using assms by (simp add: inspect_http_payload_def http_scan_oob Let_def cong: if_cong option.case_cong)

text \<open>Only whether the payload can be pulled matters of \<^verbatim>\<open>pskb_may_pull\<close>.\<close>

lemma inspect_pull:
  assumes "f (pull_len iph tcph) = he_may_pull env (pull_len iph tcph)"
  shows "inspect_http_payload (env\<lparr>he_may_pull := f\<rparr>) ys pool rep skb iph tcph = inspect_http_payload env ys pool rep skb iph tcph"
proof -
  have sig: "signature_scan (env\<lparr>he_may_pull := f\<rparr>) = signature_scan env"
    by (intro ext) (simp add: signature_scan_def cong: option.case_cong)
  have "http_scan (env\<lparr>he_may_pull := f\<rparr>) = http_scan env" by (intro ext) (simp add: http_scan_def sig Let_def cong: if_cong)
  moreover have "raw_payload (env\<lparr>he_may_pull := f\<rparr>) = raw_payload env" by (intro ext) (simp add: raw_payload_def Let_def)
  ultimately show ?thesis using assms by (simp add: inspect_http_payload_def Let_def cong: if_cong option.case_cong)
qed

lemma inspect_unpulled: "\<not> he_may_pull env (pull_len iph tcph) \<Longrightarrow> inspect_http_payload env ys pool rep skb iph tcph = (pool, rep, [], False)"
  by (simp add: inspect_http_payload_def)

text \<open>Inspection never raises a score.\<close>

lemma inspect_rep_le:
  assumes "rep_ok rep"
  shows "get_ip_reputation (fst (snd (inspect_http_payload env ys pool rep skb iph tcph))) x \<le> get_ip_reputation rep x"
proof (cases "tcp_payload_len iph tcph \<le> 0 \<or> \<not> he_may_pull env (pull_len iph tcph) \<or> http_scan env ys (http_url_decode (raw_payload env skb iph tcph) 4096) = None")
  case True
  then show ?thesis by (auto simp: inspect_http_payload_def Let_def)
next
  case False
  then obtain a where a: "http_scan env ys (http_url_decode (raw_payload env skb iph tcph) 4096) = Some a" by blast
  have "0 \<le> ha_damage a" using http_scan_ok [OF a] by (auto simp: alert_ok_def http_damage_def)
  moreover have "fst (snd (inspect_http_payload env ys pool rep skb iph tcph)) =
      fst (update_ip_reputation (he_secs env) rep (ip_saddr (ip_hdr (he_oob env) skb)) (ha_damage a) (threat_code (ha_threat a)))"
    using False a by (simp add: inspect_http_payload_def Let_def)
  ultimately show ?thesis
    using get_range [OF assms, of x] by (auto simp: rep.get_upd [OF assms] update_get_score [OF assms])
qed

lemma encoded_signature_scanned:
  assumes "raw_payload env skb iph tcph = concat (map percent_encode t)"
    and "sig \<in> set php_signatures" and "sublist sig t"
  shows "http_scan env ys (http_url_decode (raw_payload env skb iph tcph) 4096) \<noteq> None"
proof -
  have "3 * length t \<le> 2048"
    using raw_payload_length [of env skb iph tcph] length_percent_encoded [of t] assms(1) by simp
  then have dec: "http_url_decode (raw_payload env skb iph tcph) 4096 = t"
    unfolding assms(1) by (intro http_url_decode_encoded) simp
  have "list_ex (\<lambda>sig. sublist sig t) php_signatures"
    unfolding list_ex_iff using assms(2,3) by blast
  then show ?thesis unfolding dec http_scan_None_iff by blast
qed

subsection \<open>Properties\<close>

text \<open>C13: The decision is exact: a packet is dropped if and only if it has a payload that can be made readable and, of at most 2048
  of its bytes decoded once, a detector scores 40 or more, one of the eight PHP signatures of the code occurs, one of its six XSS signatures
  occurs in any letter case, or YARA reports a rule. Signatures that only the documentation lists play no part.\<close>

theorem http_drop_iff_detected:
  "snd (snd (snd (inspect_http_payload env ys pool rep skb iph tcph))) =
     (0 < tcp_payload_len iph tcph \<and> he_may_pull env (pull_len iph tcph) \<and>
      (let p = http_url_decode (raw_payload env skb iph tcph) 4096 in
       40 \<le> dr_score (detect_sqli (he_junk env) p 128 256) \<or> 40 \<le> dr_score (detect_cmdi p 128 256) \<or>
       40 \<le> dr_score (detect_path_traversal p 128 256) \<or> 40 \<le> dr_score (detect_bot p 128 256) \<or>
       list_ex (\<lambda>sig. sublist sig p)
         [''eval('', ''base64_decode('', ''system('', ''passthru('', ''exec('', ''shell_exec('', ''popen('', ''proc_open(''] \<or>
       list_ex (\<lambda>sig. sublist sig (map tolower p)) [''<script>'', ''javascript:'', ''onerror='', ''onload='', ''<img'', ''alert(''] \<or>
       (\<exists>msg. scan_mem_yara (he_yara env) ys p 128 = Some msg)))"
proof -
  let ?p = "http_url_decode (raw_payload env skb iph tcph) 4096"
  have "snd (snd (snd (inspect_http_payload env ys pool rep skb iph tcph))) =
      (0 < tcp_payload_len iph tcph \<and> he_may_pull env (pull_len iph tcph) \<and> http_scan env ys ?p \<noteq> None)"
    by (simp add: inspect_http_payload_def Let_def split: option.split)
  moreover have "map tolower sig = sig" if "sig \<in> set xss_signatures" for sig
    using that by (auto simp: xss_signatures_def tolower_def ord_def)
  then have "list_ex (\<lambda>sig. sublist (map tolower sig) (map tolower ?p)) xss_signatures = list_ex (\<lambda>sig. sublist sig (map tolower ?p)) xss_signatures"
    by (simp add: list_ex_iff cong: bex_cong)
  ultimately show ?thesis
    unfolding http_scan_None_iff Let_def not_less de_Morgan_conj not_not xss_signatures_def [symmetric] php_signatures_def [symmetric] by simp
qed

text \<open>C14: What a dropped packet costs: either nothing happens to the reputation table and no event is sent,
  or exactly one event naming the source is sent and its score falls by the damage of the threat it
  names (10 for XSS up to 30 for YARA), never below 0, with every other address untouched. What the inspection registers
  in the connection pool is not part of the statement.\<close>

theorem http_alert_costs_reputation:
  assumes "rep_ok rep"
    and "inspect_http_payload env ys pool rep skb iph tcph = (pool', rep', evs, dropped)"
  shows "(dropped = False \<and> evs = [] \<and> rep' = rep) \<or>
    (\<exists>e damage. dropped = True \<and> evs = [e] \<and> ev_src_ip e = ip_saddr (ip_hdr (he_oob env) skb) \<and>
      (ev_threat_type e, damage) \<in>
        {(THREAT_SQLI, 20), (THREAT_CMDI, 20), (THREAT_PATH_TRAV, 20), (THREAT_LFI, 20), (THREAT_RFI, 20),
         (THREAT_BOT, 15), (THREAT_PHP_SHELL, 25), (THREAT_XSS, 10), (THREAT_YARA, 30)} \<and>
      length (ev_payload_preview e) < 128 \<and> length (ev_details e) < 256 \<and>
      get_ip_reputation rep' = (get_ip_reputation rep)(ev_src_ip e := max 0 (get_ip_reputation rep (ev_src_ip e) - damage)))"
proof (cases "0 < tcp_payload_len iph tcph \<and> he_may_pull env (pull_len iph tcph) \<and> http_scan env ys (http_url_decode (raw_payload env skb iph tcph) 4096) \<noteq> None")
  case False
  then show ?thesis using assms(2) by (auto simp: inspect_http_payload_def Let_def split: option.splits if_splits)
next
  case True
  then obtain a where a: "http_scan env ys (http_url_decode (raw_payload env skb iph tcph) 4096) = Some a" by blast
  let ?ip = "ip_saddr (ip_hdr (he_oob env) skb)"
  let ?e = "http_event (he_secs env) (ip_hdr (he_oob env) skb) (tcp_hdr (he_oob env) skb) a"
  have ok: "alert_ok a" using a by (rule http_scan_ok)
  have res: "rep' = fst (update_ip_reputation (he_secs env) rep ?ip (ha_damage a) (threat_code (ha_threat a)))"
      "evs = [?e]" "dropped = True"
    using assms(2) True a by (auto simp: inspect_http_payload_def Let_def)
  have e: "ev_src_ip ?e = ?ip" "ev_threat_type ?e = ha_threat a" "ev_payload_preview ?e = ha_preview a"
      "ev_details ?e = ha_details a" by (simp_all add: http_event_def)
  have "0 \<le> ha_damage a" using ok by (auto simp: alert_ok_def http_damage_def)
  then have "max 0 (min 100 (get_ip_reputation rep ?ip - ha_damage a)) = max 0 (get_ip_reputation rep ?ip - ha_damage a)"
    using get_range [OF assms(1), of ?ip] by simp
  then have "get_ip_reputation rep' = (get_ip_reputation rep)(?ip := max 0 (get_ip_reputation rep ?ip - ha_damage a))"
    unfolding res(1) fun_eq_iff by (simp add: rep.get_upd [OF assms(1)] update_get_score [OF assms(1)])
  then show ?thesis
    using ok res(2,3) e unfolding alert_ok_def http_damage_def by (intro disjI2 exI [of _ ?e] exI [of _ "ha_damage a"]) simp
qed

text \<open>Percent-encoding hides no PHP signature: a payload that is the encoding of any text containing
  one, byte by byte, is dropped.\<close>

theorem http_encoded_signature_dropped:
  assumes "raw_payload env skb iph tcph = concat (map percent_encode t)" and "0 < tcp_payload_len iph tcph"
    and "sig \<in> set php_signatures" and "sublist sig t" and "he_may_pull env (pull_len iph tcph)"
  shows "snd (snd (snd (inspect_http_payload env ys pool rep skb iph tcph)))"
  using assms(2,5) encoded_signature_scanned [OF assms(1,3,4), of ys]
  by (auto simp: inspect_http_payload_def Let_def split: option.split)

text \<open>A payload whose first 2048 bytes hold the empty line that ends the request headers marks the
  connection's record complete, which takes it out of the Slowloris checks and out of the count of
  open requests.\<close>

theorem http_complete_registered:
  assumes "length conns = MAX_TRACKED_CONNS" and "ip = ip_saddr (ip_hdr (he_oob env) skb)"
    and "port = tcp_source (tcp_hdr (he_oob env) skb)" and "same_conn (conns ! conn_index ip port) ip port"
    and "0 < tcp_payload_len iph tcph"
    and "sublist [CHR 0x0D, CHR 0x0A, CHR 0x0D, CHR 0x0A] (raw_payload env skb iph tcph)" and "he_may_pull env (pull_len iph tcph)"
  shows "cs_is_http_complete (the (fst (inspect_http_payload env ys (Some conns) rep skb iph tcph)) ! conn_index ip port) \<and>
    counts_open ip (the (fst (inspect_http_payload env ys (Some conns) rep skb iph tcph)) ! conn_index ip port) = False"
proof -
  let ?raw = "raw_payload env skb iph tcph"
  have "k_strstr ?raw CRLFCRLF \<noteq> None"
    using assms(6) by (simp add: k_strstr_strstr strstr_eq_None_iff CRLFCRLF_def)
  moreover have "fst (inspect_http_payload env ys (Some conns) rep skb iph tcph) = register_http (Some conns) ip port ?raw"
    using assms(2,3,5,7) by (simp add: inspect_http_payload_def Let_def split: option.split)
  ultimately show ?thesis
    using assms(1,4)
    by (simp add: register_http_def register_http_header_sent_def register_http_complete_def Let_def same_conn_def
        counts_open_def)
qed

text \<open>C34: When the IP total length does not exceed the packet that arrived, inspection reads inside the
  packet only: its whole outcome is the same whatever memory follows the buffer.\<close>

theorem http_reads_inside_packet:
  assumes "20 \<le> length (skb_data skb)" and "ip_ihl (ip_hdr oob skb) * 4 + 20 \<le> length (skb_data skb)"
    and "iph = ip_hdr oob skb" and "tcph = tcp_hdr oob skb"
    and "unat (ntohs (ip_tot_len iph)) \<le> length (skb_data skb)"
  shows "inspect_http_payload (env\<lparr>he_oob := oob\<rparr>) ys pool rep skb iph tcph =
    inspect_http_payload (env\<lparr>he_oob := oob'\<rparr>) ys pool rep skb iph tcph"
proof (cases "0 < tcp_payload_len iph tcph")
  case True
  let ?off = "ip_ihl iph * 4 + tcp_doff tcph * 4"
  let ?n = "if nat (tcp_payload_len iph tcph) > 2048 then 2048 else nat (tcp_payload_len iph tcph)"
  have "int (unat (ntohs (ip_tot_len iph))) = int ?off + tcp_payload_len iph tcph"
    by (simp add: tcp_payload_len_def)
  then have "unat (ntohs (ip_tot_len iph)) = ?off + nat (tcp_payload_len iph tcph)" using True by linarith
  moreover have "?n \<le> nat (tcp_payload_len iph tcph)" by simp
  ultimately have "?off + ?n \<le> length (skb_data skb)" using assms(5) by linarith
  then have "raw_payload (env\<lparr>he_oob := o1\<rparr>) skb iph tcph = take ?n (drop ?off (skb_data skb))" for o1
    unfolding raw_payload_def Let_def by (rule skb_bytes_oob)
  moreover have "ip_hdr oob skb = ip_hdr oob' skb" using assms(1) by (rule ip_hdr_oob)
  moreover have "tcp_hdr oob skb = tcp_hdr oob' skb" using assms(1,2) by (rule tcp_hdr_oob)
  ultimately show ?thesis
    using inspect_oob_raw [where env = "env\<lparr>he_oob := oob'\<rparr>" and oob = oob] by simp
next
  case False
  then show ?thesis by (simp add: inspect_http_payload_def)
qed

subsection \<open>Witnesses\<close>

text \<open>
  A packet without options from 203.0.113.77, port 4660, to 10.0.0.1, port 80, with a short payload.
\<close>

definition sample_packet :: "byte list \<Rightarrow> sk_buff" where
  "sample_packet payload = \<lparr>skb_data =
     [CHR 0x45, NUL, NUL, char_of (40 + length payload), NUL, NUL, NUL, NUL, CHR 0x40, CHR 0x06,
      NUL, NUL, CHR 0xCB, NUL, CHR 0x71, CHR 0x4D, CHR 0x0A, NUL, NUL, CHR 0x01,
      CHR 0x12, CHR 0x34, NUL, CHR 0x50, NUL, NUL, NUL, NUL, NUL, NUL, NUL, NUL,
      CHR 0x50, CHR 0x10, NUL, NUL, NUL, NUL, NUL, NUL] @ payload\<rparr>"

definition packet_iph :: "byte list \<Rightarrow> iphdr" where
  "packet_iph payload = \<lparr>ip_ihl = 5, ip_tot_len = le16 NUL (char_of (40 + length payload)), ip_protocol = 6,
     ip_saddr = inet_addr4 203 0 113 77, ip_daddr = inet_addr4 10 0 0 1\<rparr>"

lemma packet_iph_addr [simp]: "ip_saddr (packet_iph p) = inet_addr4 203 0 113 77" "ip_ihl (packet_iph p) = 5"
    "ip_protocol (packet_iph p) = 6"
  by (simp_all add: packet_iph_def)

definition packet_tcph :: tcphdr where
  "packet_tcph = \<lparr>tcp_source = htons 0x1234, tcp_dest = htons 80, tcp_doff = 5, tcp_fin = False, tcp_syn = False,
     tcp_rst = False, tcp_ack = True\<rparr>"

lemma length_sample_packet [simp]: "length (skb_data (sample_packet p)) = 40 + length p"
  by (simp add: sample_packet_def)

lemma sample_ip_hdr: "ip_hdr oob (sample_packet p) = packet_iph p"
  by (simp add: ip_hdr_def skb_byte_def sample_packet_def packet_iph_def Let_def ord_def le32_def inet_addr4_def
      byte_swap32_def)

lemma sample_tcp_hdr: "tcp_hdr oob (sample_packet p) = packet_tcph"
  unfolding tcp_hdr_def sample_ip_hdr
  by (simp add: packet_iph_def skb_byte_def sample_packet_def packet_tcph_def Let_def ord_def le16_def byte_swap16_def)

lemma sample_raw_payload:
  assumes "tcp_payload_len (packet_iph p) packet_tcph = int (length p)" and "length p \<le> 2048"
  shows "raw_payload env (sample_packet p) (packet_iph p) packet_tcph = p"
proof -
  have "skb_bytes (he_oob env) (sample_packet p) 40 (length p) = p"
    by (subst skb_bytes_oob) (simp_all, simp add: sample_packet_def)
  then show ?thesis using assms by (simp add: raw_payload_def Let_def) (simp add: packet_iph_def packet_tcph_def)
qed

definition sample_env :: http_env where
  "sample_env = \<lparr>he_secs = 1, he_oob = (\<lambda>_. NUL), he_junk = [], he_yara = mock_yara, he_may_pull = (\<lambda>_. True)\<rparr>"

lemma sample_env_pull [simp]: "he_may_pull sample_env n"
  by (simp add: sample_env_def)

definition attack_text :: string where
  "attack_text = concat (map percent_encode ''exec('')"

lemma attack_len: "tcp_payload_len (packet_iph attack_text) packet_tcph = int (length attack_text)"
  by (simp add: tcp_payload_len_def packet_iph_def packet_tcph_def attack_text_def percent_encode_def le16_def
      byte_swap16_def char_of_eval)

lemma attack_pos: "0 < tcp_payload_len (packet_iph attack_text) packet_tcph"
  unfolding attack_len by (simp add: attack_text_def percent_encode_def)

lemma attack_raw: "raw_payload sample_env (sample_packet attack_text) (packet_iph attack_text) packet_tcph =
    concat (map percent_encode ''exec('')"
  using sample_raw_payload [OF attack_len] by (simp add: attack_text_def percent_encode_def)

theorem http_encoded_signature_dropped_witness:
  "snd (snd (snd (inspect_http_payload sample_env yara_boot None init_ip_reputation (sample_packet attack_text)
     (packet_iph attack_text) packet_tcph)))"
  by (rule http_encoded_signature_dropped [OF attack_raw attack_pos, where sig = "''exec(''"])
     (simp_all add: php_signatures_def)

lemma attack_scanned:
  "http_scan sample_env ys (http_url_decode (raw_payload sample_env (sample_packet attack_text)
     (packet_iph attack_text) packet_tcph) 4096) \<noteq> None"
  by (rule encoded_signature_scanned [OF attack_raw, where sig = "''exec(''"]) (simp_all add: php_signatures_def)

theorem http_drop_iff_detected_witness:
  "snd (snd (snd (inspect_http_payload sample_env yara_boot None init_ip_reputation (sample_packet attack_text)
     (packet_iph attack_text) packet_tcph)))"
proof -
  have "http_url_decode (concat (map percent_encode ''exec('')) 4096 = ''exec(''" by (rule http_url_decode_encoded) simp
  then show ?thesis unfolding http_drop_iff_detected attack_raw using attack_pos by (simp add: Let_def)
qed

text \<open>Texts that \<^verbatim>\<open>docs/detection_engines.md\<close> lists as signatures of PHP shells and of script injection, and that no scan of the code knows.\<close>

lemma http_documented_signatures_pass:
  "list_all (\<lambda>t. signature_scan sample_env yara_boot t = None)
     [''assert('', ''preg_replace'', ''create_function'', ''array_map'', ''call_user_func'', ''<iframe'', ''<embed'', ''<object'', ''<svg'']"
  "http_scan sample_env yara_boot ''<svg'' = None"
proof -
  show all: "list_all (\<lambda>t. signature_scan sample_env yara_boot t = None)
     [''assert('', ''preg_replace'', ''create_function'', ''array_map'', ''call_user_func'', ''<iframe'', ''<embed'', ''<object'', ''<svg'']"
    by code_simp
  have "\<not> 40 \<le> dr_score (detect_sqli (he_junk sample_env) ''<svg'' 128 256)" "\<not> 40 \<le> dr_score (detect_cmdi ''<svg'' 128 256)"
    "\<not> 40 \<le> dr_score (detect_path_traversal ''<svg'' 128 256)" "\<not> 40 \<le> dr_score (detect_bot ''<svg'' 128 256)" by code_simp+
  then show "http_scan sample_env yara_boot ''<svg'' = None" unfolding http_scan_def Let_def using all by simp
qed

theorem http_alert_costs_reputation_witness:
  "get_ip_reputation (fst (snd (inspect_http_payload sample_env yara_boot None init_ip_reputation
     (sample_packet attack_text) (packet_iph attack_text) packet_tcph))) (inet_addr4 203 0 113 77) \<in> {70, 75, 80, 85, 90}"
proof -
  obtain pool' rep' evs d where r: "inspect_http_payload sample_env yara_boot None init_ip_reputation
      (sample_packet attack_text) (packet_iph attack_text) packet_tcph = (pool', rep', evs, d)"
    by (metis prod_cases4)
  have "d" using r attack_pos attack_scanned [of yara_boot]
    by (auto simp: inspect_http_payload_def Let_def split: option.splits)
  then show ?thesis
    using http_alert_costs_reputation [OF init_rep_ok r] unfolding r
    by (auto simp: sample_ip_hdr get_rep_abs [of init_ip_reputation] init_rep_abs)
qed

theorem http_complete_registered_witness:
  "cs_is_http_complete (the (fst (inspect_http_payload sample_env yara_boot
     (Some (replicate MAX_TRACKED_CONNS (zero_conn\<lparr>cs_src_ip := inet_addr4 203 0 113 77, cs_src_port := htons 0x1234\<rparr>)))
     init_ip_reputation (sample_packet CRLFCRLF) (packet_iph CRLFCRLF) packet_tcph)) !
     conn_index (inet_addr4 203 0 113 77) (htons 0x1234))"
proof -
  let ?conns = "replicate MAX_TRACKED_CONNS (zero_conn\<lparr>cs_src_ip := inet_addr4 203 0 113 77, cs_src_port := htons 0x1234\<rparr>)"
  have len: "tcp_payload_len (packet_iph CRLFCRLF) packet_tcph = int (length CRLFCRLF)"
    by (simp add: tcp_payload_len_def packet_iph_def packet_tcph_def CRLFCRLF_def le16_def byte_swap16_def char_of_eval)
  have "raw_payload sample_env (sample_packet CRLFCRLF) (packet_iph CRLFCRLF) packet_tcph = CRLFCRLF"
    using len by (rule sample_raw_payload) (simp add: CRLFCRLF_def)
  then have found: "sublist [CHR 0x0D, CHR 0x0A, CHR 0x0D, CHR 0x0A]
      (raw_payload sample_env (sample_packet CRLFCRLF) (packet_iph CRLFCRLF) packet_tcph)"
    by (simp add: CRLFCRLF_def)
  have pos: "0 < tcp_payload_len (packet_iph CRLFCRLF) packet_tcph" unfolding len by (simp add: CRLFCRLF_def)
  have ip: "inet_addr4 203 0 113 77 = ip_saddr (ip_hdr (he_oob sample_env) (sample_packet CRLFCRLF))"
    by (simp add: sample_ip_hdr)
  have port: "htons 0x1234 = tcp_source (tcp_hdr (he_oob sample_env) (sample_packet CRLFCRLF))"
    unfolding sample_tcp_hdr packet_tcph_def by simp
  have slot: "same_conn (?conns ! conn_index (inet_addr4 203 0 113 77) (htons 0x1234)) (inet_addr4 203 0 113 77) (htons 0x1234)"
    unfolding nth_replicate [OF conn_index_less] by (simp add: same_conn_def)
  show ?thesis
    by (rule conjunct1 [OF http_complete_registered [OF length_replicate ip port slot pos found sample_env_pull]])
qed

theorem http_reads_inside_packet_witness:
  "inspect_http_payload (sample_env\<lparr>he_oob := (\<lambda>_. NUL)\<rparr>) yara_boot None init_ip_reputation
     (sample_packet attack_text) (packet_iph attack_text) packet_tcph =
   inspect_http_payload (sample_env\<lparr>he_oob := (\<lambda>_. CHR ''x'')\<rparr>) yara_boot None init_ip_reputation
     (sample_packet attack_text) (packet_iph attack_text) packet_tcph"
proof (rule http_reads_inside_packet)
  have "int (unat (ntohs (ip_tot_len (packet_iph attack_text)))) = int (40 + length attack_text)"
    using attack_len by (simp add: tcp_payload_len_def packet_tcph_def)
  then show "unat (ntohs (ip_tot_len (packet_iph attack_text))) \<le> length (skb_data (sample_packet attack_text))"
    by (simp only: of_nat_eq_iff length_sample_packet)
qed (simp_all add: sample_ip_hdr sample_tcp_hdr)

end
