(* ===== verification/Ebpf_Xdp.thy ===== *)
theory Ebpf_Xdp
  imports Fw_Types "HOL-Library.Mapping"
begin

section \<open>eBPF/XDP fast path (ebpf\_xdp.c, xdp\_firewall.bpf.c)\<close>

text \<open>
  The loader that attaches the XDP program and edits its map of blocked addresses, and the program
  itself, which drops frames of IPv4 sources found in the map and counts them. The map of the kernel is
  a mapping from addresses to drop counters of at most \<^verbatim>\<open>max_entries\<close> entries: an update that would add one more
  fails. What else the libbpf calls return (\<open>bpf_update_err\<close>: no memory for a node, for example), and the build flag
  \<^verbatim>\<open>HAS_EBPF\<close>, are the record \<open>xdp_env\<close>. A map operation that reports an error leaves the map as it was.
\<close>

subsection \<open>Model\<close>

type_synonym xdp_map = "(u32, u32) mapping"

definition max_entries :: nat where
  "max_entries = 10240"

definition E2BIG :: int where
  "E2BIG = 7"

record xdp_env =
  HAS_EBPF :: bool
  if_nametoindex :: int
  bpf_open_ok :: bool
  bpf_load :: int
  bpf_find_program :: bool
  bpf_program_fd :: int
  bpf_set_link :: int
  bpf_find_map_fd :: "int option"
  bpf_update_err :: "xdp_map \<Rightarrow> u32 \<Rightarrow> int"
  bpf_delete_err :: "xdp_map \<Rightarrow> u32 \<Rightarrow> int"

record xdp_state =
  map_fd :: int
  ifindex :: int
  bpf_obj :: bool
  blocked_ips :: xdp_map

definition xdp_boot :: xdp_state where
  "xdp_boot = \<lparr>map_fd = - 1, ifindex = - 1, bpf_obj = False, blocked_ips = Mapping.empty\<rparr>"

definition init_ebpf_xdp :: "xdp_env \<Rightarrow> xdp_state \<Rightarrow> xdp_state \<times> int" where
  "init_ebpf_xdp env st =
     (if \<not> HAS_EBPF env then (st, 0)
      else let st = st\<lparr>ifindex := if_nametoindex env\<rparr> in
        if ifindex st = 0 then (st, - 1)
        else if \<not> bpf_open_ok env then (st\<lparr>bpf_obj := True\<rparr>, - 1)
        else if bpf_load env \<noteq> 0 then (st\<lparr>bpf_obj := False\<rparr>, - 1)
        else if \<not> bpf_find_program env then (st\<lparr>bpf_obj := False\<rparr>, - 1)
        else if bpf_program_fd env < 0 then (st\<lparr>bpf_obj := False\<rparr>, - 1)
        else if bpf_set_link env < 0 then (st\<lparr>bpf_obj := False\<rparr>, - 1)
        else (case bpf_find_map_fd env of
                Some fd \<Rightarrow> (st\<lparr>bpf_obj := True, map_fd := fd\<rparr>, 0)
              | None \<Rightarrow> (st\<lparr>bpf_obj := True\<rparr>, 0)))"

definition cleanup_ebpf_xdp :: "xdp_env \<Rightarrow> xdp_state \<Rightarrow> xdp_state" where
  "cleanup_ebpf_xdp env st =
     (if \<not> HAS_EBPF env then st
      else let st = (if ifindex st > 0 then st\<lparr>ifindex := - 1\<rparr> else st);
               st = (if bpf_obj st then st\<lparr>bpf_obj := False\<rparr> else st)
           in st\<lparr>map_fd := - 1\<rparr>)"

text \<open>\<^verbatim>\<open>bpf_map_update_elem\<close> with \<^verbatim>\<open>BPF_ANY\<close> on a hash map: the error, if any.\<close>

definition bpf_map_update_elem :: "xdp_env \<Rightarrow> xdp_map \<Rightarrow> u32 \<Rightarrow> int" where
  "bpf_map_update_elem env m key =
     (if Mapping.lookup m key = None \<and> Mapping.size m \<ge> max_entries then - E2BIG else bpf_update_err env m key)"

definition ebpf_xdp_block_ip :: "xdp_env \<Rightarrow> xdp_state \<Rightarrow> u32 \<Rightarrow> xdp_state \<times> int" where
  "ebpf_xdp_block_ip env st ip =
     (if \<not> HAS_EBPF env then (st, 0)
      else if map_fd st < 0 then (st, - 1)
      else if bpf_map_update_elem env (blocked_ips st) ip \<noteq> 0 then (st, - 1)
      else (st\<lparr>blocked_ips := Mapping.update ip 0 (blocked_ips st)\<rparr>, 0))"

definition ebpf_xdp_unblock_ip :: "xdp_env \<Rightarrow> xdp_state \<Rightarrow> u32 \<Rightarrow> xdp_state \<times> int" where
  "ebpf_xdp_unblock_ip env st ip =
     (if \<not> HAS_EBPF env then (st, 0)
      else if map_fd st < 0 then (st, - 1)
      else if bpf_delete_err env (blocked_ips st) ip \<noteq> 0 then (st, - 1)
      else (st\<lparr>blocked_ips := Mapping.delete ip (blocked_ips st)\<rparr>, 0))"

datatype xdp_action = XDP_PASS | XDP_DROP

text \<open>The XDP program on a frame: Ethernet header of 14 bytes, then the IPv4 header.\<close>

definition xdp_firewall_prog :: "xdp_map \<Rightarrow> byte list \<Rightarrow> xdp_map \<times> xdp_action" where
  "xdp_firewall_prog blocked frame =
     (if 14 > length frame then (blocked, XDP_PASS)
      else if le16 (frame ! 12) (frame ! 13) \<noteq> htons 0x0800 then (blocked, XDP_PASS)
      else if 14 + 20 > length frame then (blocked, XDP_PASS)
      else let src_ip = le32 (frame ! 26) (frame ! 27) (frame ! 28) (frame ! 29) in
        (case Mapping.lookup blocked src_ip of
           Some drops \<Rightarrow> (Mapping.update src_ip (drops + 1) blocked, XDP_DROP)
         | None \<Rightarrow> (blocked, XDP_PASS)))"

text \<open>The loop of the agent listener that enters a new blocklist, \<^verbatim>\<open>i < bl_payload.count\<close>.\<close>

definition xdp_load_payload :: "xdp_env \<Rightarrow> (nat \<Rightarrow> blocklist_entry) \<Rightarrow> blocklist_payload \<Rightarrow> xdp_state \<Rightarrow> xdp_state" where
  "xdp_load_payload env oob p st =
     fold (\<lambda>i st. fst (ebpf_xdp_block_ip env st (be_ip (payload_entry oob p i)))) [0..<unat (bp_count p)] st"

subsection \<open>Lemmas\<close>

text \<open>The source of a frame that holds an IPv4 header: bytes 12 and 13 are the EtherType, bytes 26 to 29 the address.\<close>

definition ipv4_source :: "byte list \<Rightarrow> u32 option" where
  "ipv4_source frame =
     (if 34 \<le> length frame \<and> frame ! 12 = CHR 0x08 \<and> frame ! 13 = NUL
      then Some (le32 (frame ! 26) (frame ! 27) (frame ! 28) (frame ! 29)) else None)"

lemma ethertype_ipv4: "le16 a b = htons 0x0800 \<longleftrightarrow> a = CHR 0x08 \<and> b = NUL"
proof
  have ord16: "unat (of_char c :: u16) = ord c" for c
  proof -
    have "(of_char c :: u16) = of_nat (ord c)" by (metis of_nat_of_char ord_def)
    moreover have "ord c < 2 ^ LENGTH(16)" by (rule less_trans [OF ord_less]) simp
    ultimately show ?thesis by (simp only: unat_of_nat) (simp add: take_bit_nat_eq_self)
  qed
  assume "le16 a b = htons 0x0800"
  then have "unat (le16 a b) = 8" by (simp add: byte_swap16_def)
  moreover have "take_bit 16 (push_bit 8 (ord b)) = push_bit 8 (ord b)" using ord_less [of b] by (intro take_bit_nat_eq_self) (simp add: push_bit_eq_mult)
  ultimately have n: "ord a OR push_bit 8 (ord b) = 8"
    by (simp add: le16_def unsigned_or_eq unsigned_push_bit_eq ord16)
  have low: "take_bit 8 (ord a) = ord a" "drop_bit 8 (ord a) = 0" using ord_less [of a] by (simp_all add: take_bit_eq_mod drop_bit_eq_div)
  have high: "take_bit 8 (push_bit 8 (ord b)) = 0" "drop_bit 8 (push_bit 8 (ord b)) = ord b"
    by (simp_all add: push_bit_eq_mult drop_bit_eq_div take_bit_eq_mod)
  have "take_bit 8 (ord a OR push_bit 8 (ord b)) = ord a" by (simp only: take_bit_or low high or.right_neutral)
  moreover have "drop_bit 8 (ord a OR push_bit 8 (ord b)) = ord b" by (simp only: drop_bit_or low high or.left_neutral)
  ultimately have "ord a = 8" "ord b = 0" unfolding n by simp_all
  moreover have "ord (CHR 0x08) = 8" "ord NUL = 0" by code_simp+
  ultimately show "a = CHR 0x08 \<and> b = NUL" by (metis ord_inject)
qed (simp add: le16_def byte_swap16_def)

lemma prog_source:
  "xdp_firewall_prog blocked frame =
     (case ipv4_source frame of None \<Rightarrow> (blocked, XDP_PASS)
      | Some src \<Rightarrow> if src \<in> Mapping.keys blocked then (Mapping.map_entry src (\<lambda>drops. drops + 1) blocked, XDP_DROP) else (blocked, XDP_PASS))"
proof -
  have upd: "Mapping.map_entry k f m = Mapping.update k (f v) m" if "Mapping.lookup m k = Some v" for k f m and v :: u32
    by (rule mapping_eqI) (auto simp: lookup_map_entry' lookup_update' that)
  show ?thesis
    by (auto simp: xdp_firewall_prog_def ipv4_source_def ethertype_ipv4 Let_def upd keys_is_none_rep split: option.split)
qed

lemma size_keys: "finite (Mapping.keys m) \<Longrightarrow> Mapping.size m = card (Mapping.keys m)"
  by (simp add: Mapping.size_def)

text \<open>An update that adds no entry, or finds room, enters the address.\<close>

lemma block_keys:
  assumes "HAS_EBPF env" "0 \<le> map_fd st" "\<And>m k. bpf_update_err env m k = 0" "finite (Mapping.keys (blocked_ips st))"
    and "card (insert ip (Mapping.keys (blocked_ips st))) \<le> max_entries"
  shows "Mapping.keys (blocked_ips (fst (ebpf_xdp_block_ip env st ip))) = insert ip (Mapping.keys (blocked_ips st))"
    and "map_fd (fst (ebpf_xdp_block_ip env st ip)) = map_fd st"
proof -
  have "bpf_map_update_elem env (blocked_ips st) ip = 0"
    using assms(3-5) by (auto simp: bpf_map_update_elem_def size_keys keys_is_none_rep card_insert_if split: if_splits)
  then show "Mapping.keys (blocked_ips (fst (ebpf_xdp_block_ip env st ip))) = insert ip (Mapping.keys (blocked_ips st))"
    "map_fd (fst (ebpf_xdp_block_ip env st ip)) = map_fd st" using assms(1,2) by (simp_all add: ebpf_xdp_block_ip_def)
qed

lemma load_keys:
  assumes "HAS_EBPF env" "0 \<le> map_fd st" and "\<And>m k. bpf_update_err env m k = 0" "finite (Mapping.keys (blocked_ips st))"
    and "card (Mapping.keys (blocked_ips st) \<union> (\<lambda>i. be_ip (payload_entry oob p i)) ` {..<unat (bp_count p)}) \<le> max_entries"
  shows "Mapping.keys (blocked_ips (xdp_load_payload env oob p st)) =
     Mapping.keys (blocked_ips st) \<union> (\<lambda>i. be_ip (payload_entry oob p i)) ` {..<unat (bp_count p)}"
proof -
  have "Mapping.keys (blocked_ips (fold (\<lambda>i st. fst (ebpf_xdp_block_ip env st (f i))) xs st)) = Mapping.keys (blocked_ips st) \<union> f ` set xs"
    if "card (Mapping.keys (blocked_ips st) \<union> f ` set xs) \<le> max_entries" for f and xs :: "nat list"
    using assms(2,4) that
  proof (induction xs arbitrary: st)
    case (Cons x xs)
    let ?st = "fst (ebpf_xdp_block_ip env st (f x))" and ?K = "Mapping.keys (blocked_ips st)"
    have "card (insert (f x) ?K) \<le> card (?K \<union> f ` set (x # xs))" using Cons.prems(2) by (intro card_mono) auto
    then have b: "Mapping.keys (blocked_ips ?st) = insert (f x) ?K" "map_fd ?st = map_fd st"
      using block_keys [OF assms(1) Cons.prems(1) assms(3) Cons.prems(2)] Cons.prems(3) by auto
    then show ?case using Cons.IH [of ?st] Cons.prems by (simp add: insert_commute Un_commute)
  qed simp
  from this [of "\<lambda>i. be_ip (payload_entry oob p i)" "[0..<unat (bp_count p)]"] assms(5)
  show ?thesis by (simp add: xdp_load_payload_def lessThan_atLeast0)
qed

text \<open>
  The map only grows: no operation the daemon performs removes an address, so a later blocklist that no longer names it does not
  unblock it. Nothing calls \<^verbatim>\<open>ebpf_xdp_unblock_ip\<close>.
\<close>

lemma block_keeps: "ip \<in> Mapping.keys (blocked_ips st) \<Longrightarrow> ip \<in> Mapping.keys (blocked_ips (fst (ebpf_xdp_block_ip env st ip')))"
  by (simp add: ebpf_xdp_block_ip_def)

lemma load_keeps: "ip \<in> Mapping.keys (blocked_ips st) \<Longrightarrow> ip \<in> Mapping.keys (blocked_ips (xdp_load_payload env oob p st))"
proof -
  have "ip \<in> Mapping.keys (blocked_ips st) \<Longrightarrow>
      ip \<in> Mapping.keys (blocked_ips (fold (\<lambda>i st. fst (ebpf_xdp_block_ip env st (f i))) xs st))" for f and xs :: "nat list"
    by (induction xs arbitrary: st) (simp_all add: block_keeps)
  then show "ip \<in> Mapping.keys (blocked_ips st) \<Longrightarrow> ip \<in> Mapping.keys (blocked_ips (xdp_load_payload env oob p st))"
    by (simp add: xdp_load_payload_def)
qed

lemma xdp_never_unblocks:
  "ip \<in> Mapping.keys (blocked_ips st) \<Longrightarrow> ip \<in> Mapping.keys (blocked_ips (foldl (\<lambda>st p. xdp_load_payload env oob p st) st ps))"
  by (induction ps arbitrary: st) (simp_all add: load_keeps)

text \<open>A full map takes no further address: the call reports an error, which the daemon ignores, and frames of the address pass.\<close>

lemma xdp_full_map_refuses:
  assumes "HAS_EBPF env" "0 \<le> map_fd st" "Mapping.size (blocked_ips st) = max_entries" "ip \<notin> Mapping.keys (blocked_ips st)"
  shows "ebpf_xdp_block_ip env st ip = (st, - 1)"
    and "ipv4_source frame = Some ip \<Longrightarrow> snd (xdp_firewall_prog (blocked_ips (fst (ebpf_xdp_block_ip env st ip))) frame) = XDP_PASS"
  using assms by (simp_all add: ebpf_xdp_block_ip_def bpf_map_update_elem_def keys_is_none_rep Option.is_none_def E2BIG_def prog_source)

text \<open>The map never exceeds its declared size.\<close>

lemma block_size:
  "finite (Mapping.keys (blocked_ips st)) \<Longrightarrow> Mapping.size (blocked_ips st) \<le> max_entries \<Longrightarrow>
     finite (Mapping.keys (blocked_ips (fst (ebpf_xdp_block_ip env st ip)))) \<and>
     Mapping.size (blocked_ips (fst (ebpf_xdp_block_ip env st ip))) \<le> max_entries"
  by (auto simp: ebpf_xdp_block_ip_def bpf_map_update_elem_def size_update keys_is_none_rep E2BIG_def)

lemma load_size:
  assumes "finite (Mapping.keys (blocked_ips st))" "Mapping.size (blocked_ips st) \<le> max_entries"
  shows "Mapping.size (blocked_ips (xdp_load_payload env oob p st)) \<le> max_entries"
proof -
  have "Mapping.size (blocked_ips (fold (\<lambda>i st. fst (ebpf_xdp_block_ip env st (f i))) xs st)) \<le> max_entries" for f and xs :: "nat list"
    using assms by (induction xs arbitrary: st) (simp_all add: block_size)
  then show ?thesis by (simp add: xdp_load_payload_def)
qed

subsection \<open>Properties\<close>

text \<open>C39: With XDP attached, memory for the nodes of the map, and no more than 10240 addresses in it after the load, the XDP program
  drops a frame after a blocklist is loaded if and only if the frame has at least 34 bytes, its EtherType is that of IPv4, and the
  source address in it was blocked before or is listed; it counts the drop in the entry of that address and changes nothing else, and
  passes every other frame, short ones and other protocols included, without touching the map. The CIDR masks of the list play no part.
  Whatever the list, the map never holds more than its 10240 entries.\<close>

theorem xdp_drops_listed_addresses:
  assumes "HAS_EBPF env" "0 \<le> map_fd st" and "\<And>m k. bpf_update_err env m k = 0" "finite (Mapping.keys (blocked_ips st))"
    and "listed = (\<lambda>i. be_ip (payload_entry oob p i)) ` {..<unat (bp_count p)}"
    and "card (Mapping.keys (blocked_ips st) \<union> listed) \<le> 10240"
    and "m = blocked_ips (xdp_load_payload env oob p st)"
    and "src = le32 (frame ! 26) (frame ! 27) (frame ! 28) (frame ! 29)"
  shows "xdp_firewall_prog m frame =
      (if 34 \<le> length frame \<and> frame ! 12 = CHR 0x08 \<and> frame ! 13 = NUL \<and> (src \<in> Mapping.keys (blocked_ips st) \<or> src \<in> listed)
       then (Mapping.map_entry src (\<lambda>drops. drops + 1) m, XDP_DROP) else (m, XDP_PASS)) \<and>
    Mapping.size (blocked_ips (xdp_load_payload env' oob' p' st)) \<le> 10240"
proof
  have "Mapping.keys m = Mapping.keys (blocked_ips st) \<union> listed"
    using load_keys [OF assms(1-4), of oob p] assms(5-7) by (simp add: max_entries_def)
  then show "xdp_firewall_prog m frame =
      (if 34 \<le> length frame \<and> frame ! 12 = CHR 0x08 \<and> frame ! 13 = NUL \<and> (src \<in> Mapping.keys (blocked_ips st) \<or> src \<in> listed)
       then (Mapping.map_entry src (\<lambda>drops. drops + 1) m, XDP_DROP) else (m, XDP_PASS))"
    unfolding prog_source assms(8) by (simp add: ipv4_source_def)
  have "finite listed" by (simp add: assms(5))
  then have "card (Mapping.keys (blocked_ips st)) \<le> card (Mapping.keys (blocked_ips st) \<union> listed)" using assms(4) by (intro card_mono) auto
  then show "Mapping.size (blocked_ips (xdp_load_payload env' oob' p' st)) \<le> 10240"
    using load_size [OF assms(4), of env' oob' p'] assms(4,6) by (simp add: size_keys max_entries_def)
qed

definition open_xdp :: xdp_env where
  "open_xdp = \<lparr>HAS_EBPF = True, if_nametoindex = 2, bpf_open_ok = True, bpf_load = 0, bpf_find_program = True,
     bpf_program_fd = 5, bpf_set_link = 0, bpf_find_map_fd = Some 6, bpf_update_err = (\<lambda>_ _. 0),
     bpf_delete_err = (\<lambda>_ _. 0)\<rparr>"

definition sample_frame :: "byte list" where
  "sample_frame = replicate 12 NUL @ [CHR 0x08, NUL] @ replicate 12 NUL @ [CHR 0x01, NUL, NUL, NUL] @ replicate 4 NUL"

theorem xdp_drops_listed_addresses_witness:
  "snd (xdp_firewall_prog (blocked_ips (xdp_load_payload open_xdp (\<lambda>_. \<lparr>be_ip = 0, be_mask = 0\<rparr>)
     \<lparr>bp_count = 1, bp_block_local_ips = 0, bp_entries = [\<lparr>be_ip = 1, be_mask = 32\<rparr>]\<rparr>
     (fst (init_ebpf_xdp open_xdp xdp_boot)))) sample_frame) = XDP_DROP"
proof -
  let ?oob = "\<lambda>_. \<lparr>be_ip = 0, be_mask = 0\<rparr>" and ?p = "\<lparr>bp_count = 1, bp_block_local_ips = 0, bp_entries = [\<lparr>be_ip = 1, be_mask = 32\<rparr>]\<rparr>"
  have bytes: "length sample_frame = 34" "sample_frame ! 12 = CHR 0x08" "sample_frame ! 13 = NUL"
      "sample_frame ! 26 = CHR 0x01" "sample_frame ! 27 = NUL" "sample_frame ! 28 = NUL" "sample_frame ! 29 = NUL"
    by (simp_all add: sample_frame_def eval_nat_numeral)
  have src: "1 = le32 (sample_frame ! 26) (sample_frame ! 27) (sample_frame ! 28) (sample_frame ! 29)"
    unfolding bytes by (simp add: le32_def)
  have env: "HAS_EBPF open_xdp" "0 \<le> map_fd (fst (init_ebpf_xdp open_xdp xdp_boot))"
    and boot: "Mapping.keys (blocked_ips (fst (init_ebpf_xdp open_xdp xdp_boot))) = {}"
    by (simp_all add: open_xdp_def init_ebpf_xdp_def xdp_boot_def Let_def)
  have upd: "bpf_update_err open_xdp m k = 0" for m k by (simp add: open_xdp_def)
  have one: "{1} = (\<lambda>i. be_ip (payload_entry ?oob ?p i)) ` {..<unat (bp_count ?p)}" by (auto simp: payload_entry_def)
  show ?thesis
    using xdp_drops_listed_addresses [OF env upd _ one _ refl src] bytes boot by simp
qed

end
