(* ===== verification/Fw_Nfq.thy ===== *)
theory Fw_Nfq
  imports Http_Inspect Ip_Blocklist Ebpf_Xdp
begin

section \<open>The userspace firewall daemon (fw\_nfq.c)\<close>

text \<open>
  The daemon that receives packets from the netfilter queue, decides on them, and talks to the agent
  over a UNIX socket. \<open>fw_state\<close> gathers the static variables of all components the daemon links;
  \<open>nfq_env\<close> is what the outside supplies: clocks, memory past the packet, the files the bypass check
  reads, the results of \<^verbatim>\<open>send\<close>, and the environments of the engines. One reading of the clocks serves a
  whole packet.

  \<open>fs_delivered\<close> is the list of events the socket accepted, \<open>fs_sends\<close> counts the calls of \<^verbatim>\<open>send\<close>; both
  only observe. The threads of the daemon (queue callback, agent listener, inotify watcher, YARA worker)
  share the state; \<open>fw_step\<close> interleaves their critical sections, and takes the replacement of the
  blocklist as one of them.
\<close>

subsection \<open>State and environment\<close>

datatype verdict = NF_ACCEPT | NF_DROP

datatype send_result = SENT | WOULD_BLOCK | SEND_ERROR

record nfq_env =
  ne_jiffies :: u64
  ne_secs :: u64
  ne_oob :: "nat \<Rightarrow> byte"
  ne_junk :: string
  ne_ub_shift :: "u8 \<Rightarrow> u32"
  ne_yara :: yara_env
  ne_xdp :: xdp_env
  ne_dockerenv :: bool
  ne_route :: "string list option"
  ne_send :: "nat \<Rightarrow> send_result"
  ne_alloc :: "nat \<Rightarrow> bool"
  ne_oob_entries :: "nat \<Rightarrow> blocklist_entry"

record fw_state =
  fs_pool :: conn_pool
  fs_rep :: reputation_table
  fs_bl :: blocklist
  fs_yara :: yara_state
  fs_xdp :: xdp_state
  fs_agent_fd :: int
  fs_dropped :: u64
  fs_delivered :: "fw_event list"
  fs_sends :: nat
  fs_in_docker :: int
  fs_gw_initialized :: bool
  fs_default_gw :: u32

subsection \<open>Address classes\<close>

text \<open>Octet \<^term>\<open>n\<close> of an address in network byte order, counted from the most significant, as \<^verbatim>\<open>uint8_t\<close>.\<close>

definition octet :: "nat \<Rightarrow> u32 \<Rightarrow> u8" where
  "octet n ip = ucast (drop_bit (24 - 8 * n) (ntohl ip) AND 0xFF)"

definition is_local_ip :: "u32 \<Rightarrow> bool" where
  "is_local_ip ip =
     (let o1 = octet 0 ip; o2 = octet 1 ip in
      if o1 = 127 then True
      else if o1 = 10 then True
      else if o1 = 172 \<and> o2 \<ge> 16 \<and> o2 \<le> 31 then True
      else if o1 = 192 \<and> o2 = 168 then True
      else False)"

text \<open>\<^verbatim>\<open>%x\<close> of \<^verbatim>\<open>sscanf\<close>: white space, an optional \<^verbatim>\<open>0x\<close>, hexadecimal digits.\<close>

definition scan_hex :: "string \<Rightarrow> (u32 \<times> string) option" where
  "scan_hex s =
     (let s = dropWhile isspace s;
          s = (if length s > 2 \<and> take 2 s \<in> {''0x'', ''0X''} \<and> isxdigit (s ! 2) then drop 2 s else s);
          digits = takeWhile isxdigit s
      in if digits = [] then None else Some (of_nat (strtol16 digits), drop (length digits) s))"

definition scan_route :: "string \<Rightarrow> (u32 \<times> u32) option" where
  "scan_route line =
     (case scan_word 31 line of None \<Rightarrow> None
      | Some (iface, rest) \<Rightarrow>
          (case scan_hex rest of None \<Rightarrow> None
           | Some (dest, rest) \<Rightarrow>
               (case scan_hex rest of None \<Rightarrow> None | Some (gateway, _) \<Rightarrow> Some (dest, gateway))))"

text \<open>The loop over \<^verbatim>\<open>/proc/net/route\<close>: the gateway of the first default route, else the old value.\<close>

fun read_default_gw :: "u32 \<Rightarrow> string list \<Rightarrow> u32" where
  "read_default_gw gw [] = gw"
| "read_default_gw gw (line # lines) =
     (case scan_route line of
        Some (dest, gateway) \<Rightarrow> if dest = 0 then gateway else read_default_gw gw lines
      | None \<Rightarrow> read_default_gw gw lines)"

definition cache_docker :: "nfq_env \<Rightarrow> fw_state \<Rightarrow> fw_state" where
  "cache_docker env st =
     (if fs_in_docker st = - 1 then st\<lparr>fs_in_docker := (if ne_dockerenv env then 1 else 0)\<rparr> else st)"

definition cache_gw :: "nfq_env \<Rightarrow> fw_state \<Rightarrow> fw_state" where
  "cache_gw env st =
     (if \<not> fs_gw_initialized st
      then (case ne_route env of
              Some lines \<Rightarrow> st\<lparr>fs_default_gw := read_default_gw (fs_default_gw st) lines, fs_gw_initialized := True\<rparr>
            | None \<Rightarrow> st\<lparr>fs_gw_initialized := True\<rparr>)
      else st)"

definition is_bypassed_ip :: "nfq_env \<Rightarrow> fw_state \<Rightarrow> u32 \<Rightarrow> fw_state \<times> bool" where
  "is_bypassed_ip env st ip =
     (let o1 = octet 0 ip; o2 = octet 1 ip; o3 = octet 2 ip in
      if o1 = 127 then (st, True)
      else let st = cache_docker env st in
        if fs_in_docker st \<noteq> 0 \<and> o1 = 192 \<and> o2 = 168 \<and> o3 = 65 then (st, True)
        else let st = cache_gw env st in
          if fs_default_gw st \<noteq> 0 \<and> ip = fs_default_gw st then (st, True) else (st, False))"

subsection \<open>Events\<close>

definition send_fw_event :: "nfq_env \<Rightarrow> fw_event \<Rightarrow> fw_state \<Rightarrow> fw_state" where
  "send_fw_event env event st =
     (if fs_agent_fd st \<noteq> - 1 then
        (case ne_send env (fs_sends st) of
           SENT \<Rightarrow> st\<lparr>fs_delivered := fs_delivered st @ [event], fs_sends := fs_sends st + 1\<rparr>
         | WOULD_BLOCK \<Rightarrow> st\<lparr>fs_dropped := fs_dropped st + 1, fs_sends := fs_sends st + 1\<rparr>
         | SEND_ERROR \<Rightarrow> st\<lparr>fs_agent_fd := - 1, fs_sends := fs_sends st + 1\<rparr>)
      else st)"

definition send_all :: "nfq_env \<Rightarrow> fw_event list \<Rightarrow> fw_state \<Rightarrow> fw_state" where
  "send_all env evs st = fold (send_fw_event env) evs st"

definition ip_event :: "u64 \<Rightarrow> iphdr \<Rightarrow> threat \<Rightarrow> severity \<Rightarrow> string \<Rightarrow> string \<Rightarrow> fw_event" where
  "ip_event secs iph th sev preview details =
     \<lparr>ev_timestamp = secs, ev_src_ip = ip_saddr iph, ev_dest_ip = ip_daddr iph, ev_src_port = 0, ev_dest_port = 0,
      ev_threat_type = th, ev_severity = sev, ev_payload_preview = snprintf_buf 128 preview,
      ev_details = snprintf_buf 256 details\<rparr>"

subsection \<open>The packet callback\<close>

text \<open>The em dash of the source is three UTF-8 bytes.\<close>

definition reputation_event :: "u64 \<Rightarrow> iphdr \<Rightarrow> int \<Rightarrow> fw_event" where
  "reputation_event secs iph score =
     ip_event secs iph THREAT_REPUTATION SEVERITY_CRITICAL (''IP Reputation: '' @ dec_int score)
       (''Low reputation score '' @ [CHR 0xE2, CHR 0x80, CHR 0x94] @ '' blocking IP (score <= 20)'')"

definition blocklist_event :: "u64 \<Rightarrow> iphdr \<Rightarrow> fw_event" where
  "blocklist_event secs iph =
     ip_event secs iph THREAT_BLOCKLIST SEVERITY_WARNING ''IP Blocklisted''
       ''Inbound connection blocked from blocklisted IP address''"

definition check_reputation :: "nfq_env \<Rightarrow> iphdr \<Rightarrow> fw_state \<times> verdict \<Rightarrow> fw_state \<times> verdict" where
  "check_reputation env iph sv =
     (let rep_score = get_ip_reputation (fs_rep (fst sv)) (ip_saddr iph) in
      if rep_score \<le> 20 then (send_fw_event env (reputation_event (ne_secs env) iph rep_score) (fst sv), NF_DROP)
      else sv)"

definition check_blocklist :: "nfq_env \<Rightarrow> iphdr \<Rightarrow> fw_state \<times> verdict \<Rightarrow> fw_state \<times> verdict" where
  "check_blocklist env iph sv =
     (if inspect_ip_blocklist (ne_ub_shift env) (fs_bl (fst sv)) (ip_saddr iph)
      then (send_fw_event env (blocklist_event (ne_secs env) iph) (fst sv), NF_DROP)
      else sv)"

definition http_env_of :: "nfq_env \<Rightarrow> http_env" where
  "http_env_of env = \<lparr>he_secs = ne_secs env, he_oob = ne_oob env, he_junk = ne_junk env, he_yara = ne_yara env,
     he_may_pull = (\<lambda>_. True)\<rparr>"

definition run_http :: "nfq_env \<Rightarrow> sk_buff \<Rightarrow> iphdr \<Rightarrow> tcphdr \<Rightarrow> fw_state \<times> verdict \<Rightarrow> fw_state \<times> verdict" where
  "run_http env skb iph tcph sv =
     (let st = fst sv;
          (pool, rep, evs, hit) = inspect_http_payload (http_env_of env) (fs_yara st) (fs_pool st) (fs_rep st) skb iph tcph
      in (send_all env evs (st\<lparr>fs_pool := pool, fs_rep := rep\<rparr>), if hit then NF_DROP else snd sv))"

definition check_tcp :: "nfq_env \<Rightarrow> sk_buff \<Rightarrow> iphdr \<Rightarrow> fw_state \<times> verdict \<Rightarrow> fw_state \<times> verdict" where
  "check_tcp env skb iph sv =
     (if ip_protocol iph = IPPROTO_TCP \<and> length (skb_data skb) \<ge> ip_ihl iph * 4 + 20 then
        (let tcph = tcp_hdr (ne_oob env) skb;
             (pool, evs, hit) = monitor_tcp_stats HZ (ne_jiffies env) (ne_secs env) (fs_pool (fst sv)) iph tcph;
             st = send_all env evs ((fst sv)\<lparr>fs_pool := pool\<rparr>)
         in if hit then (st, NF_DROP)
            else if ntohs (tcp_dest tcph) = 80 then run_http env skb iph tcph (st, snd sv)
            else (st, snd sv))
      else sv)"

definition local_bypass :: "iphdr \<Rightarrow> fw_state \<times> verdict \<Rightarrow> fw_state \<times> verdict" where
  "local_bypass iph sv =
     (if snd sv = NF_DROP \<and> is_local_ip (ip_saddr iph) then
        (if g_block_local_ips (fs_bl (fst sv)) = 0 then (fst sv, NF_ACCEPT) else sv)
      else sv)"

text \<open>The packet as \<^verbatim>\<open>nfq_get_payload\<close> gives it; \<^term>\<open>None\<close> when it reports an error (a negative length).\<close>

definition fw_nfq_callback :: "nfq_env \<Rightarrow> byte list option \<Rightarrow> fw_state \<Rightarrow> fw_state \<times> verdict" where
  "fw_nfq_callback env payload st =
     (case payload of None \<Rightarrow> (st, NF_ACCEPT)
      | Some data \<Rightarrow>
          if length data \<ge> 20 then
            (let skb = \<lparr>skb_data = data\<rparr>; iph = ip_hdr (ne_oob env) skb; (st, bypassed) = is_bypassed_ip env st (ip_saddr iph)
             in if bypassed then (st, NF_ACCEPT)
                else local_bypass iph
                       (check_tcp env skb iph (check_blocklist env iph (check_reputation env iph (st, NF_ACCEPT)))))
          else (st, NF_ACCEPT))"

subsection \<open>The agent listener\<close>

definition PAYLOAD_SIZE :: nat where
  "PAYLOAD_SIZE = 8 + 8 * MAX_BLOCKLIST_IPS"

text \<open>The bytes of \<^verbatim>\<open>struct blocklist_payload\<close>: two 32-bit fields, then entries of a 32-bit address, a mask byte and padding.\<close>

definition parse_entry :: "byte list \<Rightarrow> nat \<Rightarrow> blocklist_entry" where
  "parse_entry bs i =
     (let o1 = 8 + 8 * i in
      \<lparr>be_ip = le32 (bs ! o1) (bs ! (o1 + 1)) (bs ! (o1 + 2)) (bs ! (o1 + 3)), be_mask = of_char (bs ! (o1 + 4))\<rparr>)"

definition parse_payload :: "byte list \<Rightarrow> blocklist_payload" where
  "parse_payload bs =
     \<lparr>bp_count = le32 (bs ! 0) (bs ! 1) (bs ! 2) (bs ! 3),
      bp_block_local_ips = le32 (bs ! 4) (bs ! 5) (bs ! 6) (bs ! 7),
      bp_entries = map (parse_entry bs) [0..<MAX_BLOCKLIST_IPS]\<rparr>"

text \<open>
  The reading loop over what the socket delivers: each chunk is the data available to one \<^verbatim>\<open>read\<close>, of
  which it takes at most what is still missing; an empty chunk is a \<^verbatim>\<open>read\<close> that returns 0 or an error.
\<close>

function read_full :: "nat \<Rightarrow> byte list list \<Rightarrow> byte list \<times> byte list list" where
  "read_full 0 chunks = ([], chunks)"
| "read_full (Suc n) [] = ([], [])"
| "read_full (Suc n) (c # cs) =
     (if c = [] then ([], cs)
      else let got = take (Suc n) c; rest = drop (Suc n) c;
               (more, left) = read_full (Suc n - length got) (if rest = [] then cs else rest # cs)
           in (got @ more, left))"
  by pat_completeness auto
termination by (relation "measure fst") auto

definition agent_connect :: "int \<Rightarrow> fw_state \<Rightarrow> fw_state" where
  "agent_connect client_fd st = st\<lparr>fs_agent_fd := client_fd\<rparr>"

definition agent_load :: "nfq_env \<Rightarrow> blocklist_payload \<Rightarrow> fw_state \<Rightarrow> fw_state" where
  "agent_load env p st =
     (let (rep, bl) = update_ip_blocklist (ne_alloc env) (ne_oob_entries env) (fs_rep st) (fs_bl st) p;
          xdp = xdp_load_payload (ne_xdp env) (ne_oob_entries env) p (fs_xdp st)
      in st\<lparr>fs_rep := rep, fs_bl := bl, fs_xdp := xdp\<rparr>)"

definition agent_disconnect :: "int \<Rightarrow> fw_state \<Rightarrow> fw_state" where
  "agent_disconnect client_fd st = (if fs_agent_fd st = client_fd then st\<lparr>fs_agent_fd := - 1\<rparr> else st)"

lemma read_full_length:
  "length (fst (read_full n chunks)) + sum_list (map length (snd (read_full n chunks))) \<le> sum_list (map length chunks)"
proof (induction n chunks rule: read_full.induct)
  case (3 n c cs)
  show ?case
  proof (cases "c = []")
    case False
    let ?got = "take (Suc n) c" and ?rest = "drop (Suc n) c"
    let ?in = "if ?rest = [] then cs else ?rest # cs"
    obtain more left where r: "read_full (Suc n - length ?got) ?in = (more, left)" by (cases "read_full (Suc n - length ?got) ?in")
    have "length more + sum_list (map length left) \<le> sum_list (map length ?in)"
      using "3.IH" [OF False refl refl] r by simp
    moreover have "length ?got + sum_list (map length ?in) = length c + sum_list (map length cs)"
      by (cases "length c \<le> Suc n") (auto simp: not_le)
    ultimately show ?thesis using False r by (simp add: Let_def)
  qed simp
qed simp_all

lemma read_full_decreases:
  "read_full n chunks = (bs, left) \<Longrightarrow> bs \<noteq> [] \<Longrightarrow> sum_list (map length left) < sum_list (map length chunks)"
  using read_full_length [of n chunks] by (cases bs) auto

text \<open>The loop over the payloads of one connection.\<close>

function agent_session :: "nfq_env \<Rightarrow> byte list list \<Rightarrow> fw_state \<Rightarrow> fw_state" where
  "agent_session env chunks st =
     (case read_full PAYLOAD_SIZE chunks of (bs, left) \<Rightarrow>
        if length bs = 0 then st
        else if length bs = PAYLOAD_SIZE then agent_session env left (agent_load env (parse_payload bs) st)
        else st)"
  by pat_completeness auto
termination
  by (relation "measure (\<lambda>(env, chunks, st). sum_list (map length chunks))")
     (auto dest: read_full_decreases [OF sym])

declare agent_session.simps [simp del]

definition agent_listener :: "nfq_env \<Rightarrow> int \<Rightarrow> byte list list \<Rightarrow> fw_state \<Rightarrow> fw_state" where
  "agent_listener env client_fd chunks st =
     agent_disconnect client_fd (agent_session env chunks (agent_connect client_fd st))"

subsection \<open>Start and steps of the daemon\<close>

text \<open>The initialisation of \<^verbatim>\<open>main\<close>; \<^term>\<open>None\<close> when the connection pool cannot be allocated and the daemon exits.\<close>

definition fw_nfq_start :: "nfq_env \<Rightarrow> bool \<Rightarrow> fw_state option" where
  "fw_nfq_start env pool_alloc =
     (let yara = fst (init_yara_engine (ne_yara env) yara_boot ''/etc/fw_inspect/yara'');
          xdp = fst (init_ebpf_xdp (ne_xdp env) xdp_boot);
          (pool, rc) = init_conn_pool pool_alloc
      in if rc \<noteq> 0 then None
         else Some \<lparr>fs_pool = pool, fs_rep = init_ip_reputation, fs_bl = empty_blocklist, fs_yara = yara, fs_xdp = xdp,
                    fs_agent_fd = - 1, fs_dropped = 0, fs_delivered = [], fs_sends = 0, fs_in_docker = - 1,
                    fs_gw_initialized = False, fs_default_gw = 0\<rparr>)"

text \<open>The critical sections of the threads, in any order and with any environment.\<close>

inductive fw_step :: "fw_state \<Rightarrow> fw_state \<Rightarrow> bool" where
  packet: "fw_step st (fst (fw_nfq_callback env payload st))"
| connect: "fw_step st (agent_connect fd st)"
| load: "fw_step st (agent_load env (parse_payload bs) st)"
| disconnect: "fw_step st (agent_disconnect fd st)"
| upload: "fw_step st (st\<lparr>fs_yara := queue_file_upload_scan yenv (fs_yara st) path\<rparr>)"
| worker: "yara_worker_step yenv now (fs_yara st) = Some (ys, lines) \<Longrightarrow> fw_step st (st\<lparr>fs_yara := ys\<rparr>)"

inductive_cases fw_stepE: "fw_step st st'"

inductive fw_reachable :: "fw_state \<Rightarrow> bool" where
  start: "fw_nfq_start env pool_alloc = Some st \<Longrightarrow> fw_reachable st"
| step: "fw_reachable st \<Longrightarrow> fw_step st st' \<Longrightarrow> fw_reachable st'"

subsection \<open>What each part leaves alone\<close>

lemma send_frame [simp]:
  "fs_pool (send_fw_event env e st) = fs_pool st" "fs_rep (send_fw_event env e st) = fs_rep st"
  "fs_bl (send_fw_event env e st) = fs_bl st" "fs_yara (send_fw_event env e st) = fs_yara st"
  "fs_xdp (send_fw_event env e st) = fs_xdp st" "fs_in_docker (send_fw_event env e st) = fs_in_docker st"
  "fs_gw_initialized (send_fw_event env e st) = fs_gw_initialized st"
  "fs_default_gw (send_fw_event env e st) = fs_default_gw st"
  by (simp_all add: send_fw_event_def split: send_result.split)

lemma send_all_frame [simp]:
  "fs_pool (send_all env es st) = fs_pool st" "fs_rep (send_all env es st) = fs_rep st"
  "fs_bl (send_all env es st) = fs_bl st" "fs_yara (send_all env es st) = fs_yara st"
  "fs_xdp (send_all env es st) = fs_xdp st" "fs_in_docker (send_all env es st) = fs_in_docker st"
  "fs_gw_initialized (send_all env es st) = fs_gw_initialized st"
  "fs_default_gw (send_all env es st) = fs_default_gw st"
  unfolding send_all_def by (induction es arbitrary: st) simp_all

text \<open>The fields the bypass check may write are the two caches.\<close>

definition uncached :: "fw_state \<Rightarrow> fw_state" where
  "uncached st = st\<lparr>fs_in_docker := 0, fs_gw_initialized := False, fs_default_gw := 0\<rparr>"

lemma cache_uncached [simp]: "uncached (cache_docker env st) = uncached st" "uncached (cache_gw env st) = uncached st"
  by (simp_all add: uncached_def cache_docker_def cache_gw_def split: option.split)

lemma bypass_uncached: "is_bypassed_ip env st ip = (st', b) \<Longrightarrow> uncached st' = uncached st"
  by (auto simp: is_bypassed_ip_def Let_def split: if_split_asm)

lemma uncached_eqD:
  assumes "uncached st' = uncached st"
  shows "fs_pool st' = fs_pool st \<and> fs_rep st' = fs_rep st \<and> fs_bl st' = fs_bl st \<and> fs_yara st' = fs_yara st \<and>
     fs_xdp st' = fs_xdp st \<and> fs_delivered st' = fs_delivered st \<and> fs_dropped st' = fs_dropped st \<and>
     fs_agent_fd st' = fs_agent_fd st \<and> fs_sends st' = fs_sends st"
  using assms by (cases st; cases st') (simp add: uncached_def)

lemmas bypass_frame = uncached_eqD [OF bypass_uncached]

lemma rep_check_frame [simp]:
  "fs_pool (fst (check_reputation env iph sv)) = fs_pool (fst sv)" "fs_rep (fst (check_reputation env iph sv)) = fs_rep (fst sv)"
  "fs_bl (fst (check_reputation env iph sv)) = fs_bl (fst sv)" "fs_yara (fst (check_reputation env iph sv)) = fs_yara (fst sv)"
  "fs_gw_initialized (fst (check_reputation env iph sv)) = fs_gw_initialized (fst sv)"
  "fs_default_gw (fst (check_reputation env iph sv)) = fs_default_gw (fst sv)"
  by (simp_all add: check_reputation_def Let_def)

lemma bl_check_frame [simp]:
  "fs_pool (fst (check_blocklist env iph sv)) = fs_pool (fst sv)" "fs_rep (fst (check_blocklist env iph sv)) = fs_rep (fst sv)"
  "fs_bl (fst (check_blocklist env iph sv)) = fs_bl (fst sv)" "fs_yara (fst (check_blocklist env iph sv)) = fs_yara (fst sv)"
  "fs_gw_initialized (fst (check_blocklist env iph sv)) = fs_gw_initialized (fst sv)"
  "fs_default_gw (fst (check_blocklist env iph sv)) = fs_default_gw (fst sv)"
  by (simp_all add: check_blocklist_def)

lemma run_http_frame:
  "fs_bl (fst (run_http env skb iph tcph sv)) = fs_bl (fst sv)" "fs_yara (fst (run_http env skb iph tcph sv)) = fs_yara (fst sv)"
  "fs_gw_initialized (fst (run_http env skb iph tcph sv)) = fs_gw_initialized (fst sv)"
  "fs_default_gw (fst (run_http env skb iph tcph sv)) = fs_default_gw (fst sv)"
  "fs_pool (fst (run_http env skb iph tcph sv)) =
     fst (inspect_http_payload (http_env_of env) (fs_yara (fst sv)) (fs_pool (fst sv)) (fs_rep (fst sv)) skb iph tcph)"
  "fs_rep (fst (run_http env skb iph tcph sv)) =
     fst (snd (inspect_http_payload (http_env_of env) (fs_yara (fst sv)) (fs_pool (fst sv)) (fs_rep (fst sv)) skb iph tcph))"
  by (simp_all add: run_http_def Let_def split: prod.split)

lemma tcp_check_frame [simp]:
  "fs_bl (fst (check_tcp env skb iph sv)) = fs_bl (fst sv)" "fs_yara (fst (check_tcp env skb iph sv)) = fs_yara (fst sv)"
  "fs_gw_initialized (fst (check_tcp env skb iph sv)) = fs_gw_initialized (fst sv)"
  "fs_default_gw (fst (check_tcp env skb iph sv)) = fs_default_gw (fst sv)"
  by (simp_all add: check_tcp_def Let_def run_http_frame split: prod.split)

lemma local_bypass_fst [simp]: "fst (local_bypass iph sv) = fst sv"
  by (simp add: local_bypass_def)

text \<open>A verdict of the earlier checks survives the TCP checks.\<close>

lemma tcp_check_keeps_drop: "snd sv = NF_DROP \<Longrightarrow> snd (check_tcp env skb iph sv) = NF_DROP"
  by (simp add: check_tcp_def run_http_def Let_def split: prod.split)

subsection \<open>The invariant of the daemon\<close>

definition fw_ok :: "fw_state \<Rightarrow> bool" where
  "fw_ok st \<longleftrightarrow> rep_ok (fs_rep st) \<and> conn_pool_ok (fs_pool st) \<and> bl_ok (fs_bl st) \<and> ring_ok (fs_yara st)"

lemma check_tcp_pool_ok: "conn_pool_ok (fs_pool (fst sv)) \<Longrightarrow> conn_pool_ok (fs_pool (fst (check_tcp env skb iph sv)))"
proof -
  assume ok: "conn_pool_ok (fs_pool (fst sv))"
  let ?t = "tcp_hdr (ne_oob env) skb"
  obtain pool evs hit where m: "monitor_tcp_stats HZ (ne_jiffies env) (ne_secs env) (fs_pool (fst sv)) iph ?t = (pool, evs, hit)"
    by (metis prod_cases3)
  have "conn_pool_ok pool" using monitor_pool_ok [OF ok, of HZ "ne_jiffies env" "ne_secs env" iph ?t] m by simp
  then show ?thesis using ok m by (simp add: check_tcp_def Let_def run_http_frame inspect_pool_ok)
qed

lemma check_tcp_rep_ok: "rep_ok (fs_rep (fst sv)) \<Longrightarrow> rep_ok (fs_rep (fst (check_tcp env skb iph sv)))"
  by (simp add: check_tcp_def Let_def run_http_frame inspect_rep_ok split: prod.split)

lemma check_tcp_rep_le:
  "rep_ok (fs_rep (fst sv)) \<Longrightarrow>
    get_ip_reputation (fs_rep (fst (check_tcp env skb iph sv))) x \<le> get_ip_reputation (fs_rep (fst sv)) x"
  by (simp add: check_tcp_def Let_def run_http_frame inspect_rep_le split: prod.split)

text \<open>The callback past the bypass check.\<close>

definition decide :: "nfq_env \<Rightarrow> byte list \<Rightarrow> fw_state \<Rightarrow> fw_state \<times> verdict" where
  "decide env data st =
     (let skb = \<lparr>skb_data = data\<rparr>; iph = ip_hdr (ne_oob env) skb
      in local_bypass iph (check_tcp env skb iph (check_blocklist env iph (check_reputation env iph (st, NF_ACCEPT)))))"

lemma callback_cases:
  obtains "fw_nfq_callback env payload st = (st, NF_ACCEPT)"
  | data st' where "payload = Some data" "20 \<le> length data"
      "is_bypassed_ip env st (ip_saddr (ip_hdr (ne_oob env) \<lparr>skb_data = data\<rparr>)) = (st', True)"
      "fw_nfq_callback env payload st = (st', NF_ACCEPT)"
  | data st' where "payload = Some data" "20 \<le> length data"
      "is_bypassed_ip env st (ip_saddr (ip_hdr (ne_oob env) \<lparr>skb_data = data\<rparr>)) = (st', False)"
      "fw_nfq_callback env payload st = decide env data st'"
proof (cases payload)
  case None
  then show ?thesis using that(1) by (simp add: fw_nfq_callback_def)
next
  case (Some data)
  show ?thesis
  proof (cases "20 \<le> length data")
    case True
    obtain st' b where b: "is_bypassed_ip env st (ip_saddr (ip_hdr (ne_oob env) \<lparr>skb_data = data\<rparr>)) = (st', b)"
      by (cases "is_bypassed_ip env st (ip_saddr (ip_hdr (ne_oob env) \<lparr>skb_data = data\<rparr>))")
    show ?thesis
    proof (cases b)
      case True
      with b Some \<open>20 \<le> length data\<close> show ?thesis
        by (intro that(2) [of data st']) (simp_all add: fw_nfq_callback_def Let_def)
    next
      case False
      with b Some \<open>20 \<le> length data\<close> show ?thesis
        by (intro that(3) [of data st']) (simp_all add: fw_nfq_callback_def Let_def decide_def)
    qed
  next
    case False
    then show ?thesis using that(1) Some by (simp add: fw_nfq_callback_def)
  qed
qed

lemma decide_ok: "fw_ok st \<Longrightarrow> fw_ok (fst (decide env data st))"
  by (simp add: fw_ok_def decide_def Let_def check_tcp_pool_ok check_tcp_rep_ok)

lemma decide_rep_le:
  "rep_ok (fs_rep st) \<Longrightarrow> get_ip_reputation (fs_rep (fst (decide env data st))) x \<le> get_ip_reputation (fs_rep st) x"
  unfolding decide_def Let_def local_bypass_fst by (rule order_trans [OF check_tcp_rep_le]) simp_all

lemma decide_caches:
  "fs_gw_initialized (fst (decide env data st)) = fs_gw_initialized st"
  "fs_default_gw (fst (decide env data st)) = fs_default_gw st" "fs_bl (fst (decide env data st)) = fs_bl st"
  by (simp_all add: decide_def Let_def)

lemma fw_ok_cong:
  "fs_pool st' = fs_pool st \<Longrightarrow> fs_rep st' = fs_rep st \<Longrightarrow> fs_bl st' = fs_bl st \<Longrightarrow> fs_yara st' = fs_yara st \<Longrightarrow>
    fw_ok st' = fw_ok st"
  by (simp add: fw_ok_def)

lemma callback_ok [pool_inv]: "fw_ok st \<Longrightarrow> fw_ok (fst (fw_nfq_callback env payload st))"
proof -
  assume ok: "fw_ok st"
  show ?thesis
  proof (rule callback_cases [of env payload st])
    show ?thesis if "fw_nfq_callback env payload st = (st, NF_ACCEPT)" using that ok by simp
    show ?thesis if "is_bypassed_ip env st (ip_saddr (ip_hdr (ne_oob env) \<lparr>skb_data = data\<rparr>)) = (st', True)"
      "fw_nfq_callback env payload st = (st', NF_ACCEPT)" for data st'
      using that(2) ok bypass_frame [OF that(1)] fw_ok_cong [of st' st] by simp
    show ?thesis if "is_bypassed_ip env st (ip_saddr (ip_hdr (ne_oob env) \<lparr>skb_data = data\<rparr>)) = (st', False)"
      "fw_nfq_callback env payload st = decide env data st'" for data st'
      using that(2) ok bypass_frame [OF that(1)] fw_ok_cong [of st' st] decide_ok [of st' env data] by simp
  qed
qed

lemma agent_load_ok [pool_inv]: "fw_ok st \<Longrightarrow> fw_ok (agent_load env p st)"
proof -
  assume ok: "fw_ok st"
  obtain rep bl where u: "update_ip_blocklist (ne_alloc env) (ne_oob_entries env) (fs_rep st) (fs_bl st) p = (rep, bl)"
    by (cases "update_ip_blocklist (ne_alloc env) (ne_oob_entries env) (fs_rep st) (fs_bl st) p")
  have "bl_ok bl" using update_bl_ok [of "fs_bl st" "ne_alloc env" "ne_oob_entries env" "fs_rep st" p] ok u
    by (simp add: fw_ok_def)
  moreover have "rep_ok rep" using u ok sync_rep_ok [of "fs_rep st"] by (auto simp: update_ip_blocklist_def Let_def fw_ok_def)
  ultimately show ?thesis using ok u by (simp add: agent_load_def fw_ok_def Let_def)
qed

lemma connection_ok [pool_inv]: "fw_ok st \<Longrightarrow> fw_ok (agent_connect fd st)" "fw_ok st \<Longrightarrow> fw_ok (agent_disconnect fd st)"
  by (simp_all add: agent_connect_def agent_disconnect_def fw_ok_def)

lemma upload_ok [pool_inv]: "fw_ok st \<Longrightarrow> fw_ok (st\<lparr>fs_yara := queue_file_upload_scan yenv (fs_yara st) path\<rparr>)"
  by (simp add: fw_ok_def enqueue_ring_ok)

lemma worker_ok [pool_inv]:
  "fw_ok st \<Longrightarrow> yara_worker_step yenv now (fs_yara st) = Some (ys, lines) \<Longrightarrow> fw_ok (st\<lparr>fs_yara := ys\<rparr>)"
  by (auto simp: fw_ok_def dest: worker_ring_ok)

lemma fw_step_ok: "fw_step st st' \<Longrightarrow> fw_ok st \<Longrightarrow> fw_ok st'"
  by (erule fw_stepE) (simp_all add: callback_ok agent_load_ok connection_ok upload_ok worker_ok)

lemma start_ok: "fw_nfq_start env pool_alloc = Some st \<Longrightarrow> fw_ok st"
proof -
  assume "fw_nfq_start env pool_alloc = Some st"
  moreover have "conn_pool_ok (fst (init_conn_pool pool_alloc))" by (rule init_pool_ok)
  moreover have "ring_ok (fst (init_yara_engine (ne_yara env) yara_boot ''/etc/fw_inspect/yara''))"
    using boot_ring_ok by (rule init_ring_ok)
  ultimately show ?thesis
    by (auto simp: fw_nfq_start_def fw_ok_def Let_def init_rep_ok empty_bl_ok split: prod.splits if_splits)
qed

text \<open>A packet from a source, whatever lies behind it in memory.\<close>

definition packet_from :: "u32 \<Rightarrow> byte list option \<Rightarrow> bool" where
  "packet_from src payload \<longleftrightarrow>
     (case payload of None \<Rightarrow> False
      | Some data \<Rightarrow> 20 \<le> length data \<and> le32 (data ! 12) (data ! 13) (data ! 14) (data ! 15) = src)"

lemma packet_from_saddr:
  "packet_from src (Some data) \<Longrightarrow> ip_saddr (ip_hdr oob \<lparr>skb_data = data\<rparr>) = src"
  by (simp add: packet_from_def ip_hdr_def skb_byte_def Let_def)

text \<open>Sources that are neither local nor the gateway are not bypassed.\<close>

definition outside :: "fw_state \<Rightarrow> u32 \<Rightarrow> bool" where
  "outside st ip \<longleftrightarrow> \<not> is_local_ip ip \<and> fs_gw_initialized st \<and> fs_default_gw st \<noteq> ip"

lemma outside_not_bypassed:
  assumes "outside st ip"
  shows "snd (is_bypassed_ip env st ip) = False" and "outside (fst (is_bypassed_ip env st ip)) ip"
  using assms
  by (auto simp: outside_def is_bypassed_ip_def is_local_ip_def cache_gw_def cache_docker_def Let_def split: if_splits)

lemma callback_outside:
  assumes "outside st src"
  shows "outside (fst (fw_nfq_callback env payload st)) src"
proof -
  have caches: "outside st' src" if "is_bypassed_ip env st ip = (st', b)" for st' ip b
    using that assms
    by (auto simp: outside_def is_bypassed_ip_def cache_gw_def cache_docker_def Let_def split: if_splits)
  show ?thesis
  proof (rule callback_cases [of env payload st])
    show ?thesis if "fw_nfq_callback env payload st = (st, NF_ACCEPT)" using that assms by simp
    show ?thesis if "is_bypassed_ip env st (ip_saddr (ip_hdr (ne_oob env) \<lparr>skb_data = data\<rparr>)) = (st', True)"
      "fw_nfq_callback env payload st = (st', NF_ACCEPT)" for data st'
      using that(2) caches [OF that(1)] by simp
    show ?thesis if "is_bypassed_ip env st (ip_saddr (ip_hdr (ne_oob env) \<lparr>skb_data = data\<rparr>)) = (st', False)"
      "fw_nfq_callback env payload st = decide env data st'" for data st'
      using that(2) caches [OF that(1)] by (simp add: outside_def decide_caches)
  qed
qed

lemma callback_rep_le:
  assumes "rep_ok (fs_rep st)"
  shows "get_ip_reputation (fs_rep (fst (fw_nfq_callback env payload st))) x \<le> get_ip_reputation (fs_rep st) x"
proof (rule callback_cases [of env payload st])
  show ?thesis if "fw_nfq_callback env payload st = (st, NF_ACCEPT)" using that by simp
  show ?thesis if "is_bypassed_ip env st (ip_saddr (ip_hdr (ne_oob env) \<lparr>skb_data = data\<rparr>)) = (st', True)"
    "fw_nfq_callback env payload st = (st', NF_ACCEPT)" for data st'
    using that(2) bypass_frame [OF that(1)] by simp
  show ?thesis if "is_bypassed_ip env st (ip_saddr (ip_hdr (ne_oob env) \<lparr>skb_data = data\<rparr>)) = (st', False)"
    "fw_nfq_callback env payload st = decide env data st'" for data st'
    using that(2) bypass_frame [OF that(1)] decide_rep_le [of st' env data x] assms by simp
qed

text \<open>The sources no verdict hits: those that bypass the checks, and local ones while local blocking is off.\<close>

definition spared :: "nfq_env \<Rightarrow> fw_state \<Rightarrow> u32 \<Rightarrow> bool" where
  "spared env st ip \<longleftrightarrow> snd (is_bypassed_ip env st ip) \<or> is_local_ip ip \<and> g_block_local_ips (fs_bl st) = 0"

lemma outside_not_spared: "outside st ip \<Longrightarrow> \<not> spared env st ip"
  using outside_not_bypassed(1) [of st ip env] by (simp add: spared_def outside_def)

lemma refused_source_verdict:
  assumes "get_ip_reputation (fs_rep st) src \<le> 20 \<or> inspect_ip_blocklist (ne_ub_shift env) (fs_bl st) src"
    and "ip_saddr (ip_hdr (ne_oob env) \<lparr>skb_data = data\<rparr>) = src"
  shows "snd (decide env data st) = (if is_local_ip src \<and> g_block_local_ips (fs_bl st) = 0 then NF_ACCEPT else NF_DROP)"
proof -
  let ?skb = "\<lparr>skb_data = data\<rparr>" let ?iph = "ip_hdr (ne_oob env) ?skb"
  let ?sv = "check_blocklist env ?iph (check_reputation env ?iph (st, NF_ACCEPT))"
  have "snd ?sv = NF_DROP" using assms(1,2) by (auto simp: check_blocklist_def check_reputation_def Let_def)
  then have "snd (check_tcp env ?skb ?iph ?sv) = NF_DROP" by (rule tcp_check_keeps_drop)
  moreover have "fs_bl (fst (check_tcp env ?skb ?iph ?sv)) = fs_bl st" by simp
  ultimately show ?thesis using assms(2) by (auto simp: decide_def Let_def local_bypass_def)
qed

text \<open>The daemon on a sequence of packets.\<close>

fun nfq_run :: "(nfq_env \<times> byte list option) list \<Rightarrow> fw_state \<Rightarrow> fw_state \<times> verdict list" where
  "nfq_run [] st = (st, [])"
| "nfq_run ((env, payload) # pkts) st =
     (case fw_nfq_callback env payload st of (st, v) \<Rightarrow> case nfq_run pkts st of (st, vs) \<Rightarrow> (st, v # vs))"

lemma refused_packet_verdict:
  assumes "packet_from src payload"
    and "get_ip_reputation (fs_rep st) src \<le> 20 \<or> inspect_ip_blocklist (ne_ub_shift env) (fs_bl st) src"
  shows "snd (fw_nfq_callback env payload st) = (if spared env st src then NF_ACCEPT else NF_DROP)"
proof -
  obtain data where d: "payload = Some data" "20 \<le> length data"
    using assms(1) by (auto simp: packet_from_def split: option.splits)
  have ip: "ip_saddr (ip_hdr (ne_oob env) \<lparr>skb_data = data\<rparr>) = src"
    using assms(1) d(1) by (simp add: packet_from_saddr)
  obtain st' b where b: "is_bypassed_ip env st src = (st', b)" by (cases "is_bypassed_ip env st src")
  have "snd (decide env data st') = (if is_local_ip src \<and> g_block_local_ips (fs_bl st) = 0 then NF_ACCEPT else NF_DROP)"
    using assms(2) ip bypass_frame [OF b] refused_source_verdict [of st' src env data] by simp
  then show ?thesis using b d ip by (simp add: fw_nfq_callback_def decide_def spared_def Let_def)
qed

lemma refused_packet_dropped:
  assumes "packet_from src payload" and "outside st src"
    and "get_ip_reputation (fs_rep st) src \<le> 20 \<or> inspect_ip_blocklist (ne_ub_shift env) (fs_bl st) src"
  shows "snd (fw_nfq_callback env payload st) = NF_DROP"
  using refused_packet_verdict [OF assms(1,3)] outside_not_spared [OF assms(2), of env] by simp

subsection \<open>The bytes of a blocklist payload\<close>

definition encode_entry :: "blocklist_entry \<Rightarrow> byte list" where
  "encode_entry e = encode_u32 (be_ip e) @ [char_of (unat (be_mask e)), NUL, NUL, NUL]"

definition encode_payload :: "blocklist_payload \<Rightarrow> byte list" where
  "encode_payload p = encode_u32 (bp_count p) @ encode_u32 (bp_block_local_ips p) @ concat (map encode_entry (bp_entries p))"

lemma length_encode_entry [simp]: "length (encode_entry e) = 8"
  by (simp add: encode_entry_def)

lemma length_encode_payload: "payload_wf p \<Longrightarrow> length (encode_payload p) = PAYLOAD_SIZE"
proof -
  assume wf: "payload_wf p"
  have "length (concat (map encode_entry es)) = 8 * length es" for es
    by (induction es) simp_all
  with wf show ?thesis by (simp add: encode_payload_def PAYLOAD_SIZE_def payload_wf_def)
qed

lemma nth_encoded_entries:
  "i < length es \<Longrightarrow> k < 8 \<Longrightarrow> concat (map encode_entry es) ! (8 * i + k) = encode_entry (es ! i) ! k"
proof (induction es arbitrary: i)
  case (Cons e es)
  show ?case
  proof (cases i)
    case 0
    with Cons.prems show ?thesis by (simp add: nth_append)
  next
    case (Suc j)
    with Cons.prems have "concat (map encode_entry es) ! (8 * j + k) = encode_entry (es ! j) ! k" by (intro Cons.IH) simp_all
    with Suc show ?thesis by (simp add: nth_append)
  qed
qed simp

lemma parse_encode: "payload_wf p \<Longrightarrow> parse_payload (encode_payload p) = p"
proof -
  assume wf: "payload_wf p"
  let ?bs = "encode_payload p"
  have at: "?bs ! (8 + 8 * i + k) = encode_entry (bp_entries p ! i) ! k" if "i < MAX_BLOCKLIST_IPS" "k < 8" for i k
    using wf that nth_encoded_entries [of i "bp_entries p" k]
    by (simp add: encode_payload_def payload_wf_def nth_append)
  have "parse_entry ?bs i = bp_entries p ! i" if "i < MAX_BLOCKLIST_IPS" for i
    using at [OF that, of 0] at [OF that, of 1] at [OF that, of 2] at [OF that, of 3] at [OF that, of 4]
    by (simp add: parse_entry_def Let_def encode_entry_def encode_u32_def le32_bytes [unfolded One_nat_def] of_char_mask)
  then have "map (parse_entry ?bs) [0..<MAX_BLOCKLIST_IPS] = bp_entries p"
    using wf by (intro nth_equalityI) (simp_all add: payload_wf_def)
  moreover have "le32 (?bs ! 0) (?bs ! 1) (?bs ! 2) (?bs ! 3) = bp_count p"
    "le32 (?bs ! 4) (?bs ! 5) (?bs ! 6) (?bs ! 7) = bp_block_local_ips p"
    by (simp_all add: encode_payload_def encode_u32_def le32_bytes [unfolded One_nat_def])
  ultimately show ?thesis by (simp add: parse_payload_def)
qed

text \<open>Reading collects exactly the requested bytes when there are enough, however they are cut into chunks.\<close>

lemma read_full_concat:
  assumes "[] \<notin> set chunks" and "n \<le> length (concat chunks)"
  shows "fst (read_full n chunks) = take n (concat chunks) \<and> concat (snd (read_full n chunks)) = drop n (concat chunks) \<and>
    [] \<notin> set (snd (read_full n chunks))"
  using assms
proof (induction n chunks rule: read_full.induct)
  case (3 n c cs)
  let ?got = "take (Suc n) c" and ?rest = "drop (Suc n) c"
  let ?in = "if ?rest = [] then cs else ?rest # cs"
  have ne: "c \<noteq> []" "[] \<notin> set ?in" using "3.prems"(1) by auto
  have cat: "concat ?in = ?rest @ concat cs" by simp
  have "fst (read_full (Suc n - length ?got) ?in) = take (Suc n - length ?got) (concat ?in) \<and>
      concat (snd (read_full (Suc n - length ?got) ?in)) = drop (Suc n - length ?got) (concat ?in) \<and>
      [] \<notin> set (snd (read_full (Suc n - length ?got) ?in))"
    using "3.prems"(2) ne(2) cat by (intro "3.IH" [OF ne(1) refl refl]) simp_all
  moreover have "read_full (Suc n) (c # cs) =
      (?got @ fst (read_full (Suc n - length ?got) ?in), snd (read_full (Suc n - length ?got) ?in))"
    using ne(1) by (simp add: Let_def split: prod.split)
  moreover have "?got @ take (Suc n - length ?got) (?rest @ concat cs) = take (Suc n) (concat (c # cs))"
    by (cases "length c \<le> Suc n") simp_all
  moreover have "drop (Suc n - length ?got) (?rest @ concat cs) = drop (Suc n) (concat (c # cs))"
    by (cases "length c \<le> Suc n") simp_all
  ultimately show ?case unfolding cat by (simp only: fst_conv snd_conv simp_thms)
qed simp_all

lemma read_full_empty: "[] \<notin> set chunks \<Longrightarrow> concat chunks = [] \<Longrightarrow> fst (read_full n chunks) = []"
  by (cases chunks; cases n) auto

lemma agent_session_payloads:
  assumes "[] \<notin> set chunks" and "concat chunks = concat (map encode_payload ps)" and "list_all payload_wf ps"
  shows "agent_session env chunks st = foldl (\<lambda>st p. agent_load env p st) st ps"
  using assms
proof (induction ps arbitrary: chunks st)
  case Nil
  then have "fst (read_full PAYLOAD_SIZE chunks) = []" by (intro read_full_empty) simp_all
  then show ?case by (subst agent_session.simps) (auto split: prod.split)
next
  case (Cons p ps)
  have len: "length (encode_payload p) = PAYLOAD_SIZE" using Cons.prems(3) by (simp add: length_encode_payload)
  then have "PAYLOAD_SIZE \<le> length (concat chunks)" using Cons.prems(2) by simp
  note r = read_full_concat [OF Cons.prems(1) this]
  obtain bs left where bl: "read_full PAYLOAD_SIZE chunks = (bs, left)" by (cases "read_full PAYLOAD_SIZE chunks")
  have bs: "bs = encode_payload p" and left: "concat left = concat (map encode_payload ps)" "[] \<notin> set left"
    using r bl Cons.prems(2) len by simp_all
  have "agent_session env chunks st = agent_session env left (agent_load env (parse_payload bs) st)"
    using bl bs len by (subst agent_session.simps) (auto simp: PAYLOAD_SIZE_def)
  also have "\<dots> = foldl (\<lambda>st p. agent_load env p st) (agent_load env p st) ps"
    using Cons.IH [OF left(2,1)] Cons.prems(3) bs by (simp add: parse_encode)
  finally show ?case by simp
qed

text \<open>Sending never blocks the packet path and loses nothing silently while an agent is connected: of the
  events sent, each is delivered in order, counted as dropped, or is the one that closed the
  connection; the components' state is untouched.\<close>

lemma nfq_event_accounting:
  assumes "fs_agent_fd st \<noteq> - 1" and "send_fw_event env e st = st'"
  shows "(fs_delivered st' = fs_delivered st @ [e] \<and> fs_dropped st' = fs_dropped st \<and> fs_agent_fd st' = fs_agent_fd st) \<or>
    (fs_delivered st' = fs_delivered st \<and> fs_dropped st' = fs_dropped st + 1 \<and> fs_agent_fd st' = fs_agent_fd st) \<or>
    (fs_delivered st' = fs_delivered st \<and> fs_dropped st' = fs_dropped st \<and> fs_agent_fd st' = - 1)"
  using assms by (auto simp: send_fw_event_def split: send_result.splits)

subsection \<open>Properties\<close>

text \<open>The wire format of the agent channel round-trips, and the listener is independent of how the
  socket cuts the stream: if the bytes received are those of a sequence of blocklists, in any
  non-empty chunks, the session loads exactly these blocklists in order.\<close>

theorem nfq_session_chunking:
  assumes "[] \<notin> set chunks" and "concat chunks = concat (map encode_payload ps)" and "list_all payload_wf ps"
  shows "agent_session env chunks st = foldl (\<lambda>st p. agent_load env p st) st ps \<and>
    map (\<lambda>p. parse_payload (encode_payload p)) ps = ps"
proof -
  have "map (\<lambda>p. parse_payload (encode_payload p)) ps = ps"
    using assms(3) by (intro map_idI) (auto simp: list_all_iff parse_encode)
  with agent_session_payloads [OF assms] show ?thesis by simp
qed

text \<open>A source the daemon bypasses (loopback, the Docker host network inside a container, the default
  gateway) is accepted, and the packet reaches none of the engines: connection pool, reputation,
  blocklist, upload queue and event channel stay as they were.\<close>

theorem nfq_bypass_is_transparent:
  assumes "20 \<le> length data" and "snd (is_bypassed_ip env st (ip_saddr (ip_hdr (ne_oob env) \<lparr>skb_data = data\<rparr>)))"
    and "fw_nfq_callback env (Some data) st = (st', v)"
  shows "v = NF_ACCEPT \<and> fs_pool st' = fs_pool st \<and> fs_rep st' = fs_rep st \<and> fs_bl st' = fs_bl st \<and>
    fs_yara st' = fs_yara st \<and> fs_delivered st' = fs_delivered st \<and> fs_dropped st' = fs_dropped st"
proof -
  obtain s where b: "is_bypassed_ip env st (ip_saddr (ip_hdr (ne_oob env) \<lparr>skb_data = data\<rparr>)) = (s, True)"
    using assms(2) by (metis (full_types) prod.collapse)
  then have "st' = s" "v = NF_ACCEPT" using assms(1,3) by (simp_all add: fw_nfq_callback_def Let_def)
  with bypass_frame [OF b] show ?thesis by simp
qed

text \<open>C33: While local blocking is off, no packet of a local source (127/8, 10/8, 172.16/12, 192.168/16) that reaches the
  netfilter queue is ever dropped there, whatever the engines find in it.\<close>

theorem nfq_local_never_dropped:
  assumes "is_local_ip (ip_saddr (ip_hdr (ne_oob env) \<lparr>skb_data = data\<rparr>))" and "g_block_local_ips (fs_bl st) = 0"
  shows "snd (fw_nfq_callback env (Some data) st) = NF_ACCEPT"
proof (rule callback_cases [of env "Some data" st])
  show ?thesis if "is_bypassed_ip env st (ip_saddr (ip_hdr (ne_oob env) \<lparr>skb_data = d\<rparr>)) = (st', False)"
    "fw_nfq_callback env (Some data) st = decide env d st'" "Some data = Some d" for d st'
  proof -
    have "g_block_local_ips (fs_bl st') = 0" using bypass_frame [OF that(1)] assms(2) by simp
    moreover have "d = data" using that(3) by simp
    ultimately have "snd (decide env d st') = NF_ACCEPT"
      using assms(1) verdict.exhaust by (auto simp: decide_def Let_def local_bypass_def)
    then show ?thesis using that(2) by simp
  qed
qed simp_all

text \<open>C5: A source outside the local networks, other than the default gateway (which the daemon has looked up before),
  that is on the blocklist or whose reputation is 20 or less is dropped on every packet with a complete IP header, whatever
  the packet carries.\<close>

theorem nfq_refused_source_dropped:
  assumes "packet_from src payload" and "outside st src"
    and "get_ip_reputation (fs_rep st) src \<le> 20 \<or> inspect_ip_blocklist (ne_ub_shift env) (fs_bl st) src"
  shows "snd (fw_nfq_callback env payload st) = NF_DROP"
  using assms by (rule refused_packet_dropped)

subsection \<open>Witnesses\<close>

definition sample_nfq :: nfq_env where
  "sample_nfq = \<lparr>ne_jiffies = 7, ne_secs = 1, ne_oob = (\<lambda>_. NUL), ne_junk = [], ne_ub_shift = (\<lambda>_. 0), ne_yara = mock_yara,
     ne_xdp = open_xdp, ne_dockerenv = False, ne_route = None, ne_send = (\<lambda>_. SENT), ne_alloc = (\<lambda>_. True),
     ne_oob_entries = (\<lambda>_. \<lparr>be_ip = 0, be_mask = 0\<rparr>)\<rparr>"

text \<open>The state after the daemon has started.\<close>

definition sample_state :: fw_state where
  "sample_state = \<lparr>fs_pool = fst (init_conn_pool True), fs_rep = init_ip_reputation, fs_bl = empty_blocklist,
     fs_yara = fst (init_yara_engine mock_yara yara_boot ''/etc/fw_inspect/yara''),
     fs_xdp = fst (init_ebpf_xdp open_xdp xdp_boot), fs_agent_fd = - 1, fs_dropped = 0, fs_delivered = [], fs_sends = 0,
     fs_in_docker = - 1, fs_gw_initialized = False, fs_default_gw = 0\<rparr>"

lemma sample_started: "fw_nfq_start sample_nfq True = Some sample_state"
  by (simp add: fw_nfq_start_def sample_state_def sample_nfq_def init_conn_pool_def Let_def)

text \<open>A bare IP header from the source with the four octets.\<close>

definition header_from :: "char \<Rightarrow> char \<Rightarrow> char \<Rightarrow> char \<Rightarrow> byte list" where
  "header_from a b c d = [NUL, NUL, NUL, NUL, NUL, NUL, NUL, NUL, NUL, NUL, NUL, NUL, a, b, c, d, NUL, NUL, NUL, NUL]"

lemma header_from_packet: "packet_from (le32 a b c d) (Some (header_from a b c d))"
  and header_from_saddr: "ip_saddr (ip_hdr oob \<lparr>skb_data = header_from a b c d\<rparr>) = le32 a b c d"
  and length_header_from: "length (header_from a b c d) = 20"
  by (simp_all add: packet_from_def header_from_def ip_hdr_def skb_byte_def Let_def)

theorem nfq_session_chunking_witness:
  "agent_session sample_nfq [take 3 (encode_payload sample_payload), drop 3 (encode_payload sample_payload)] sample_state =
   agent_load sample_nfq sample_payload sample_state"
proof -
  have wf: "payload_wf sample_payload" by (simp add: payload_wf_def sample_payload_def MAX_BLOCKLIST_IPS_def)
  then have "length (encode_payload sample_payload) = 8200"
    by (simp add: length_encode_payload PAYLOAD_SIZE_def MAX_BLOCKLIST_IPS_def)
  then have "[] \<notin> set [take 3 (encode_payload sample_payload), drop 3 (encode_payload sample_payload)]" by auto
  from nfq_session_chunking [OF this, of "[sample_payload]" sample_nfq sample_state] wf show ?thesis by simp
qed

theorem nfq_bypass_is_transparent_witness:
  "snd (fw_nfq_callback sample_nfq (Some (header_from (CHR 0x7F) NUL NUL (CHR 0x01))) sample_state) = NF_ACCEPT \<and>
   fs_rep (fst (fw_nfq_callback sample_nfq (Some (header_from (CHR 0x7F) NUL NUL (CHR 0x01))) sample_state)) = init_ip_reputation"
proof -
  let ?data = "header_from (CHR 0x7F) NUL NUL (CHR 0x01)"
  obtain st' v where r: "fw_nfq_callback sample_nfq (Some ?data) sample_state = (st', v)"
    by (cases "fw_nfq_callback sample_nfq (Some ?data) sample_state")
  have "octet 0 (le32 (CHR 0x7F) NUL NUL (CHR 0x01)) = 127" by (simp add: octet_def le32_def byte_swap32_def)
  then have "snd (is_bypassed_ip sample_nfq sample_state (ip_saddr (ip_hdr (ne_oob sample_nfq) \<lparr>skb_data = ?data\<rparr>)))"
    unfolding header_from_saddr by (simp add: is_bypassed_ip_def)
  from nfq_bypass_is_transparent [OF _ this r] show ?thesis by (simp add: r length_header_from) (simp add: sample_state_def)
qed

text \<open>The same state once the gateway has been looked up, with the list of 203.0.113.0/24 loaded.\<close>

definition guarded_state :: fw_state where
  "guarded_state = agent_load sample_nfq sample_payload (sample_state\<lparr>fs_gw_initialized := True\<rparr>)"

lemma guarded_outside: "outside guarded_state (le32 (CHR 0xCB) NUL (CHR 0x71) (CHR 0x4D))"
  by (simp add: outside_def guarded_state_def agent_load_def sample_state_def is_local_ip_def octet_def le32_def
      byte_swap32_def Let_def split: prod.split)

lemma guarded_listed: "inspect_ip_blocklist ub (fs_bl guarded_state) (le32 (CHR 0xCB) NUL (CHR 0x71) (CHR 0x4D))"
proof -
  let ?up = "update_ip_blocklist (\<lambda>_. True) (\<lambda>_. \<lparr>be_ip = 0, be_mask = 0\<rparr>) init_ip_reputation empty_blocklist sample_payload"
  have "payload_entry (\<lambda>_. \<lparr>be_ip = 0, be_mask = 0\<rparr>) sample_payload 0 = \<lparr>be_ip = inet_addr4 203 0 113 0, be_mask = 24\<rparr>"
    by (simp add: payload_entry_def sample_payload_def)
  then have "(inet_addr4 203 0 113 0, 24) \<in> bl_nodes (bl_hash (snd ?up))"
    unfolding update_bl_nodes [OF empty_bl_ok]
    by (intro image_eqI [of _ _ 0]) (simp_all add: load_count_def sample_payload_def MAX_BLOCKLIST_IPS_def)
  moreover have "cidr_match ub (le32 (CHR 0xCB) NUL (CHR 0x71) (CHR 0x4D)) (inet_addr4 203 0 113 0) 24"
    by (subst cidr_match_same_network) (simp_all add: same_network_def inet_addr4_def le32_def byte_swap32_def)
  moreover have "fs_bl guarded_state = snd ?up"
    by (simp add: guarded_state_def agent_load_def sample_state_def sample_nfq_def Let_def split: prod.split)
  ultimately show ?thesis unfolding inspect_iff by auto
qed

theorem nfq_refused_source_dropped_witness:
  "snd (fw_nfq_callback sample_nfq (Some (header_from (CHR 0xCB) NUL (CHR 0x71) (CHR 0x4D))) guarded_state) = NF_DROP"
  by (rule nfq_refused_source_dropped [OF header_from_packet guarded_outside disjI2 [OF guarded_listed]])

theorem nfq_local_never_dropped_witness:
  "snd (fw_nfq_callback sample_nfq (Some (header_from (CHR 0x0A) NUL NUL (CHR 0x09))) sample_state) = NF_ACCEPT"
proof (rule nfq_local_never_dropped)
  show "is_local_ip (ip_saddr (ip_hdr (ne_oob sample_nfq) \<lparr>skb_data = header_from (CHR 0x0A) NUL NUL (CHR 0x09)\<rparr>))"
    by (simp add: header_from_saddr is_local_ip_def octet_def le32_def byte_swap32_def Let_def)
  show "g_block_local_ips (fs_bl sample_state) = 0" by (simp add: sample_state_def empty_blocklist_def)
qed

end
