(* ===== verification/Fw_Daemon.thy ===== *)
theory Fw_Daemon
  imports Fw_Nfq
begin

section \<open>The program around the packet filter (fw\_nfq.c)\<close>

text \<open>
  The watcher of the upload directory, which feeds the YARA queue, and \<^verbatim>\<open>main\<close>: opening and releasing what the daemon
  needs.

  \<^item> A read of the inotify descriptor is the buffer of 32768 bytes as it stands afterwards, with the number of bytes
    delivered; a negative number ends the watcher.
  \<^item> What the system calls of \<^verbatim>\<open>main\<close> and of libnetfilter\_queue return is an input (\<open>main_env\<close>). The packets
    delivered until \<^verbatim>\<open>recv\<close> fails go through the callback of \<open>Fw_Nfq\<close>; how the other threads interleave with them is
    the subject of \<open>fw_step\<close> there.
\<close>

subsection \<open>Watching uploads\<close>

definition IN_CLOSE_WRITE :: u32 where "IN_CLOSE_WRITE = 0x8"
definition IN_MOVED_TO :: u32 where "IN_MOVED_TO = 0x80"

text \<open>\<^verbatim>\<open>struct inotify_event\<close>: watch, mask, cookie and length of the name, four bytes each, then the name.\<close>

definition INOTIFY_SIZE :: nat where "INOTIFY_SIZE = 16"
definition WATCH_BUF :: nat where "WATCH_BUF = 1024 * (INOTIFY_SIZE + 16)"

definition word_at :: "byte list \<Rightarrow> nat \<Rightarrow> u32" where
  "word_at buf i = le32 (buf ! i) (buf ! (i + 1)) (buf ! (i + 2)) (buf ! (i + 3))"

definition upload_path :: "string \<Rightarrow> string \<Rightarrow> string" where
  "upload_path upload_dir name = snprintf_buf 512 (upload_dir @ ''/'' @ name)"

text \<open>The paths queued for the events from offset \<^term>\<open>i\<close> on.\<close>

function watch_loop :: "string \<Rightarrow> byte list \<Rightarrow> nat \<Rightarrow> nat \<Rightarrow> string list" where
  "watch_loop upload_dir buf len i =
     (if i < len then
        (let ev_mask = word_at buf (i + 4); ev_len = unat (word_at buf (i + 12)); name = cstr (drop (i + INOTIFY_SIZE) buf)
         in (if ev_len \<noteq> 0 \<and> ev_mask AND (IN_CLOSE_WRITE OR IN_MOVED_TO) \<noteq> 0 then [upload_path upload_dir name] else []) @
            watch_loop upload_dir buf len (i + (INOTIFY_SIZE + ev_len)))
      else [])"
  by pat_completeness auto
termination by (relation "measure (\<lambda>(upload_dir, buf, len, i). len - i)") (auto simp: INOTIFY_SIZE_def)

declare watch_loop.simps [simp del]

record watch_env =
  we_upload_dir :: "string option"
  we_inotify_init :: int
  we_add_watch :: int
  we_yara :: yara_env

definition watched_dir :: "watch_env \<Rightarrow> string" where
  "watched_dir env = (case we_upload_dir env of Some d \<Rightarrow> d | None \<Rightarrow> ''/var/www/uploads'')"

fun watch_reads :: "watch_env \<Rightarrow> (byte list \<times> int) list \<Rightarrow> yara_state \<Rightarrow> yara_state" where
  "watch_reads env [] st = st"
| "watch_reads env ((buf, len) # reads) st =
     (if len < 0 then st
      else watch_reads env reads (foldl (queue_file_upload_scan (we_yara env)) st (watch_loop (watched_dir env) buf (nat len) 0)))"

definition yara_inotify_thread :: "watch_env \<Rightarrow> (byte list \<times> int) list \<Rightarrow> yara_state \<Rightarrow> yara_state" where
  "yara_inotify_thread env reads st =
     (if we_inotify_init env < 0 then st
      else if we_add_watch env < 0 then st
      else watch_reads env reads st)"

subsection \<open>Start and stop\<close>

record main_env =
  me_pool_alloc :: bool
  me_socket :: int
  me_bind :: int
  me_listen :: int
  me_listener_thread :: int
  me_nfq_open :: bool
  me_unbind_pf :: int
  me_bind_pf :: int
  me_create_queue :: bool
  me_set_mode :: int

text \<open>What the process holds: the state of the engines, the agent socket with its file, the netfilter handle, its queue, and whether the
  listener runs.\<close>

record daemon =
  dm_fw :: fw_state
  dm_server_fd :: bool
  dm_socket_path :: bool
  dm_nfq :: bool
  dm_queue :: bool
  dm_listener :: bool

definition cleanup_conn_pool :: "daemon \<Rightarrow> daemon" where
  "cleanup_conn_pool d = d\<lparr>dm_fw := (dm_fw d)\<lparr>fs_pool := None\<rparr>\<rparr>"

definition close_server :: "daemon \<Rightarrow> daemon" where
  "close_server d = d\<lparr>dm_server_fd := False\<rparr>"

definition nfq_close :: "daemon \<Rightarrow> daemon" where
  "nfq_close d = d\<lparr>dm_nfq := False\<rparr>"

definition nfq_destroy_queue :: "daemon \<Rightarrow> daemon" where
  "nfq_destroy_queue d = d\<lparr>dm_queue := False\<rparr>"

text \<open>Everything after the packet loop.\<close>

definition daemon_stop :: "nfq_env \<Rightarrow> daemon \<Rightarrow> daemon" where
  "daemon_stop env d =
     (let d = cleanup_conn_pool ((close_server (nfq_close (nfq_destroy_queue d)))\<lparr>dm_socket_path := False\<rparr>);
          fw = dm_fw d
      in d\<lparr>dm_fw := fw\<lparr>fs_xdp := cleanup_ebpf_xdp (ne_xdp env) (fs_xdp fw), fs_yara := cleanup_yara_engine (ne_yara env) (fs_yara fw),
                     fs_rep := cleanup_ip_reputation (fs_rep fw)\<rparr>\<rparr>)"

definition daemon_main ::
    "main_env \<Rightarrow> nfq_env \<Rightarrow> (nfq_env \<times> byte list option) list \<Rightarrow> daemon \<Rightarrow> daemon \<times> int" where
  "daemon_main env nenv pkts d =
     (case fw_nfq_start nenv (me_pool_alloc env) of
        None \<Rightarrow> (d\<lparr>dm_fw := (dm_fw d)\<lparr>fs_pool := None, fs_rep := init_ip_reputation, fs_xdp := fst (init_ebpf_xdp (ne_xdp nenv) xdp_boot),
                  fs_yara := fst (init_yara_engine (ne_yara nenv) yara_boot ''/etc/fw_inspect/yara'')\<rparr>\<rparr>, 1)
      | Some fw \<Rightarrow>
          (let d = d\<lparr>dm_fw := fw, dm_socket_path := False\<rparr> in
           if me_socket env < 0 then (cleanup_conn_pool d, 1)
           else let d = d\<lparr>dm_server_fd := True\<rparr> in
           if me_bind env < 0 then (cleanup_conn_pool (close_server d), 1)
           else let d = d\<lparr>dm_socket_path := True\<rparr> in
           if me_listen env < 0 then (cleanup_conn_pool (close_server d), 1)
           else if me_listener_thread env \<noteq> 0 then (cleanup_conn_pool (close_server d), 1)
           else let d = d\<lparr>dm_listener := True\<rparr> in
           if \<not> me_nfq_open env then (cleanup_conn_pool (close_server d), 1)
           else let d = d\<lparr>dm_nfq := True\<rparr> in
           if me_unbind_pf env < 0 then (cleanup_conn_pool (close_server (nfq_close d)), 1)
           else if me_bind_pf env < 0 then (cleanup_conn_pool (close_server (nfq_close d)), 1)
           else if \<not> me_create_queue env then (cleanup_conn_pool (close_server (nfq_close d)), 1)
           else let d = d\<lparr>dm_queue := True\<rparr> in
           if me_set_mode env < 0 then (cleanup_conn_pool (close_server (nfq_close (nfq_destroy_queue d))), 1)
           else (daemon_stop nenv (d\<lparr>dm_fw := fst (nfq_run pkts (dm_fw d))\<rparr>), 0)))"

subsection \<open>Events as the kernel delivers them\<close>

record inotify_event =
  iv_wd :: u32
  iv_mask :: u32
  iv_cookie :: u32
  iv_name :: string
  iv_pad :: nat

definition encode_inotify :: "inotify_event \<Rightarrow> byte list" where
  "encode_inotify e = encode_u32 (iv_wd e) @ encode_u32 (iv_mask e) @ encode_u32 (iv_cookie e) @
     encode_u32 (of_nat (length (iv_name e) + iv_pad e)) @ iv_name e @ replicate (iv_pad e) NUL"

text \<open>The name of an event is empty, or a string with at least one terminator behind it.\<close>

definition inotify_wf :: "inotify_event \<Rightarrow> bool" where
  "inotify_wf e \<longleftrightarrow> NUL \<notin> set (iv_name e) \<and> (iv_name e = [] \<longleftrightarrow> iv_pad e = 0) \<and> length (iv_name e) + iv_pad e < 2 ^ 32"

definition upload_event :: "inotify_event \<Rightarrow> bool" where
  "upload_event e \<longleftrightarrow> iv_name e \<noteq> [] \<and> iv_mask e AND (IN_CLOSE_WRITE OR IN_MOVED_TO) \<noteq> 0"

lemma length_encode_inotify: "length (encode_inotify e) = INOTIFY_SIZE + (length (iv_name e) + iv_pad e)"
  by (simp add: encode_inotify_def INOTIFY_SIZE_def)

lemma word_at_encoded: "word_at (pre @ encode_u32 w @ rest) (length pre) = w"
  using le32_bytes [of w] by (simp add: word_at_def nth_append encode_u32_nth)

lemma word_at_append: "word_at (pre @ encode_u32 w @ rest) n = w" if "n = length pre"
  using that word_at_encoded by simp

lemma watch_event:
  assumes "inotify_wf e" "length pre < len"
  shows "watch_loop dir (pre @ encode_inotify e @ rest) len (length pre) =
    (if upload_event e then [upload_path dir (iv_name e)] else []) @
    watch_loop dir ((pre @ encode_inotify e) @ rest) len (length (pre @ encode_inotify e))"
proof -
  let ?buf = "pre @ encode_inotify e @ rest" and ?n = "length (iv_name e) + iv_pad e"
  have mask: "word_at ?buf (length pre + 4) = iv_mask e"
    using word_at_append [of "length pre + 4" "pre @ encode_u32 (iv_wd e)" "iv_mask e"] by (simp add: encode_inotify_def)
  have "word_at ?buf (length pre + 12) = of_nat ?n"
    using word_at_append [of "length pre + 12" "pre @ encode_u32 (iv_wd e) @ encode_u32 (iv_mask e) @ encode_u32 (iv_cookie e)" "of_nat ?n"]
    by (simp add: encode_inotify_def)
  then have len: "unat (word_at ?buf (length pre + 12)) = ?n"
    using assms(1) by (simp only: inotify_wf_def unsigned_of_nat) (simp add: take_bit_nat_eq_self)
  have d: "drop (length pre + INOTIFY_SIZE) ?buf = iv_name e @ replicate (iv_pad e) NUL @ rest"
    by (simp add: encode_inotify_def INOTIFY_SIZE_def)
  have name: "cstr (drop (length pre + INOTIFY_SIZE) ?buf) = iv_name e" if ne: "iv_name e \<noteq> []"
  proof -
    obtain k where "iv_pad e = Suc k" using assms(1) ne by (cases "iv_pad e") (auto simp: inotify_wf_def)
    then show ?thesis using assms(1) cstr_append_NUL [of "iv_name e"] unfolding d by (simp add: inotify_wf_def)
  qed
  have "?n \<noteq> 0 \<longleftrightarrow> iv_name e \<noteq> []" using assms(1) by (auto simp: inotify_wf_def)
  then show ?thesis
    using assms(2) name
    by (subst watch_loop.simps) (auto simp: Let_def mask len upload_event_def length_encode_inotify add.assoc)
qed

lemma watch_events:
  assumes "list_all inotify_wf evs"
  shows "watch_loop dir (pre @ concat (map encode_inotify evs) @ rest) (length pre + length (concat (map encode_inotify evs))) (length pre) =
    map (\<lambda>e. upload_path dir (iv_name e)) (filter upload_event evs)"
  using assms
proof (induction evs arbitrary: pre)
  case Nil
  then show ?case by (subst watch_loop.simps) simp
next
  case (Cons e evs)
  let ?len = "length pre + length (concat (map encode_inotify (e # evs)))"
  have "0 < length (encode_inotify e)" by (simp add: length_encode_inotify INOTIFY_SIZE_def)
  then have "length pre < ?len" by simp
  then show ?case
    using watch_event [of e pre ?len dir "concat (map encode_inotify evs) @ rest"] Cons.IH [of "pre @ encode_inotify e"] Cons.prems
    by (simp add: add.assoc)
qed

lemma watched_uploads:
  assumes "ring_running st" "strdup_ok (we_yara env)" "0 \<le> we_inotify_init env" "0 \<le> we_add_watch env" "list_all inotify_wf evs"
  shows "ring_list (yara_inotify_thread env [(concat (map encode_inotify evs) @ stale, int (length (concat (map encode_inotify evs))))] st) =
    ring_list st @ take (255 - length (ring_list st))
      (map (\<lambda>e. Some (upload_path (watched_dir env) (iv_name e))) (filter upload_event evs))"
  using enqueue_burst [OF assms(1,2)] watch_events [OF assms(5), of "watched_dir env" "[]" stale] assms(3,4)
  by (simp add: yara_inotify_thread_def comp_def)

subsection \<open>Properties\<close>

text \<open>C37: Every upload is queued for scanning: when the kernel reports a run of events, of any kinds and with names padded in any way, the
  watcher queues exactly the files that were closed after writing or moved into the directory, in the order of the events and as far
  as the queue of 255 has room, whatever an earlier read left behind in the buffer.\<close>

theorem watcher_queues_uploads:
  assumes "ring_running st" "strdup_ok (we_yara env)" "0 \<le> we_inotify_init env" "0 \<le> we_add_watch env" "list_all inotify_wf evs"
  shows "ring_list (yara_inotify_thread env [(concat (map encode_inotify evs) @ stale, int (length (concat (map encode_inotify evs))))] st) =
    ring_list st @ take (255 - length (ring_list st))
      (map (\<lambda>e. Some (upload_path (watched_dir env) (iv_name e))) (filter upload_event evs))"
  by (rule watched_uploads [OF assms])

text \<open>Two events of a directory: a finished upload and the creation of another file.\<close>

definition sample_watch :: watch_env where
  "sample_watch = \<lparr>we_upload_dir = None, we_inotify_init = 3, we_add_watch = 1, we_yara = mock_yara\<rparr>"

definition sample_events :: "inotify_event list" where
  "sample_events = [\<lparr>iv_wd = 1, iv_mask = 0x8, iv_cookie = 0, iv_name = ''a.php'', iv_pad = 11\<rparr>,
     \<lparr>iv_wd = 1, iv_mask = 0x100, iv_cookie = 0, iv_name = ''b'', iv_pad = 15\<rparr>]"

theorem watcher_queues_uploads_witness:
  "ring_list (yara_inotify_thread sample_watch
      [(concat (map encode_inotify sample_events) @ [], int (length (concat (map encode_inotify sample_events))))]
      (fst (init_yara_engine mock_yara yara_boot ''/r''))) = [Some ''/var/www/uploads/a.php'']"
proof -
  have "list_all inotify_wf sample_events" by (simp add: sample_events_def inotify_wf_def)
  moreover have "filter upload_event sample_events = [hd sample_events]"
    by (simp add: sample_events_def upload_event_def IN_CLOSE_WRITE_def IN_MOVED_TO_def)
  moreover have "upload_path (watched_dir sample_watch) (iv_name (hd sample_events)) = ''/var/www/uploads/a.php''" by code_simp
  moreover have "strdup_ok (we_yara sample_watch)" "0 \<le> we_inotify_init sample_watch" "0 \<le> we_add_watch sample_watch"
    by (simp_all add: sample_watch_def mock_yara_def)
  ultimately show ?thesis
    using watcher_queues_uploads [OF mock_started(1), of sample_watch sample_events "[]"] mock_started(2) by simp
qed

text \<open>C38: The daemon gives back what it took: however its start goes, when \<^verbatim>\<open>main\<close> returns the agent socket, the netfilter handle and its
  queue are closed and the connection pool is freed, and it reports success exactly when every step of the start succeeded; then the
  XDP program is detached, the YARA engine stopped, the reputation table empty and the socket file removed as well.\<close>

theorem daemon_releases_resources:
  assumes "\<not> dm_server_fd d" "\<not> dm_nfq d" "\<not> dm_queue d" "daemon_main env nenv pkts d = (d', rc)"
  shows "\<not> dm_server_fd d' \<and> \<not> dm_nfq d' \<and> \<not> dm_queue d' \<and> fs_pool (dm_fw d') = None \<and>
    (rc = 0 \<longleftrightarrow> me_pool_alloc env \<and> 0 \<le> me_socket env \<and> 0 \<le> me_bind env \<and> 0 \<le> me_listen env \<and> me_listener_thread env = 0 \<and>
       me_nfq_open env \<and> 0 \<le> me_unbind_pf env \<and> 0 \<le> me_bind_pf env \<and> me_create_queue env \<and> 0 \<le> me_set_mode env) \<and>
    (rc = 0 \<longrightarrow> \<not> dm_socket_path d' \<and> \<not> yara_initialized (fs_yara (dm_fw d')) \<and> list_all (\<lambda>chain. chain = []) (fs_rep (dm_fw d')) \<and>
       (HAS_EBPF (ne_xdp nenv) \<longrightarrow> map_fd (fs_xdp (dm_fw d')) = - 1 \<and> \<not> bpf_obj (fs_xdp (dm_fw d'))))"
proof -
  have start: "fw_nfq_start nenv (me_pool_alloc env) = None \<longleftrightarrow> \<not> me_pool_alloc env"
    by (simp add: fw_nfq_start_def init_conn_pool_def ENOMEM_def Let_def)
  have stop: "\<not> yara_initialized (cleanup_yara_engine e ys)" "list_all (\<lambda>chain. chain = []) (cleanup_ip_reputation tbl)"
    "HAS_EBPF x \<longrightarrow> map_fd (cleanup_ebpf_xdp x xs) = - 1 \<and> \<not> bpf_obj (cleanup_ebpf_xdp x xs)" for e ys tbl x xs
    by (simp_all add: cleanup_yara_engine_def cleanup_ip_reputation_def cleanup_ebpf_xdp_def Let_def list_all_iff)
  note release = cleanup_conn_pool_def close_server_def nfq_close_def nfq_destroy_queue_def
  show ?thesis
  proof (cases "fw_nfq_start nenv (me_pool_alloc env)")
    case None
    then show ?thesis using assms start by (auto simp: daemon_main_def)
  next
    case (Some fw)
    then have "me_pool_alloc env" using start by auto
    then show ?thesis
      using assms Some by (auto simp: daemon_main_def daemon_stop_def release stop Let_def split: if_splits)
  qed
qed

definition main_ok :: main_env where
  "main_ok = \<lparr>me_pool_alloc = True, me_socket = 3, me_bind = 0, me_listen = 0, me_listener_thread = 0, me_nfq_open = True, me_unbind_pf = 0,
     me_bind_pf = 0, me_create_queue = True, me_set_mode = 0\<rparr>"

definition daemon_boot :: daemon where
  "daemon_boot = \<lparr>dm_fw = sample_state, dm_server_fd = False, dm_socket_path = False, dm_nfq = False, dm_queue = False, dm_listener = False\<rparr>"

theorem daemon_releases_resources_witness:
  "snd (daemon_main main_ok sample_nfq [] daemon_boot) = 0 \<and>
   snd (daemon_main (main_ok\<lparr>me_bind_pf := - 1\<rparr>) sample_nfq [] daemon_boot) \<noteq> 0 \<and>
   \<not> dm_server_fd (fst (daemon_main (main_ok\<lparr>me_bind_pf := - 1\<rparr>) sample_nfq [] daemon_boot))"
proof -
  have boot: "\<not> dm_server_fd daemon_boot" "\<not> dm_nfq daemon_boot" "\<not> dm_queue daemon_boot" by (simp_all add: daemon_boot_def)
  note r = daemon_releases_resources [OF boot prod.collapse [symmetric]]
  show ?thesis using r [of main_ok sample_nfq "[]"] r [of "main_ok\<lparr>me_bind_pf := - 1\<rparr>" sample_nfq "[]"] by (simp add: main_ok_def)
qed

text \<open>A start that fails after the XDP program was attached leaves it attached to the interface.\<close>

theorem daemon_failed_start_keeps_xdp:
  "0 \<le> me_socket env \<Longrightarrow> me_bind env < 0 \<Longrightarrow> me_pool_alloc env \<Longrightarrow>
     fs_xdp (dm_fw (fst (daemon_main env nenv pkts d))) = fst (init_ebpf_xdp (ne_xdp nenv) xdp_boot)"
  by (simp add: daemon_main_def fw_nfq_start_def init_conn_pool_def cleanup_conn_pool_def close_server_def Let_def)

end
