(* ===== verification/Agent_Cpu.thy ===== *)
theory Agent_Cpu
  imports Fw_Prelude
begin

section \<open>CPU usage of the agent (fw\_agent.c)\<close>

text \<open>
  \<^verbatim>\<open>get_cpu_usage\<close> reads the counters of the first line of \<^verbatim>\<open>/proc/stat\<close> and compares them with those of its last call. The counters and
  all sums and differences are unsigned 64-bit words. The result is the pair of the two words whose quotient the code
  returns as a percentage, or \<^term>\<open>None\<close> where it returns 0.0; the division itself is floating point and not modelled.
  A read is the number of items \<^verbatim>\<open>fscanf\<close> converted, the name of the line included, with the fields; a field that was not
  converted is what the stack held.
\<close>

subsection \<open>Counters\<close>

record proc_stat =
  ps_user :: u64
  ps_nice :: u64
  ps_system :: u64
  ps_idle :: u64
  ps_iowait :: u64
  ps_irq :: u64
  ps_softirq :: u64
  ps_steal :: u64

record cpu_counters =
  last_user :: u64
  last_nice :: u64
  last_system :: u64
  last_idle :: u64

definition cpu_boot :: cpu_counters where
  "cpu_boot = \<lparr>last_user = 0, last_nice = 0, last_system = 0, last_idle = 0\<rparr>"

definition cpu_total :: "proc_stat \<Rightarrow> u64" where
  "cpu_total s = ps_user s + ps_nice s + ps_system s + ps_idle s + ps_iowait s + ps_irq s + ps_softirq s + ps_steal s"

definition cpu_prev_total :: "cpu_counters \<Rightarrow> u64" where
  "cpu_prev_total c = last_user c + last_nice c + last_system c + last_idle c"

definition get_cpu_usage :: "(nat \<times> proc_stat) option \<Rightarrow> cpu_counters \<Rightarrow> cpu_counters \<times> (u64 \<times> u64) option" where
  "get_cpu_usage r c =
     (case r of
        None \<Rightarrow> (c, None)
      | Some (items, s) \<Rightarrow>
          if items < 5 then (c, None)
          else
            let total = cpu_total s; prev_total = cpu_prev_total c;
                usage =
                  (if prev_total > 0 then
                     (let diff_total = total - prev_total; diff_idle = (ps_idle s + ps_iowait s) - last_idle c
                      in if diff_total > 0 then Some (diff_total - diff_idle, diff_total) else None)
                   else None)
            in (c\<lparr>last_user := ps_user s, last_nice := ps_nice s, last_system := ps_system s, last_idle := ps_idle s + ps_iowait s\<rparr>, usage))"

subsection \<open>What is measured\<close>

text \<open>
  The busy time of an interval between two reads is the growth of the user, nice and system counters. The code reports more: the
  interrupt and steal counters are part of the total but not of what is remembered of the last call, so all of the time ever spent in
  interrupts counts as busy, and as time of this interval.
\<close>

definition busy_time :: "proc_stat \<Rightarrow> proc_stat \<Rightarrow> u64" where
  "busy_time s s' = (ps_user s' - ps_user s) + (ps_nice s' - ps_nice s) + (ps_system s' - ps_system s)"

definition idle_time :: "proc_stat \<Rightarrow> proc_stat \<Rightarrow> u64" where
  "idle_time s s' = (ps_idle s' + ps_iowait s') - (ps_idle s + ps_iowait s)"

definition interrupts :: "proc_stat \<Rightarrow> u64" where
  "interrupts s = ps_irq s + ps_softirq s + ps_steal s"

text \<open>The value reported by the second of two reads; it is the busy share of the interval exactly when no interrupt was ever counted.\<close>

theorem cpu_usage_counts_interrupts:
  assumes "5 \<le> n" "5 \<le> m"
  shows "snd (get_cpu_usage (Some (n, s')) (fst (get_cpu_usage (Some (m, s)) c))) =
    (if ps_user s + ps_nice s + ps_system s + (ps_idle s + ps_iowait s) = 0 then None
     else if busy_time s s' + interrupts s' + idle_time s s' = 0 then None
     else Some (busy_time s s' + interrupts s', busy_time s s' + interrupts s' + idle_time s s'))"
proof -
  let ?c = "fst (get_cpu_usage (Some (m, s)) c)" and ?prev = "ps_user s + ps_nice s + ps_system s + (ps_idle s + ps_iowait s)"
  let ?total = "busy_time s s' + interrupts s' + idle_time s s'"
  have c: "cpu_prev_total ?c = ?prev" "last_idle ?c = ps_idle s + ps_iowait s"
    using assms(2) by (simp_all add: get_cpu_usage_def Let_def cpu_prev_total_def)
  have t: "cpu_total s' - ?prev = ?total"
    by (simp add: cpu_total_def busy_time_def interrupts_def idle_time_def algebra_simps)
  have i: "?total - (ps_idle s' + ps_iowait s' - (ps_idle s + ps_iowait s)) = busy_time s s' + interrupts s'"
    by (simp add: idle_time_def)
  have pos: "0 < x \<longleftrightarrow> x \<noteq> 0" for x :: u64 by (simp add: word_gt_0)
  have "snd (get_cpu_usage (Some (n, s')) ?c) =
      (if ?prev \<noteq> 0 then if ?total \<noteq> 0 then Some (busy_time s s' + interrupts s', ?total) else None else None)"
    using assms(1) by (simp only: get_cpu_usage_def [of _ ?c] option.case prod.case Let_def c t i pos not_less [symmetric] if_False snd_conv)
  then show ?thesis by (simp only: if_not_P if_P split: if_split) blast
qed

text \<open>An idle machine that has spent 900 ticks in interrupts since it was started reports 90 percent for an interval of 100 idle ticks.\<close>

theorem cpu_usage_idle_machine:
  "let s = \<lparr>ps_user = 50, ps_nice = 0, ps_system = 50, ps_idle = 1000, ps_iowait = 0, ps_irq = 400, ps_softirq = 500, ps_steal = 0\<rparr> in
   snd (get_cpu_usage (Some (11, s\<lparr>ps_idle := 1100\<rparr>)) (fst (get_cpu_usage (Some (11, s)) cpu_boot))) = Some (900, 1000)"
  by (simp add: get_cpu_usage_def cpu_total_def cpu_prev_total_def cpu_boot_def Let_def)

end
