(* ===== verification/Libc_Text.thy ===== *)
theory Libc_Text
  imports Fw_Prelude
begin

section \<open>Text functions of the C library the agent and the server use\<close>

text \<open>
  \<^verbatim>\<open>strtok\<close>, \<^verbatim>\<open>atoi\<close>, \<^verbatim>\<open>atoll\<close>, \<^verbatim>\<open>fgets\<close>, \<^verbatim>\<open>inet_pton\<close> and \<^verbatim>\<open>inet_ntop\<close>. A text file is the string of its bytes;
  \<open>fgets_lines\<close> is the sequence of buffers successive \<^verbatim>\<open>fgets\<close> calls return. The main fact is that
  \<^verbatim>\<open>inet_pton\<close> reads back what \<^verbatim>\<open>inet_ntop\<close> prints.
\<close>

subsection \<open>Model\<close>

definition isdigit :: "char \<Rightarrow> bool" where
  [cstr_simps]: "isdigit c \<longleftrightarrow> 48 \<le> ord c \<and> ord c \<le> 57"

definition digit_val :: "char \<Rightarrow> nat" where
  [cstr_simps]: "digit_val c = ord c - 48"

definition dec_value :: "string \<Rightarrow> nat" where
  [cstr_simps]: "dec_value ds = foldl (\<lambda>a c. 10 * a + digit_val c) 0 ds"

text \<open>The number a text starts with, of any size: white space, a sign, digits.\<close>

definition leading_int :: "string \<Rightarrow> int" where
  [cstr_simps]: "leading_int s =
     (let s = dropWhile isspace s;
          neg = (s \<noteq> [] \<and> hd s = CHR ''-'');
          s = (if s \<noteq> [] \<and> hd s \<in> {CHR ''-'', CHR ''+''} then tl s else s);
          n = int (dec_value (takeWhile isdigit s))
      in if neg then - n else n)"

text \<open>
  \<^verbatim>\<open>atoll\<close> and \<^verbatim>\<open>atoi\<close> as the GNU C library has them on 64-bit Linux: \<^verbatim>\<open>atoll\<close> is \<^verbatim>\<open>strtoll\<close> in base 10, which gives the nearest
  \<^verbatim>\<open>long long\<close> when the number is out of range; \<^verbatim>\<open>atoi\<close> is \<^verbatim>\<open>strtol\<close>, with a \<^verbatim>\<open>long\<close> of the same size, cut to an \<^verbatim>\<open>int\<close>. The C standard
  leaves both undefined outside their range.
\<close>

definition LLONG_MAX :: int where
  [cstr_simps]: "LLONG_MAX = 2 ^ 63 - 1"

definition LLONG_MIN :: int where
  [cstr_simps]: "LLONG_MIN = - (2 ^ 63)"

definition atoll :: "string \<Rightarrow> int" where
  [cstr_simps]: "atoll s =
     (let n = leading_int s in if n > LLONG_MAX then LLONG_MAX else if n < LLONG_MIN then LLONG_MIN else n)"

definition atoi :: "string \<Rightarrow> int" where
  [cstr_simps]: "atoi s = signed_take_bit 31 (atoll s)"

text \<open>\<^verbatim>\<open>strtok\<close>: the token and the text after the delimiter that ended it.\<close>

definition strtok :: "string \<Rightarrow> string \<Rightarrow> (string \<times> string) option" where
  [cstr_simps]: "strtok delims s =
     (let s = dropWhile (\<lambda>c. c \<in> set delims) s; t = takeWhile (\<lambda>c. c \<notin> set delims) s
      in if t = [] then None else Some (t, drop (length t + 1) s))"

text \<open>The white space \<^verbatim>\<open>" \t\r\n"\<close>.\<close>

definition wspace :: string where
  [cstr_simps]: "wspace = [CHR '' '', CHR 0x09, CHR 0x0D, CHR 0x0A]"

text \<open>\<^verbatim>\<open>%02x\<close> of each byte.\<close>

definition hex_byte :: "byte \<Rightarrow> string" where
  "hex_byte b = (let d = (\<lambda>n. if n < 10 then char_of (48 + n) else char_of (87 + n))
                 in [d (ord b div 16), d (ord b mod 16)])"

definition hex_bytes :: "byte list \<Rightarrow> string" where
  "hex_bytes bs = concat (map hex_byte bs)"

text \<open>The buffers \<^verbatim>\<open>fgets(line, sz, f)\<close> fills: up to the newline, at most \<^term>\<open>sz - 1\<close> bytes.\<close>

definition fgets_line :: "nat \<Rightarrow> string \<Rightarrow> string" where
  "fgets_line sz s =
     (let t = takeWhile (\<lambda>c. c \<noteq> CHR 0x0A) s in
      if length t < sz - 1 then take (length t + 1) s else take (sz - 1) s)"

lemma fgets_line_pos: "s \<noteq> [] \<Longrightarrow> \<not> sz < 2 \<Longrightarrow> fgets_line sz s \<noteq> []"
  by (auto simp: fgets_line_def Let_def)

function fgets_lines :: "nat \<Rightarrow> string \<Rightarrow> string list" where
  "fgets_lines sz s =
     (if s = [] \<or> sz < 2 then []
      else fgets_line sz s # fgets_lines sz (drop (length (fgets_line sz s)) s))"
  by pat_completeness auto
termination
  by (relation "measure (\<lambda>(sz, s). length s)") (auto simp: fgets_line_pos)

declare fgets_lines.simps [simp del]

text \<open>\<^verbatim>\<open>inet_pton(AF_INET, ...)\<close>: the finished octets, the current one, whether it has a digit, the count.\<close>

fun pton_loop :: "nat list \<Rightarrow> nat \<Rightarrow> bool \<Rightarrow> nat \<Rightarrow> string \<Rightarrow> nat list option" where
  "pton_loop acc cur saw octets [] = (if octets < 4 then None else Some (acc @ [cur]))"
| "pton_loop acc cur saw octets (c # cs) =
     (if isdigit c then
        (let new = cur * 10 + digit_val c in
         if saw \<and> cur = 0 then None
         else if new > 255 then None
         else if \<not> saw then (if octets + 1 > 4 then None else pton_loop acc new True (octets + 1) cs)
         else pton_loop acc new True octets cs)
      else if c = CHR ''.'' \<and> saw then
        (if octets = 4 then None else pton_loop (acc @ [cur]) 0 False octets cs)
      else None)"

definition inet_pton :: "string \<Rightarrow> u32 option" where
  "inet_pton s =
     (case pton_loop [] 0 False 0 s of
        Some [a, b, c, d] \<Rightarrow> Some (inet_addr4 (of_nat a) (of_nat b) (of_nat c) (of_nat d))
      | _ \<Rightarrow> None)"

text \<open>Byte \<^term>\<open>k\<close> of an address as it lies in memory.\<close>

definition addr_byte :: "u32 \<Rightarrow> nat \<Rightarrow> nat" where
  "addr_byte ip k = unat (take_bit 8 (drop_bit (8 * k) ip))"

definition inet_ntop :: "u32 \<Rightarrow> string" where
  "inet_ntop ip = dec_nat (addr_byte ip 0) @ ''.'' @ dec_nat (addr_byte ip 1) @ ''.'' @
     dec_nat (addr_byte ip 2) @ ''.'' @ dec_nat (addr_byte ip 3)"

text \<open>
  A token that names an address, with an optional mask after a slash, as the whitelist parser of the
  server and the blocklist parser of the agent both read it. The cast cuts the mask to eight bits.
\<close>

definition parse_cidr :: "string \<Rightarrow> (u32 \<times> u8) option" where
  "parse_cidr ip_str =
     (let addr = takeWhile (\<lambda>c. c \<noteq> CHR ''/'') ip_str;
          m = (if CHR ''/'' \<in> set ip_str then of_int (atoi (drop (length addr + 1) ip_str)) else 32)
      in map_option (\<lambda>ip. (ip, m)) (inet_pton addr))"

subsection \<open>Decimal numbers\<close>

lemma dec_nat_small: "n < 10 \<Longrightarrow> dec_nat n = [char_of (48 + n)]"
  by (subst dec_nat.simps) simp

lemma dec_nat_step: "10 \<le> n \<Longrightarrow> dec_nat n = dec_nat (n div 10) @ [char_of (48 + n mod 10)]"
  by (subst dec_nat.simps) simp

lemma isdigit_char [simp]: "n < (10 :: nat) \<Longrightarrow> isdigit (char_of (48 + n))"
  by (simp add: isdigit_def)

lemma digit_val_char [simp]: "n < (10 :: nat) \<Longrightarrow> digit_val (char_of (48 + n)) = n"
  by (simp add: digit_val_def)

lemma set_dec_nat: "c \<in> set (dec_nat n) \<Longrightarrow> isdigit c"
proof (induction n rule: dec_nat.induct)
  case (1 n)
  then show ?case
    by (cases "n < 10") (auto simp: dec_nat_small dec_nat_step)
qed

lemma dec_value_append: "dec_value (ds @ [c]) = 10 * dec_value ds + digit_val c"
  by (simp add: dec_value_def)

lemma dec_value_dec_nat: "dec_value (dec_nat n) = n"
proof (induction n rule: dec_nat.induct)
  case (1 n)
  then show ?case
    by (cases "n < 10") (auto simp: dec_nat_small dec_nat_step dec_value_append, simp add: dec_value_def)
qed

lemma isdigit_not_special: "isdigit c \<Longrightarrow> \<not> isspace c \<and> c \<noteq> CHR ''-'' \<and> c \<noteq> CHR ''+'' \<and> c \<noteq> CHR ''.'' \<and> c \<noteq> CHR '':''"
  by (auto simp: isdigit_def isspace_def ord_def)

lemma takeWhile_dec_nat:
  assumes "rest = [] \<or> \<not> isdigit (hd rest)"
  shows "takeWhile isdigit (dec_nat n @ rest) = dec_nat n"
  using assms by (cases rest) (auto simp: takeWhile_append set_dec_nat)

lemma length_dec_nat: "n < 10 ^ k \<Longrightarrow> length (dec_nat n) \<le> Suc k"
proof (induction k arbitrary: n)
  case (Suc k)
  then show ?case by (cases "n < 10") (auto simp: dec_nat_small dec_nat_step less_mult_imp_div_less)
qed (simp add: dec_nat_small)

lemma leading_dec_nat: "rest = [] \<or> \<not> isdigit (hd rest) \<Longrightarrow> leading_int (dec_nat n @ rest) = int n"
proof -
  assume rest: "rest = [] \<or> \<not> isdigit (hd rest)"
  have "isdigit (hd (dec_nat n))" by (rule set_dec_nat [OF hd_in_set]) simp
  from isdigit_not_special [OF this]
  have hd: "\<not> isspace (hd (dec_nat n @ rest))" "hd (dec_nat n @ rest) \<notin> {CHR ''-'', CHR ''+''}" by simp_all
  obtain c cs where cons: "dec_nat n @ rest = c # cs" by (cases "dec_nat n @ rest") simp_all
  then have "dropWhile isspace (dec_nat n @ rest) = dec_nat n @ rest" using hd(1) by simp
  then show ?thesis
    using hd(2) takeWhile_dec_nat [OF rest, of n] cons by (simp add: leading_int_def Let_def dec_value_dec_nat)
qed

lemma atoll_dec_nat: "rest = [] \<or> \<not> isdigit (hd rest) \<Longrightarrow> atoll (dec_nat n @ rest) = min (int n) LLONG_MAX"
  by (simp add: atoll_def leading_dec_nat Let_def LLONG_MAX_def LLONG_MIN_def)

lemma atoi_dec_nat:
  assumes "rest = [] \<or> \<not> isdigit (hd rest)" "n < 2 ^ 31"
  shows "atoi (dec_nat n @ rest) = int n"
proof -
  have "int n < 2 ^ 31" using assms(2) by (metis of_nat_less_iff of_nat_numeral of_nat_power)
  then show ?thesis
    using atoll_dec_nat [OF assms(1), of n] by (simp add: atoi_def LLONG_MAX_def signed_take_bit_int_eq_self)
qed

text \<open>A number stays inside the type of the result.\<close>

lemma atoll_range: "LLONG_MIN \<le> atoll s \<and> atoll s \<le> LLONG_MAX"
  by (simp add: atoll_def Let_def LLONG_MIN_def LLONG_MAX_def)

lemma atoi_range: "- (2 ^ 31) \<le> atoi s \<and> atoi s < 2 ^ 31"
  using signed_take_bit_int_greater_eq_minus_exp [of 31 "atoll s"] signed_take_bit_int_less_exp [of 31 "atoll s"]
  by (simp add: atoi_def)

subsection \<open>Addresses\<close>

text \<open>The loop reads one printed octet.\<close>

lemma pton_digit:
  "d < (10 :: nat) \<Longrightarrow> pton_loop acc cur saw octets (char_of (48 + d) # cs) =
     (if saw \<and> cur = 0 then None else if cur * 10 + d > 255 then None
      else if \<not> saw then (if octets + 1 > 4 then None else pton_loop acc (cur * 10 + d) True (octets + 1) cs)
      else pton_loop acc (cur * 10 + d) True octets cs)"
  by (simp add: Let_def)

lemma pton_octet:
  assumes "n < 256" and "octets < 4"
  shows "pton_loop acc 0 False octets (dec_nat n @ rest) = pton_loop acc n True (octets + 1) rest"
proof -
  consider "n < 10" | "10 \<le> n" "n < 100" | "100 \<le> n" by linarith
  then show ?thesis
  proof cases
    case 1
    then show ?thesis using assms by (simp add: dec_nat_small pton_digit del: pton_loop.simps)
  next
    case 2
    then have "dec_nat n = [char_of (48 + n div 10), char_of (48 + n mod 10)]"
      by (simp add: dec_nat_step dec_nat_small)
    moreover have "n div 10 < 10" "n mod 10 < 10" "0 < n div 10" using 2 by auto
    ultimately show ?thesis using assms by (simp add: pton_digit del: pton_loop.simps)
  next
    case 3
    have d: "n div 10 div 10 < 10" "n div 10 mod 10 < 10" "n mod 10 < 10" "0 < n div 10 div 10" "10 \<le> n div 10"
      using assms(1) 3 by auto
    then have "dec_nat n = [char_of (48 + n div 10 div 10), char_of (48 + n div 10 mod 10), char_of (48 + n mod 10)]"
      using 3 by (simp add: dec_nat_step dec_nat_small)
    moreover have "n div 10 div 10 * 10 + n div 10 mod 10 = n div 10" "n div 10 * 10 + n mod 10 = n" by simp_all
    moreover have "\<not> 255 < n div 10" using assms(1) by simp
    ultimately show ?thesis using assms d by (simp add: pton_digit del: pton_loop.simps)
  qed
qed

lemma pton_dot: "octets < 4 \<Longrightarrow> pton_loop acc cur True octets (CHR ''.'' # cs) = pton_loop (acc @ [cur]) 0 False octets cs"
  by (simp add: isdigit_def ord_def)

lemma addr_byte_less: "addr_byte ip k < 256"
  using take_bit_nat_less_exp [of 8 "unat (drop_bit (8 * k) ip)"] by (simp add: addr_byte_def unsigned_take_bit_eq)

lemma bytes_of_addr:
  "inet_addr4 (of_nat (addr_byte ip 0)) (of_nat (addr_byte ip 1)) (of_nat (addr_byte ip 2)) (of_nat (addr_byte ip 3)) = ip"
proof -
  have "(ucast (of_nat (addr_byte ip k) :: u8) :: u32) = take_bit 8 (drop_bit (8 * k) ip)" for k
    by (rule bit_word_eqI) (auto simp: addr_byte_def bit_simps)
  then have "inet_addr4 (of_nat (addr_byte ip 0)) (of_nat (addr_byte ip 1)) (of_nat (addr_byte ip 2)) (of_nat (addr_byte ip 3)) =
      byte_swap32 (push_bit 24 (take_bit 8 (drop_bit (8 * 0) ip)) OR push_bit 16 (take_bit 8 (drop_bit (8 * 1) ip)) OR
        push_bit 8 (take_bit 8 (drop_bit (8 * 2) ip)) OR take_bit 8 (drop_bit (8 * 3) ip))"
    by (simp only: inet_addr4_def)
  also have "\<dots> = byte_swap32 (byte_swap32 ip)"
    by (simp add: byte_swap32_def)
  finally show ?thesis by simp
qed

text \<open>Reading back a printed address gives the address.\<close>

lemma inet_pton_ntop: "inet_pton (inet_ntop ip) = Some ip"
proof -
  have "pton_loop [] 0 False 0 (inet_ntop ip) =
      Some [addr_byte ip 0, addr_byte ip 1, addr_byte ip 2, addr_byte ip 3]"
    unfolding inet_ntop_def
    using pton_octet [OF addr_byte_less, of _ _ ip 3 "[]"]
    by (simp add: pton_octet [OF addr_byte_less] pton_dot del: pton_loop.simps(2))
  then show ?thesis by (simp add: inet_pton_def bytes_of_addr [unfolded One_nat_def])
qed

lemma set_inet_ntop: "c \<in> set (inet_ntop ip) \<Longrightarrow> isdigit c \<or> c = CHR ''.''"
  by (auto simp: inet_ntop_def dest: set_dec_nat)

lemma inet_ntop_nonempty [simp]: "inet_ntop ip \<noteq> []"
  by (simp add: inet_ntop_def)

lemma inet_ntop_inject [simp]: "inet_ntop a = inet_ntop b \<longleftrightarrow> a = b"
  by (metis inet_pton_ntop option.inject)

text \<open>No other text reads as the address: octets have no leading zeros.\<close>

fun dotted :: "nat list \<Rightarrow> string" where
  "dotted [] = []"
| "dotted [n] = dec_nat n"
| "dotted (n # ns) = dec_nat n @ ''.'' @ dotted ns"

lemma dotted_Cons: "ns \<noteq> [] \<Longrightarrow> dotted (n # ns) = dec_nat n @ ''.'' @ dotted ns"
  by (cases ns) simp_all

lemma dec_nat_digit:
  assumes "isdigit c"
  shows "dec_nat (digit_val c) = [c]" and "0 < n \<Longrightarrow> dec_nat (n * 10 + digit_val c) = dec_nat n @ [c]"
proof -
  have c: "digit_val c < 10" "char_of (48 + digit_val c) = c" using assms by (auto simp: isdigit_def digit_val_def)
  then show "dec_nat (digit_val c) = [c]" by (simp add: dec_nat_small)
  show "0 < n \<Longrightarrow> dec_nat (n * 10 + digit_val c) = dec_nat n @ [c]" using c by (subst dec_nat_step) simp_all
qed

lemma pton_loop_dotted:
  assumes "pton_loop acc cur saw octets s = Some ns" and "octets \<le> 4" and "saw \<or> octets < 4 \<and> cur = 0"
    and "list_all (\<lambda>n. n < 256) (acc @ [cur])"
  shows "\<exists>rest. ns = acc @ rest \<and> rest \<noteq> [] \<and> list_all (\<lambda>n. n < 256) rest \<and> (if saw then dec_nat cur @ s else s) = dotted rest"
  using assms
proof (induction acc cur saw octets s rule: pton_loop.induct)
  case (1 acc cur saw octets)
  then show ?case by (auto intro!: exI [of _ "[cur]"] split: if_splits)
next
  case (2 acc cur saw octets c cs)
  show ?case
  proof (cases "isdigit c")
    case True
    let ?new = "cur * 10 + digit_val c"
    have ok: "\<not> (saw \<and> cur = 0)" "?new < 256" using "2.prems"(1) True by (auto simp: Let_def split: if_splits)
    show ?thesis
    proof (cases saw)
      case saw: True
      have "pton_loop acc ?new True octets cs = Some ns" using "2.prems"(1) True saw ok by (simp add: Let_def)
      with "2.IH"(2) [OF True refl] saw ok "2.prems"
      obtain rest where "ns = acc @ rest \<and> rest \<noteq> [] \<and> list_all (\<lambda>n. n < 256) rest \<and> dec_nat ?new @ cs = dotted rest" by auto
      then show ?thesis using saw ok dec_nat_digit(2) [OF True, of cur] by auto
    next
      case unseen: False
      with "2.prems"(1,3) have oct: "octets < 4" "cur = 0" by auto
      have "pton_loop acc ?new True (octets + 1) cs = Some ns" using "2.prems"(1) True unseen ok oct by (simp add: Let_def)
      with "2.IH"(1) [OF True refl] unseen ok oct "2.prems"
      obtain rest where "ns = acc @ rest \<and> rest \<noteq> [] \<and> list_all (\<lambda>n. n < 256) rest \<and> dec_nat ?new @ cs = dotted rest" by auto
      then show ?thesis using unseen oct dec_nat_digit(1) [OF True] by auto
    qed
  next
    case False
    with "2.prems"(1) have dot: "c = CHR ''.''" "saw" "octets \<noteq> 4" "pton_loop (acc @ [cur]) 0 False octets cs = Some ns"
      by (auto split: if_splits)
    with "2.IH"(3) [OF False] "2.prems"(2,4)
    obtain rest where r: "ns = (acc @ [cur]) @ rest" "rest \<noteq> []" "list_all (\<lambda>n. n < 256) rest" "cs = dotted rest" by auto
    then show ?thesis using dot "2.prems"(4) by (intro exI [of _ "cur # rest"]) (simp add: dotted_Cons)
  qed
qed

lemma addr_byte_inet_addr4:
  assumes "a < 256" "b < 256" "c < 256" "d < 256"
  shows "addr_byte (inet_addr4 (of_nat a) (of_nat b) (of_nat c) (of_nat d)) 0 = a"
    "addr_byte (inet_addr4 (of_nat a) (of_nat b) (of_nat c) (of_nat d)) 1 = b"
    "addr_byte (inet_addr4 (of_nat a) (of_nat b) (of_nat c) (of_nat d)) 2 = c"
    "addr_byte (inet_addr4 (of_nat a) (of_nat b) (of_nat c) (of_nat d)) 3 = d"
proof -
  have low: "unat (ucast x :: u32) = unat x" for x :: u8
  proof -
    have "unat x < 2 ^ LENGTH(8)" by (rule unsigned_less)
    then have "unat x < 2 ^ 32" by simp
    then show ?thesis by (simp add: unsigned_ucast_eq take_bit_nat_eq_self)
  qed
  have bytes: "take_bit 8 (drop_bit 0 (inet_addr4 x y z w)) = ucast x" "take_bit 8 (drop_bit 8 (inet_addr4 x y z w)) = ucast y"
    "take_bit 8 (drop_bit 16 (inet_addr4 x y z w)) = ucast z" "take_bit 8 (drop_bit 24 (inet_addr4 x y z w)) = ucast w"
    for x y z w :: u8
    by (rule bit_word_eqI; auto simp: inet_addr4_def bit_simps byte_swap32_bit dest: bit_imp_le_length)+
  show "addr_byte (inet_addr4 (of_nat a) (of_nat b) (of_nat c) (of_nat d)) 0 = a"
    "addr_byte (inet_addr4 (of_nat a) (of_nat b) (of_nat c) (of_nat d)) 1 = b"
    "addr_byte (inet_addr4 (of_nat a) (of_nat b) (of_nat c) (of_nat d)) 2 = c"
    "addr_byte (inet_addr4 (of_nat a) (of_nat b) (of_nat c) (of_nat d)) 3 = d"
    using assms by (simp_all add: addr_byte_def bytes bytes(1) [simplified] low unat_of_nat take_bit_nat_eq_self)
qed

lemma inet_pton_SomeD: "inet_pton s = Some ip \<Longrightarrow> s = inet_ntop ip"
proof -
  assume "inet_pton s = Some ip"
  then obtain a b c d where l: "pton_loop [] 0 False 0 s = Some [a, b, c, d]"
      and ip: "ip = inet_addr4 (of_nat a) (of_nat b) (of_nat c) (of_nat d)"
    by (auto simp: inet_pton_def split: option.splits list.splits)
  from pton_loop_dotted [OF l] have "list_all (\<lambda>n. n < 256) [a, b, c, d]" "s = dotted [a, b, c, d]" by auto
  then show ?thesis using ip by (simp add: inet_ntop_def addr_byte_inet_addr4 [unfolded One_nat_def])
qed

subsection \<open>Tokens and lines\<close>

lemma strtok_prefix:
  assumes "t \<noteq> []" and "set t \<inter> set delims = {}" and "d \<in> set delims"
  shows "strtok delims (t @ d # rest) = Some (t, rest)"
proof -
  have "hd t \<notin> set delims" using assms(1,2) hd_in_set [OF assms(1)] by blast
  then have "dropWhile (\<lambda>c. c \<in> set delims) (t @ d # rest) = t @ d # rest"
    using assms(1) by (cases t) auto
  moreover have "takeWhile (\<lambda>c. c \<notin> set delims) (t @ d # rest) = t"
    using assms(2,3) by (auto simp: takeWhile_append)
  ultimately show ?thesis using assms(1) by (simp add: strtok_def Let_def)
qed

lemma strtok_all:
  assumes "t \<noteq> []" and "set t \<inter> set delims = {}"
  shows "strtok delims t = Some (t, [])"
proof -
  have "hd t \<notin> set delims" using assms hd_in_set [OF assms(1)] by blast
  then have "dropWhile (\<lambda>c. c \<in> set delims) t = t" using assms(1) by (cases t) auto
  moreover have "takeWhile (\<lambda>c. c \<notin> set delims) t = t"
    unfolding takeWhile_eq_all_conv using assms(2) by blast
  ultimately show ?thesis using assms(1) by (simp only: strtok_def Let_def) simp
qed

text \<open>The buffers partition the text, and a newline at the end of one text separates it from the next.\<close>

lemma fgets_line_drop: "s \<noteq> [] \<Longrightarrow> \<not> sz < 2 \<Longrightarrow> fgets_line sz s @ drop (length (fgets_line sz s)) s = s"
  by (simp add: fgets_line_def Let_def min_def length_takeWhile_le)

lemma concat_fgets_lines: "2 \<le> sz \<Longrightarrow> concat (fgets_lines sz s) = s"
proof (induction sz s rule: fgets_lines.induct)
  case (1 sz s)
  show ?case
  proof (cases "s = []")
    case False
    then show ?thesis using 1 fgets_line_drop [OF False, of sz] by (subst fgets_lines.simps) simp
  qed (simp add: fgets_lines.simps)
qed

lemma fgets_line_append:
  assumes "s \<noteq> []" and "last s = CHR 0x0A"
  shows "fgets_line sz (s @ x) = fgets_line sz s"
proof -
  have "CHR 0x0A \<in> set s" using assms last_in_set by metis
  then obtain t r where s: "s = t @ CHR 0x0A # r" "CHR 0x0A \<notin> set t" by (metis split_list_first)
  then have "takeWhile (\<lambda>c. c \<noteq> CHR 0x0A) (t @ CHR 0x0A # r') = t" for r'
    by (subst takeWhile_append2) auto
  then show ?thesis using s by (simp add: fgets_line_def Let_def)
qed

lemma fgets_lines_append:
  assumes "2 \<le> sz" and "s = [] \<or> last s = CHR 0x0A"
  shows "fgets_lines sz (s @ x) = fgets_lines sz s @ fgets_lines sz x"
  using assms
proof (induction sz s rule: fgets_lines.induct)
  case (1 sz s)
  show ?case
  proof (cases "s = []")
    case False
    let ?l = "fgets_line sz s"
    have len: "length ?l \<le> length s" using fgets_line_drop [OF False, of sz] 1(2) by (metis length_append le_add1 not_less)
    have "fgets_lines sz (s @ x) = ?l # fgets_lines sz (drop (length ?l) s @ x)"
      using False 1(2,3) len by (subst fgets_lines.simps) (simp add: fgets_line_append)
    also have "fgets_lines sz (drop (length ?l) s @ x) = fgets_lines sz (drop (length ?l) s) @ fgets_lines sz x"
      using False 1(2,3) by (cases "length ?l < length s") (auto intro!: 1(1) simp: not_less fgets_lines.simps [of _ "[]"])
    finally show ?thesis using False 1(2) by (subst (2) fgets_lines.simps) simp
  qed (simp add: fgets_lines.simps)
qed

text \<open>A line with its newline that fits the buffer.\<close>

definition closed_line :: "nat \<Rightarrow> string \<Rightarrow> bool" where
  "closed_line sz l \<longleftrightarrow> l \<noteq> [] \<and> last l = CHR 0x0A \<and> CHR 0x0A \<notin> set (butlast l) \<and> length l < sz"

lemma fgets_line_closed: "closed_line sz l \<Longrightarrow> fgets_lines sz (l @ x) = l # fgets_lines sz x"
proof -
  assume c: "closed_line sz l"
  then obtain t where l: "l = t @ [CHR 0x0A]" by (metis append_butlast_last_id closed_line_def)
  with c have t: "CHR 0x0A \<notin> set t" "length t < sz - 1" "2 \<le> sz" by (auto simp: closed_line_def)
  have "takeWhile (\<lambda>c. c \<noteq> CHR 0x0A) (t @ CHR 0x0A # x) = t"
    using t(1) by (subst takeWhile_append2) auto
  then have "fgets_line sz (l @ x) = l" using t l by (simp add: fgets_line_def)
  then show ?thesis using t(3) l by (subst fgets_lines.simps) simp
qed

lemma fgets_lines_concat: "list_all (closed_line sz) ls \<Longrightarrow> fgets_lines sz (concat ls @ x) = ls @ fgets_lines sz x"
  by (induction ls) (simp_all add: fgets_line_closed)

lemma hex_byte_chars: "set (hex_byte b) \<inter> set wspace = {}" and length_hex_byte [simp]: "length (hex_byte b) = 2"
proof -
  have d: "ord (if n < 10 then char_of (48 + n) else char_of (87 + n)) \<ge> 48" if "n < (16 :: nat)" for n
    using that by simp
  have "ord b div 16 < 16" "ord b mod 16 < 16" using less_mult_imp_div_less [of "ord b" 16 16] ord_less [of b] by auto
  then have ge: "48 \<le> ord c" if "c \<in> set (hex_byte b)" for c
    using that d by (auto simp: hex_byte_def Let_def)
  have "ord w < 48" if "w \<in> set wspace" for w using that by (auto simp: wspace_def ord_def)
  then show "set (hex_byte b) \<inter> set wspace = {}" using ge by fastforce
  show "length (hex_byte b) = 2" by (simp add: hex_byte_def Let_def)
qed

lemma length_hex_bytes: "length (hex_bytes bs) = 2 * length bs"
  by (induction bs) (simp_all add: hex_bytes_def)

end
