(* ===== verification/Agent_Blocklist.thy ===== *)
theory Agent_Blocklist
  imports Libc_Text Fw_Nfq
begin

section \<open>The agent's blocklist file (fw\_agent.c)\<close>

text \<open>
  \<^verbatim>\<open>/etc/fw_inspect/blocklist.txt\<close>: how the agent reads it into the payload for the firewall, and how the
  commands of the SOC server edit it. A file is its text, \<^term>\<open>None\<close> when it cannot be opened. \<open>line_entry\<close> and
  \<open>line_directive\<close> say what a line means; the lemmas relate the loop over the lines, which fills a fixed
  array of 1024 entries, to them.
\<close>

subsection \<open>Reading\<close>

definition zero_payload :: blocklist_payload where
  "zero_payload = \<lparr>bp_count = 0, bp_block_local_ips = 0,
     bp_entries = replicate MAX_BLOCKLIST_IPS \<lparr>be_ip = 0, be_mask = 0\<rparr>\<rparr>"

definition blocklist_line :: "blocklist_payload \<Rightarrow> string \<Rightarrow> blocklist_payload" where
  "blocklist_line p line =
     (case strtok wspace (cstr line) of None \<Rightarrow> p
      | Some (ip_str, _) \<Rightarrow>
          if hd ip_str = CHR ''#'' then p
          else if take 16 ip_str = ''block_local_ips='' then p\<lparr>bp_block_local_ips := of_int (atoi (drop 16 ip_str))\<rparr>
          else (case parse_cidr ip_str of None \<Rightarrow> p
                | Some (ip, m) \<Rightarrow>
                    p\<lparr>bp_entries := (bp_entries p)[unat (bp_count p) := \<lparr>be_ip = ip, be_mask = m\<rparr>],
                      bp_count := bp_count p + 1\<rparr>))"

fun load_lines :: "blocklist_payload \<Rightarrow> string list \<Rightarrow> blocklist_payload" where
  "load_lines p [] = p"
| "load_lines p (line # lines) =
     (if unat (bp_count p) < MAX_BLOCKLIST_IPS then load_lines (blocklist_line p line) lines else p)"

definition read_blocklist :: "string \<Rightarrow> blocklist_payload" where
  "read_blocklist text = load_lines zero_payload (fgets_lines 128 text)"

subsection \<open>Editing\<close>

text \<open>\<^verbatim>\<open>MSG_TYPE_BLOCK_IP\<close>: append the address unless some line contains its text.\<close>

definition listed_text :: "string option \<Rightarrow> string \<Rightarrow> bool" where
  "listed_text file ip_str \<longleftrightarrow>
     (case file of None \<Rightarrow> False | Some text \<Rightarrow> list_ex (\<lambda>line. strstr_found (cstr line) ip_str) (fgets_lines 128 text))"

definition block_line :: "u32 \<Rightarrow> string" where
  "block_line ip = inet_ntop ip @ ''/32'' @ [CHR 0x0A]"

definition block_ip_file :: "bool \<Rightarrow> u32 \<Rightarrow> string option \<Rightarrow> string option" where
  "block_ip_file append_ok ip file =
     (if \<not> listed_text file (inet_ntop ip) \<and> append_ok
      then Some ((case file of None \<Rightarrow> [] | Some text \<Rightarrow> text) @ block_line ip)
      else file)"

text \<open>The loop that collects the lines to keep, at most 1024; \<open>skip\<close> is the test of the command.\<close>

fun keep_lines :: "(string \<Rightarrow> bool) \<Rightarrow> nat \<Rightarrow> string list \<Rightarrow> string list" where
  "keep_lines skip n [] = []"
| "keep_lines skip n (line # lines) =
     (if n < MAX_BLOCKLIST_IPS then
        (if hd line = CHR 0x0D \<or> hd line = CHR 0x0A \<or> hd line = CHR ''#'' then keep_lines skip n lines
         else if skip (cstr line) then keep_lines skip n lines
         else snprintf_buf 128 (cstr line) # keep_lines skip (n + 1) lines)
      else [])"

definition file_title :: string where
  "file_title = ''# Firewall IP Blocklist'' @ [CHR 0x0A]"

definition kept_text :: "(string \<Rightarrow> bool) \<Rightarrow> string option \<Rightarrow> string" where
  "kept_text skip file = (case file of None \<Rightarrow> [] | Some text \<Rightarrow> concat (keep_lines skip 0 (fgets_lines 128 text)))"

definition unblock_ip_file :: "bool \<Rightarrow> u32 \<Rightarrow> string option \<Rightarrow> string option" where
  "unblock_ip_file write_ok ip file =
     (if write_ok then Some (file_title @ kept_text (\<lambda>line. strstr_found line (inet_ntop ip)) file) else file)"

definition config_line :: "u32 \<Rightarrow> string" where
  "config_line v = ''block_local_ips='' @ dec_nat (unat v) @ [CHR 0x0A]"

definition config_update_file :: "bool \<Rightarrow> u32 \<Rightarrow> string option \<Rightarrow> string option" where
  "config_update_file write_ok v file =
     (if write_ok
      then Some (file_title @ config_line v @ kept_text (\<lambda>line. take 16 line = ''block_local_ips='') file)
      else file)"

subsection \<open>What a line means\<close>

definition line_token :: "string \<Rightarrow> string option" where
  "line_token line = (case strtok wspace (cstr line) of None \<Rightarrow> None
     | Some (t, _) \<Rightarrow> if hd t = CHR ''#'' then None else Some t)"

definition line_directive :: "string \<Rightarrow> u32 option" where
  "line_directive line = (case line_token line of None \<Rightarrow> None
     | Some t \<Rightarrow> if take 16 t = ''block_local_ips='' then Some (of_int (atoi (drop 16 t))) else None)"

definition line_entry :: "string \<Rightarrow> blocklist_entry option" where
  "line_entry line = (case line_token line of None \<Rightarrow> None
     | Some t \<Rightarrow> if take 16 t = ''block_local_ips='' then None
                else map_option (\<lambda>(ip, m). \<lparr>be_ip = ip, be_mask = m\<rparr>) (parse_cidr t))"

definition line_entries :: "string list \<Rightarrow> blocklist_entry list" where
  "line_entries lines = List.map_filter line_entry lines"

text \<open>The entries a payload carries, and payloads the loop can be working on.\<close>

definition loaded :: "blocklist_payload \<Rightarrow> blocklist_entry list" where
  "loaded p = take (unat (bp_count p)) (bp_entries p)"

definition filling :: "blocklist_payload \<Rightarrow> bool" where
  "filling p \<longleftrightarrow> payload_wf p \<and> unat (bp_count p) \<le> MAX_BLOCKLIST_IPS"

lemma line_entries_simps [simp]:
  "line_entries [] = []"
  "line_entries (l # ls) = (case line_entry l of None \<Rightarrow> line_entries ls | Some e \<Rightarrow> e # line_entries ls)"
  "line_entries (ls @ ls') = line_entries ls @ line_entries ls'"
  by (simp_all add: line_entries_def List.map_filter_simps List.map_filter_def split: option.split)

lemma zero_filling [simp]: "filling zero_payload" "loaded zero_payload = []"
  by (simp_all add: filling_def zero_payload_def payload_wf_def loaded_def)

lemma length_loaded: "filling p \<Longrightarrow> length (loaded p) = unat (bp_count p)"
  by (simp add: filling_def loaded_def payload_wf_def)

lemma blocklist_line_cases:
  "blocklist_line p line =
     (case line_directive line of Some v \<Rightarrow> p\<lparr>bp_block_local_ips := v\<rparr>
      | None \<Rightarrow> (case line_entry line of None \<Rightarrow> p
          | Some e \<Rightarrow> p\<lparr>bp_entries := (bp_entries p)[unat (bp_count p) := e], bp_count := bp_count p + 1\<rparr>))"
  by (simp add: blocklist_line_def line_directive_def line_entry_def line_token_def split: option.split prod.split)

lemma line_entry_directive: "line_directive line = Some v \<Longrightarrow> line_entry line = None"
  by (simp add: line_directive_def line_entry_def split: option.splits if_splits)

lemma blocklist_line_filling:
  assumes "filling p" and "unat (bp_count p) < MAX_BLOCKLIST_IPS"
  shows "filling (blocklist_line p line)"
    and "loaded (blocklist_line p line) = loaded p @ (case line_entry line of None \<Rightarrow> [] | Some e \<Rightarrow> [e])"
proof -
  have "bp_count p + 1 = of_nat (unat (bp_count p) + 1)" by simp
  also have "unat \<dots> = unat (bp_count p) + 1"
    using assms(2) by (simp only: unat_of_nat) (simp add: MAX_BLOCKLIST_IPS_def take_bit_nat_eq_self)
  finally have inc: "unat (bp_count p + 1) = unat (bp_count p) + 1" .
  have len: "length (bp_entries p) = MAX_BLOCKLIST_IPS" using assms(1) by (simp add: filling_def payload_wf_def)
  show "filling (blocklist_line p line)"
    using assms inc by (simp add: blocklist_line_cases filling_def payload_wf_def split: option.split)
  show "loaded (blocklist_line p line) = loaded p @ (case line_entry line of None \<Rightarrow> [] | Some e \<Rightarrow> [e])"
    using assms(2) inc len line_entry_directive [of line]
    by (auto simp: blocklist_line_cases loaded_def take_Suc_conv_app_nth split: option.split)
qed

text \<open>The loop loads the entries of the lines in order, up to the capacity of the array.\<close>

lemma load_lines_filling: "filling p \<Longrightarrow> filling (load_lines p lines)"
  by (induction lines arbitrary: p) (simp_all add: blocklist_line_filling)

lemma loaded_load_lines:
  "filling p \<Longrightarrow> loaded (load_lines p lines) = take MAX_BLOCKLIST_IPS (loaded p @ line_entries lines)"
proof (induction lines arbitrary: p)
  case Nil
  then show ?case by (simp add: length_loaded filling_def)
next
  case (Cons line lines)
  show ?case
  proof (cases "unat (bp_count p) < MAX_BLOCKLIST_IPS")
    case True
    note step = blocklist_line_filling [OF Cons.prems True, of line]
    have "loaded p @ line_entries (line # lines) = loaded (blocklist_line p line) @ line_entries lines"
      using step(2) by (simp split: option.split)
    then show ?thesis using Cons.IH [OF step(1)] True by simp
  next
    case False
    then have "length (loaded p) = MAX_BLOCKLIST_IPS" using Cons.prems by (simp add: length_loaded filling_def)
    then show ?thesis using False by simp
  qed
qed

lemma loaded_read_blocklist: "loaded (read_blocklist text) = take MAX_BLOCKLIST_IPS (line_entries (fgets_lines 128 text))"
  by (simp add: read_blocklist_def loaded_load_lines)

lemma read_blocklist_filling: "filling (read_blocklist text)"
  by (simp add: read_blocklist_def load_lines_filling)

lemma load_lines_append:
  "filling p \<Longrightarrow> length (loaded p) + length (line_entries ls) < MAX_BLOCKLIST_IPS \<Longrightarrow>
    load_lines p (ls @ ls') = load_lines (load_lines p ls) ls'"
proof (induction ls arbitrary: p)
  case (Cons l ls)
  then have lt: "unat (bp_count p) < MAX_BLOCKLIST_IPS" by (simp add: length_loaded)
  note step = blocklist_line_filling [OF Cons.prems(1) lt, of l]
  have "length (loaded (blocklist_line p l)) + length (line_entries ls) < MAX_BLOCKLIST_IPS"
    using step(2) Cons.prems(2) by (auto split: option.splits)
  then show ?case using Cons.IH [OF step(1)] lt by simp
qed simp

text \<open>Lines that set nothing leave the flag alone.\<close>

lemma load_lines_flag:
  "list_all (\<lambda>l. line_directive l = None) lines \<Longrightarrow> bp_block_local_ips (load_lines p lines) = bp_block_local_ips p"
  by (induction lines arbitrary: p) (auto simp: blocklist_line_cases split: option.split)

subsection \<open>Lines that survive an edit\<close>

text \<open>
  Texts of lines that fit the agent's buffer: each ends in a newline, none holds a NUL, and none hides an
  entry behind a leading carriage return.
\<close>

definition tidy :: "string \<Rightarrow> bool" where
  "tidy text \<longleftrightarrow> list_all (closed_line 128) (fgets_lines 128 text) \<and> NUL \<notin> set text \<and>
     list_all (\<lambda>l. hd l \<noteq> CHR 0x0D \<or> line_token l = None) (fgets_lines 128 text)"

definition kept :: "(string \<Rightarrow> bool) \<Rightarrow> string list \<Rightarrow> string list" where
  "kept skip lines = filter (\<lambda>l. hd l \<notin> {CHR 0x0D, CHR 0x0A, CHR ''#''} \<and> \<not> skip l) lines"

lemma keep_lines_kept:
  assumes "list_all (\<lambda>l. NUL \<notin> set l \<and> length l < 128) lines"
  shows "keep_lines skip n lines = take (MAX_BLOCKLIST_IPS - n) (kept skip lines)"
  using assms
proof (induction lines arbitrary: n)
  case (Cons l lines)
  then have l: "cstr l = l" "snprintf_buf 128 l = l" by (simp_all add: cstr_id snprintf_buf_def)
  show ?case
  proof (cases "n < MAX_BLOCKLIST_IPS")
    case True
    then have "MAX_BLOCKLIST_IPS - n = Suc (MAX_BLOCKLIST_IPS - (n + 1))" by simp
    then show ?thesis using Cons l True by (simp add: kept_def)
  qed simp
qed (simp add: kept_def)

lemma tidy_lines:
  assumes "tidy text"
  shows "list_all (\<lambda>l. NUL \<notin> set l \<and> length l < 128) (fgets_lines 128 text)"
proof -
  have "set (concat (fgets_lines 128 text)) = set text" by (simp only: concat_fgets_lines [of 128 "text"])
  then show ?thesis using assms unfolding tidy_def list_all_iff closed_line_def by fastforce
qed

text \<open>Reading an edited file gives the lines that were kept.\<close>

lemma fgets_kept_text:
  assumes "tidy text"
  shows "fgets_lines 128 (kept_text skip (Some text)) = take MAX_BLOCKLIST_IPS (kept skip (fgets_lines 128 text))"
proof -
  let ?k = "take MAX_BLOCKLIST_IPS (kept skip (fgets_lines 128 text))"
  have "kept_text skip (Some text) = concat ?k"
    using keep_lines_kept [OF tidy_lines [OF assms], of skip 0] by (simp add: kept_text_def)
  moreover have "list_all (closed_line 128) ?k"
    using assms by (auto simp: tidy_def kept_def list_all_iff dest: in_set_takeD)
  ultimately show ?thesis using fgets_lines_concat [of 128 ?k "[]"]
    by (simp add: fgets_lines.simps [of _ "[]"])
qed

lemma title_closed: "closed_line 128 file_title"
  by (simp add: closed_line_def file_title_def)

lemma title_means_nothing: "line_token file_title = None"
  by (simp add: line_token_def file_title_def cstr_simps)

lemma token_means_nothing: "line_token l = None \<Longrightarrow> line_entry l = None \<and> line_directive l = None"
  by (simp add: line_entry_def line_directive_def)

lemma strtok_hd: "strtok delims s = Some (t, r) \<Longrightarrow> t \<noteq> [] \<and> (hd s \<notin> set delims \<longrightarrow> hd t = hd s) \<and> sublist t s"
proof -
  assume t: "strtok delims s = Some (t, r)"
  let ?s = "dropWhile (\<lambda>c. c \<in> set delims) s"
  from t have tw: "t = takeWhile (\<lambda>c. c \<notin> set delims) ?s" "t \<noteq> []" by (auto simp: strtok_def Let_def split: if_splits)
  have "prefix t ?s" using tw(1) by (metis prefixI takeWhile_dropWhile_id)
  moreover have "suffix ?s s" by (rule suffix_dropWhile)
  ultimately have "sublist t s" by (metis sublist_order.order.trans prefix_imp_sublist suffix_imp_sublist)
  moreover have "hd t = hd s" if "hd s \<notin> set delims"
  proof -
    have "?s = s" using that tw by (cases s) auto
    then show ?thesis using tw by (cases s) (auto split: if_splits)
  qed
  ultimately show ?thesis using tw by simp
qed

text \<open>A comment or an empty line has no entry, so dropping it loses nothing.\<close>

lemma skipped_line_means_nothing:
  assumes "tidy text" "l \<in> set (fgets_lines 128 text)" "hd l \<in> {CHR 0x0D, CHR 0x0A, CHR ''#''}"
  shows "line_token l = None"
proof -
  have l: "closed_line 128 l" "NUL \<notin> set l" "hd l \<noteq> CHR 0x0D \<or> line_token l = None"
    using assms(1,2) tidy_lines [OF assms(1)] by (auto simp: tidy_def list_all_iff)
  consider "line_token l = None" | "hd l = CHR 0x0A" | "hd l = CHR ''#''" using assms(3) l(3) by auto
  then show ?thesis
  proof cases
    case 2
    then have "l = [CHR 0x0A]" using l(1) by (cases l) (auto simp: closed_line_def split: if_splits)
    then show ?thesis by (simp add: line_token_def cstr_simps)
  next
    case 3
    then show ?thesis using strtok_hd [of wspace l] l(2)
      by (auto simp: line_token_def cstr_id wspace_def split: option.split prod.split)
  qed
qed

lemma line_entries_kept:
  assumes "tidy text"
  shows "line_entries (kept skip (fgets_lines 128 text)) = line_entries (filter (\<lambda>l. \<not> skip l) (fgets_lines 128 text))"
proof -
  have "line_entries (kept skip ls) = line_entries (filter (\<lambda>l. \<not> skip l) ls)" if "set ls \<subseteq> set (fgets_lines 128 text)" for ls
    using that
  proof (induction ls)
    case (Cons l ls)
    then show ?case
      using skipped_line_means_nothing [OF assms, of l] token_means_nothing [of l]
      by (auto simp: kept_def cong: option.case_cong)
  qed (simp add: kept_def)
  then show ?thesis by blast
qed

text \<open>An entry shows in the text of its line.\<close>

lemma parse_cidr_address: "parse_cidr t = Some (ip, m) \<Longrightarrow> prefix (inet_ntop ip) t"
  by (auto simp: parse_cidr_def Let_def dest!: inet_pton_SomeD) (metis prefixI takeWhile_dropWhile_id)

lemma line_entry_text: "line_entry l = Some e \<Longrightarrow> sublist (inet_ntop (be_ip e)) (cstr l)"
proof -
  assume "line_entry l = Some e"
  then obtain t r m where t: "strtok wspace (cstr l) = Some (t, r)" "parse_cidr t = Some (be_ip e, m)"
    by (auto simp: line_entry_def line_token_def split: option.splits if_splits prod.splits)
  then show ?thesis
    using parse_cidr_address [OF t(2)] strtok_hd [OF t(1)] by (metis prefix_imp_sublist sublist_order.order.trans)
qed

subsection \<open>The lines the agent writes\<close>

lemma length_octet: "n < 256 \<Longrightarrow> length (dec_nat n) \<le> 3"
  by (cases "n < 10"; cases "n < 100") (auto simp: dec_nat_small dec_nat_step)

lemma length_inet_ntop: "length (inet_ntop ip) \<le> 15"
  using length_octet [OF addr_byte_less, of ip 0] length_octet [OF addr_byte_less, of ip 1]
    length_octet [OF addr_byte_less, of ip 2] length_octet [OF addr_byte_less, of ip 3]
  by (simp add: inet_ntop_def)

lemma inet_ntop_chars: "set (inet_ntop ip) \<inter> {CHR ''/'', CHR ''#'', CHR ''b'', NUL, CHR '' '', CHR 0x09, CHR 0x0D, CHR 0x0A} = {}"
proof (unfold disjoint_iff, intro allI impI)
  fix c assume "c \<in> set (inet_ntop ip)"
  from set_inet_ntop [OF this]
  show "c \<notin> {CHR ''/'', CHR ''#'', CHR ''b'', NUL, CHR '' '', CHR 0x09, CHR 0x0D, CHR 0x0A}"
    by (auto simp: isdigit_def ord_def)
qed

lemma block_line_closed: "closed_line 128 (block_line ip)"
  using length_inet_ntop [of ip] inet_ntop_chars [of ip] by (auto simp: closed_line_def block_line_def butlast_append)

lemma block_line_entry: "line_entry (block_line ip) = Some \<lparr>be_ip = ip, be_mask = 32\<rparr>" "line_directive (block_line ip) = None"
proof -
  let ?t = "inet_ntop ip @ ''/32''"
  have c: "set (inet_ntop ip) \<inter> {CHR ''/'', CHR ''#'', CHR ''b'', NUL, CHR '' '', CHR 0x09, CHR 0x0D, CHR 0x0A} = {}"
    by (rule inet_ntop_chars)
  have "cstr (block_line ip) = block_line ip" using c by (intro cstr_id) (auto simp: block_line_def)
  moreover have "strtok wspace (?t @ [CHR 0x0A]) = Some (?t, [])"
    using c by (intro strtok_prefix) (auto simp: wspace_def)
  moreover have hd: "hd ?t \<in> set (inet_ntop ip)" by simp
  then have "hd ?t \<noteq> CHR ''#''" using c by (metis disjoint_iff insertCI)
  ultimately have tok: "line_token (block_line ip) = Some ?t" by (simp add: line_token_def block_line_def)
  have nb: "hd ?t \<noteq> CHR ''b''" using hd c by (metis disjoint_iff insertCI)
  have dir: "take 16 ?t \<noteq> ''block_local_ips=''"
  proof
    assume "take 16 ?t = ''block_local_ips=''"
    then have "hd (take 16 ?t) = CHR ''b''" by simp
    then show False using nb by simp
  qed
  have "takeWhile (\<lambda>c. c \<noteq> CHR ''/'') ?t = inet_ntop ip" using c by (subst takeWhile_append2) auto
  then have "parse_cidr ?t = Some (ip, 32)" by (simp add: parse_cidr_def Let_def inet_pton_ntop cstr_simps)
  then show "line_entry (block_line ip) = Some \<lparr>be_ip = ip, be_mask = 32\<rparr>" "line_directive (block_line ip) = None"
    using tok dir by (simp_all add: line_entry_def line_directive_def)
qed

lemma load_lines_Cons_nothing: "line_token l = None \<Longrightarrow> load_lines zero_payload (l # ls) = load_lines zero_payload ls"
  using token_means_nothing [of l] by (simp add: blocklist_line_cases zero_payload_def MAX_BLOCKLIST_IPS_def)

lemma config_line_closed: "closed_line 128 (config_line v)"
proof -
  have "unat v < 2 ^ LENGTH(32)" by (rule unsigned_less)
  then have "length (dec_nat (unat v)) \<le> 40" using length_dec_nat [of "unat v" 10] by simp
  moreover have "CHR 0x0A \<notin> set (dec_nat (unat v))" using set_dec_nat [of "CHR 0x0A"] by (auto simp: isdigit_def ord_def)
  ultimately show ?thesis by (simp add: closed_line_def config_line_def butlast_append)
qed

lemma config_line_directive:
  assumes "unat v < 2 ^ 31"
  shows "line_directive (config_line v) = Some v"
proof -
  let ?t = "''block_local_ips='' @ dec_nat (unat v)"
  have d: "c \<notin> {NUL, CHR '' '', CHR 0x09, CHR 0x0D, CHR 0x0A}" if "c \<in> set (dec_nat (unat v))" for c
    using set_dec_nat [OF that] by (auto simp: isdigit_def ord_def)
  have "cstr (config_line v) = config_line v" using d by (intro cstr_id) (auto simp: config_line_def)
  moreover have "strtok wspace (?t @ [CHR 0x0A]) = Some (?t, [])" using d by (intro strtok_prefix) (auto simp: wspace_def)
  ultimately have "line_token (config_line v) = Some ?t" by (simp add: line_token_def config_line_def)
  moreover have "atoi (dec_nat (unat v)) = int (unat v)" using atoi_dec_nat [of "[]" "unat v"] assms by simp
  ultimately show ?thesis by (simp add: line_directive_def)
qed

text \<open>A directive at the start of its line holds no entry.\<close>

lemma directive_no_entry:
  assumes "take 16 l = ''block_local_ips=''" and "NUL \<notin> set l"
  shows "line_entry l = None"
proof -
  obtain r where l: "l = ''block_local_ips='' @ r" using assms(1) by (metis append_take_drop_id)
  have "strtok wspace l = Some (''block_local_ips='' @ takeWhile (\<lambda>c. c \<notin> set wspace) r,
      drop (length (takeWhile (\<lambda>c. c \<notin> set wspace) r) + 1) r)"
    unfolding l by (simp add: strtok_def Let_def wspace_def)
  then have "line_token l = Some (''block_local_ips='' @ takeWhile (\<lambda>c. c \<notin> set wspace) r)"
    using assms(2) by (simp add: line_token_def cstr_id)
  then show ?thesis by (simp add: line_entry_def)
qed

subsection \<open>What the edits do to the payload\<close>

lemma block_ip_loaded:
  assumes "text = [] \<or> last text = CHR 0x0A" and "length (line_entries (fgets_lines 128 text)) < 1024"
  shows "loaded (read_blocklist (text @ block_line ip)) = loaded (read_blocklist text) @ [\<lparr>be_ip = ip, be_mask = 32\<rparr>]"
    and "bp_block_local_ips (read_blocklist (text @ block_line ip)) = bp_block_local_ips (read_blocklist text)"
proof -
  have nl: "fgets_lines 128 (block_line ip) = [block_line ip]"
    using fgets_line_closed [OF block_line_closed, of ip "[]"] by (simp add: fgets_lines.simps [of _ "[]"])
  have ls: "fgets_lines 128 (text @ block_line ip) = fgets_lines 128 text @ [block_line ip]"
    using fgets_lines_append [OF _ assms(1), of 128 "block_line ip"] nl by simp
  show "loaded (read_blocklist (text @ block_line ip)) = loaded (read_blocklist text) @ [\<lparr>be_ip = ip, be_mask = 32\<rparr>]"
    using assms(2) by (simp add: loaded_read_blocklist ls block_line_entry MAX_BLOCKLIST_IPS_def)
  have "load_lines zero_payload (fgets_lines 128 text @ [block_line ip]) =
      load_lines (load_lines zero_payload (fgets_lines 128 text)) [block_line ip]"
    using assms(2) by (intro load_lines_append) (simp_all add: MAX_BLOCKLIST_IPS_def)
  then show "bp_block_local_ips (read_blocklist (text @ block_line ip)) = bp_block_local_ips (read_blocklist text)"
    by (simp add: read_blocklist_def ls blocklist_line_cases block_line_entry)
qed

text \<open>Rewriting keeps the entries of all lines the command does not skip.\<close>

lemma few_entries: "length (line_entries ls) \<le> length ls"
  by (induction ls) (auto split: option.split)

lemma kept_text_loaded:
  assumes "tidy text" and "length (fgets_lines 128 text) \<le> 1024"
  shows "fgets_lines 128 (kept_text skip (Some text)) = kept skip (fgets_lines 128 text)"
    and "take 1024 (line_entries (kept skip (fgets_lines 128 text))) =
      line_entries (filter (\<lambda>l. \<not> skip l) (fgets_lines 128 text))"
proof -
  have few: "length (kept skip (fgets_lines 128 text)) \<le> 1024"
    unfolding kept_def using assms(2) length_filter_le order_trans by blast
  then show "fgets_lines 128 (kept_text skip (Some text)) = kept skip (fgets_lines 128 text)"
    by (simp add: fgets_kept_text [OF assms(1)] MAX_BLOCKLIST_IPS_def)
  have "length (line_entries (kept skip (fgets_lines 128 text))) \<le> 1024" using few few_entries order_trans by blast
  then show "take 1024 (line_entries (kept skip (fgets_lines 128 text))) =
      line_entries (filter (\<lambda>l. \<not> skip l) (fgets_lines 128 text))"
    by (simp add: line_entries_kept [OF assms(1)])
qed

lemma unblock_ip_loaded:
  assumes "tidy text" and "length (fgets_lines 128 text) \<le> 1024"
  shows "loaded (read_blocklist (file_title @ kept_text (\<lambda>l. strstr_found l (inet_ntop ip)) (Some text))) =
    line_entries (filter (\<lambda>l. \<not> sublist (inet_ntop ip) l) (fgets_lines 128 text))"
  using token_means_nothing [OF title_means_nothing] kept_text_loaded [OF assms]
  by (simp add: fgets_line_closed [OF title_closed] loaded_read_blocklist MAX_BLOCKLIST_IPS_def strstr_found_iff)

lemma unblock_ip_unlisted:
  assumes "tidy text"
  shows "ip \<notin> be_ip ` set (line_entries (filter (\<lambda>l. \<not> sublist (inet_ntop ip) l) (fgets_lines 128 text)))"
proof -
  have "be_ip e \<noteq> ip" if "e \<in> set (line_entries (filter (\<lambda>l. \<not> sublist (inet_ntop ip) l) (fgets_lines 128 text)))" for e
  proof -
    from that obtain l where l: "l \<in> set (fgets_lines 128 text)" "\<not> sublist (inet_ntop ip) l" "line_entry l = Some e"
      by (auto simp: line_entries_def List.map_filter_def)
    then have "cstr l = l" using tidy_lines [OF assms] by (intro cstr_id) (auto simp: list_all_iff)
    then show ?thesis using line_entry_text [OF l(3)] l(2) by auto
  qed
  then show ?thesis by auto
qed

lemma config_update_loaded:
  assumes "tidy text" and "length (fgets_lines 128 text) \<le> 1024" and "unat v < 2 ^ 31"
    and "list_all (\<lambda>l. line_directive l = None \<or> take 16 l = ''block_local_ips='') (fgets_lines 128 text)"
  shows "loaded (read_blocklist (file_title @ config_line v @ kept_text (\<lambda>l. take 16 l = ''block_local_ips='') (Some text))) =
      line_entries (fgets_lines 128 text)"
    and "bp_block_local_ips (read_blocklist (file_title @ config_line v @ kept_text (\<lambda>l. take 16 l = ''block_local_ips='') (Some text))) = v"
proof -
  let ?skip = "\<lambda>l. take 16 l = ''block_local_ips=''" and ?ls = "fgets_lines 128 text"
  have lines: "fgets_lines 128 (file_title @ config_line v @ kept_text ?skip (Some text)) = file_title # config_line v # kept ?skip ?ls"
    by (simp add: fgets_line_closed [OF title_closed] fgets_line_closed [OF config_line_closed] kept_text_loaded(1) [OF assms(1,2)])
  note title = token_means_nothing [OF title_means_nothing]
  have conf: "line_directive (config_line v) = Some v" "line_entry (config_line v) = None"
    using config_line_directive [OF assms(3)] line_entry_directive by auto
  have "line_entries (filter (\<lambda>l. \<not> ?skip l) ls) = line_entries ls" if "set ls \<subseteq> set ?ls" for ls
    using that
  proof (induction ls)
    case (Cons l ls)
    have "NUL \<notin> set l" using Cons.prems tidy_lines [OF assms(1)] by (simp add: list_all_iff)
    then show ?case using Cons directive_no_entry [of l] by (auto split: option.split)
  qed simp
  then have all: "line_entries (filter (\<lambda>l. \<not> ?skip l) ?ls) = line_entries ?ls" by blast
  have "line_entries (file_title # config_line v # ls) = line_entries ls" for ls
    using title conf by simp
  then show "loaded (read_blocklist (file_title @ config_line v @ kept_text ?skip (Some text))) = line_entries ?ls"
    unfolding loaded_read_blocklist lines using kept_text_loaded(2) [OF assms(1,2), of ?skip] all
    by (simp only: MAX_BLOCKLIST_IPS_def)
  have "list_all (\<lambda>l. line_directive l = None) (kept ?skip ?ls)"
    using assms(4) by (auto simp: kept_def list_all_iff)
  then show "bp_block_local_ips (read_blocklist (file_title @ config_line v @ kept_text ?skip (Some text))) = v"
    using title conf by (simp add: read_blocklist_def lines blocklist_line_cases load_lines_flag MAX_BLOCKLIST_IPS_def zero_payload_def)
qed

subsection \<open>Properties\<close>

text \<open>Blocking appends: when no line contains the text of the address, the file ends in a newline and
  fewer than 1024 entries are listed, the next payload carries all old entries, the new address with
  mask 32 after them, and the old setting of \<^verbatim>\<open>block_local_ips\<close>. When some line contains the text, the file stays.\<close>

theorem agent_block_adds_entry:
  assumes "text = [] \<or> last text = CHR 0x0A" and "length (line_entries (fgets_lines 128 text)) < 1024"
  shows "(let p = read_blocklist text; p' = read_blocklist (the (block_ip_file True ip (Some text))) in
    if listed_text (Some text) (inet_ntop ip) then p' = p
    else loaded p' = loaded p @ [\<lparr>be_ip = ip, be_mask = 32\<rparr>] \<and> bp_block_local_ips p' = bp_block_local_ips p)"
  using block_ip_loaded [OF assms, of ip] by (simp add: block_ip_file_def Let_def)

theorem agent_block_adds_entry_witness:
  "loaded (read_blocklist (the (block_ip_file True (inet_addr4 9 9 9 9) (Some [])))) =
     [\<lparr>be_ip = inet_addr4 9 9 9 9, be_mask = 32\<rparr>]"
  using agent_block_adds_entry [of "[]" "inet_addr4 9 9 9 9"]
  by (simp add: listed_text_def fgets_lines.simps loaded_read_blocklist Let_def)


text \<open>A configuration update sets the flag and nothing else: the payload of the rewritten file has the value sent and the
  entries of the old file. The value is below \<^term>\<open>2 ^ 31\<close>, old directives start their lines.\<close>

theorem agent_config_sets_flag:
  assumes "tidy text" and "length (fgets_lines 128 text) \<le> 1024" and "unat v < 2 ^ 31"
    and "list_all (\<lambda>l. line_directive l = None \<or> take 16 l = ''block_local_ips='') (fgets_lines 128 text)"
  shows "bp_block_local_ips (read_blocklist (the (config_update_file True v (Some text)))) = v \<and>
    loaded (read_blocklist (the (config_update_file True v (Some text)))) = loaded (read_blocklist text)"
proof -
  have "length (line_entries (fgets_lines 128 text)) \<le> 1024" using assms(2) few_entries order_trans by blast
  then show ?thesis
    using config_update_loaded [OF assms] by (simp add: config_update_file_def loaded_read_blocklist MAX_BLOCKLIST_IPS_def)
qed

definition sample_file :: string where
  "sample_file = ''10.0.0.1/8'' @ [CHR 0x0A] @ ''9.9.9.9'' @ [CHR 0x0A]"

lemma sample_lines: "fgets_lines 128 sample_file = [''10.0.0.1/8'' @ [CHR 0x0A], ''9.9.9.9'' @ [CHR 0x0A]]"
  using fgets_lines_concat [of 128 "[''10.0.0.1/8'' @ [CHR 0x0A], ''9.9.9.9'' @ [CHR 0x0A]]" "[]"]
  by (simp add: sample_file_def closed_line_def fgets_lines.simps [of _ "[]"])

lemma sample_tidy: "tidy sample_file"
  by (simp add: tidy_def sample_lines closed_line_def) (simp add: sample_file_def)

lemmas line_eval = line_entry_def line_directive_def line_token_def parse_cidr_def inet_pton_def cstr_simps


theorem agent_config_sets_flag_witness:
  "bp_block_local_ips (read_blocklist (the (config_update_file True 1 (Some sample_file)))) = 1"
  using agent_config_sets_flag [OF sample_tidy, of 1] by (simp add: sample_lines line_eval)

text \<open>
  The test of the two commands is a substring search, so addresses that contain one another disturb each other:
  1.2.3.4 is not added to a file that lists 11.2.3.45, and unblocking 1.2.3.4 removes 11.2.3.45.
\<close>

lemma agent_substring_confusion:
  "block_ip_file True (inet_addr4 1 2 3 4) (Some (''11.2.3.45'' @ [CHR 0x0A])) = Some (''11.2.3.45'' @ [CHR 0x0A])"
  "unblock_ip_file True (inet_addr4 1 2 3 4) (Some (''11.2.3.45'' @ [CHR 0x0A])) = Some file_title"
proof -
  have ip: "inet_ntop (inet_addr4 1 2 3 4) = ''1.2.3.4''"
    using inet_pton_SomeD [of "''1.2.3.4''" "inet_addr4 1 2 3 4"] by (simp add: inet_pton_def cstr_simps)
  have ls: "fgets_lines 128 (''11.2.3.45'' @ [CHR 0x0A]) = [''11.2.3.45'' @ [CHR 0x0A]]"
    using fgets_lines_concat [of 128 "[''11.2.3.45'' @ [CHR 0x0A]]" "[]"]
    by (simp add: closed_line_def fgets_lines.simps [of _ "[]"])
  show "block_ip_file True (inet_addr4 1 2 3 4) (Some (''11.2.3.45'' @ [CHR 0x0A])) = Some (''11.2.3.45'' @ [CHR 0x0A])"
    using ls by (simp add: block_ip_file_def listed_text_def ip cstr_simps)
  show "unblock_ip_file True (inet_addr4 1 2 3 4) (Some (''11.2.3.45'' @ [CHR 0x0A])) = Some file_title"
    using ls by (simp add: unblock_ip_file_def kept_text_def ip cstr_simps MAX_BLOCKLIST_IPS_def)
qed

end
