(* ===== verification/Aes_Wrapper.thy ===== *)
theory Aes_Wrapper
  imports Fw_Prelude
begin

section \<open>AES envelope (aes\_wrapper.c)\<close>

text \<open>
  \<^verbatim>\<open>aes_encrypt\<close> prepends a random 16-byte IV to the AES-256-CBC ciphertext; \<^verbatim>\<open>aes_decrypt\<close> takes it off
  again. Agent and server link the same file. OpenSSL is the record \<open>evp_env\<close>: whether contexts,
  memory and random bytes are available, and what the update and final calls produce for a key, an IV
  and an input. \<^term>\<open>None\<close> is the return value -1.
\<close>

subsection \<open>Model\<close>

record evp_env =
  EVP_CIPHER_CTX_new :: bool
  RAND_bytes :: "byte list option"
  evp_malloc :: bool
  EVP_EncryptInit :: bool
  EVP_EncryptUpdate :: "byte list \<Rightarrow> byte list \<Rightarrow> byte list \<Rightarrow> byte list option"
  EVP_EncryptFinal :: "byte list \<Rightarrow> byte list \<Rightarrow> byte list \<Rightarrow> byte list option"
  EVP_DecryptInit :: bool
  EVP_DecryptUpdate :: "byte list \<Rightarrow> byte list \<Rightarrow> byte list \<Rightarrow> byte list option"
  EVP_DecryptFinal :: "byte list \<Rightarrow> byte list \<Rightarrow> byte list \<Rightarrow> byte list option"

definition AES_BLOCK_SIZE :: nat where
  "AES_BLOCK_SIZE = 16"

text \<open>The 31 characters of the literal and its terminator fill the 32 bytes of the key.\<close>

definition aes_key :: "byte list" where
  "aes_key = ''nullsploit_secure_aes_key_2026!'' @ [NUL]"

definition aes_encrypt :: "evp_env \<Rightarrow> byte list \<Rightarrow> byte list option" where
  "aes_encrypt env plaintext =
     (if \<not> EVP_CIPHER_CTX_new env then None
      else case RAND_bytes env of None \<Rightarrow> None
        | Some iv \<Rightarrow>
            if \<not> evp_malloc env then None
            else if \<not> EVP_EncryptInit env then None
            else (case EVP_EncryptUpdate env aes_key iv plaintext of None \<Rightarrow> None
                  | Some out1 \<Rightarrow>
                      (case EVP_EncryptFinal env aes_key iv plaintext of None \<Rightarrow> None
                       | Some out2 \<Rightarrow> Some (iv @ out1 @ out2))))"

definition aes_decrypt :: "evp_env \<Rightarrow> byte list \<Rightarrow> byte list option" where
  "aes_decrypt env ciphertext =
     (if length ciphertext < AES_BLOCK_SIZE then None
      else if \<not> EVP_CIPHER_CTX_new env then None
      else let iv = take AES_BLOCK_SIZE ciphertext; actual_ciphertext = drop AES_BLOCK_SIZE ciphertext
           in if \<not> evp_malloc env then None
              else if \<not> EVP_DecryptInit env then None
              else (case EVP_DecryptUpdate env aes_key iv actual_ciphertext of None \<Rightarrow> None
                    | Some out1 \<Rightarrow>
                        (case EVP_DecryptFinal env aes_key iv actual_ciphertext of None \<Rightarrow> None
                         | Some out2 \<Rightarrow> Some (out1 @ out2))))"

text \<open>
  What the code relies on of OpenSSL, in the process that encrypts (\<^term>\<open>e\<close>) and the one that decrypts
  (\<^term>\<open>d\<close>): random IVs have the block size, the decrypting process has the resources it asks for, and CBC
  decryption inverts CBC encryption under the same key and IV.
\<close>

definition evp_ok :: "evp_env \<Rightarrow> evp_env \<Rightarrow> bool" where
  "evp_ok e d \<longleftrightarrow>
     (\<forall>iv. RAND_bytes e = Some iv \<longrightarrow> length iv = AES_BLOCK_SIZE) \<and>
     EVP_CIPHER_CTX_new d \<and> evp_malloc d \<and> EVP_DecryptInit d \<and>
     (\<forall>key iv p c1 c2. EVP_EncryptUpdate e key iv p = Some c1 \<and> EVP_EncryptFinal e key iv p = Some c2 \<longrightarrow>
        (\<exists>p1 p2. EVP_DecryptUpdate d key iv (c1 @ c2) = Some p1 \<and> EVP_DecryptFinal d key iv (c1 @ c2) = Some p2 \<and>
           p = p1 @ p2))"

subsection \<open>The interface of an envelope\<close>

text \<open>What the framing of the agent and of the server relies on.\<close>

locale envelope =
  fixes ok :: "'e \<Rightarrow> 'e \<Rightarrow> bool"
    and seal :: "'e \<Rightarrow> byte list \<Rightarrow> byte list option"
    and unseal :: "'e \<Rightarrow> byte list \<Rightarrow> byte list option"
    and overhead :: nat
  assumes unseal_seal: "ok e d \<Longrightarrow> seal e p = Some c \<Longrightarrow> unseal d c = Some p"
    and seal_length: "ok e d \<Longrightarrow> seal e p = Some c \<Longrightarrow> overhead \<le> length c"
    and short_rejected: "length c < overhead \<Longrightarrow> unseal d c = None"
begin

text \<open>Different plaintexts never share a ciphertext.\<close>

lemma seal_inject: "ok e d \<Longrightarrow> seal e p = Some c \<Longrightarrow> seal e p' = Some c \<Longrightarrow> p = p'"
  using unseal_seal [of e d p c] unseal_seal [of e d p' c] by simp

lemma seal_nonempty: "ok e d \<Longrightarrow> 0 < overhead \<Longrightarrow> seal e p = Some c \<Longrightarrow> c \<noteq> []"
  using seal_length [of e d p c] by auto

end

lemma aes_encrypt_SomeE:
  assumes "aes_encrypt env p = Some c"
  obtains iv c1 c2 where "RAND_bytes env = Some iv" "EVP_EncryptUpdate env aes_key iv p = Some c1"
    "EVP_EncryptFinal env aes_key iv p = Some c2" "c = iv @ c1 @ c2"
  using assms by (auto simp: aes_encrypt_def split: if_splits option.splits)

lemma aes_decrypt_encrypt:
  assumes "evp_ok e d" and "aes_encrypt e p = Some c"
  shows "aes_decrypt d c = Some p"
proof -
  obtain iv c1 c2 where c: "RAND_bytes e = Some iv" "EVP_EncryptUpdate e aes_key iv p = Some c1"
    "EVP_EncryptFinal e aes_key iv p = Some c2" "c = iv @ c1 @ c2"
    using aes_encrypt_SomeE [OF assms(2)] by blast
  have iv: "length iv = AES_BLOCK_SIZE" and res: "EVP_CIPHER_CTX_new d" "evp_malloc d" "EVP_DecryptInit d"
    using assms(1) c(1) by (simp_all add: evp_ok_def)
  obtain p1 p2 where "EVP_DecryptUpdate d aes_key iv (c1 @ c2) = Some p1"
      "EVP_DecryptFinal d aes_key iv (c1 @ c2) = Some p2" "p = p1 @ p2"
    using assms(1) c(2,3) unfolding evp_ok_def by blast
  then show ?thesis using c(4) iv res by (simp add: aes_decrypt_def)
qed

interpretation aes: envelope evp_ok aes_encrypt aes_decrypt AES_BLOCK_SIZE
proof
  fix e d p c
  show "evp_ok e d \<Longrightarrow> aes_encrypt e p = Some c \<Longrightarrow> aes_decrypt d c = Some p"
    by (rule aes_decrypt_encrypt)
  show "evp_ok e d \<Longrightarrow> aes_encrypt e p = Some c \<Longrightarrow> AES_BLOCK_SIZE \<le> length c"
    by (auto simp: evp_ok_def elim!: aes_encrypt_SomeE)
  show "length c < AES_BLOCK_SIZE \<Longrightarrow> aes_decrypt d c = None"
    by (simp add: aes_decrypt_def)
qed

subsection \<open>Properties\<close>

text \<open>Decryption undoes encryption: whatever \<^verbatim>\<open>aes_encrypt\<close> produces in one process, \<^verbatim>\<open>aes_decrypt\<close> turns back into the
  plaintext in the other, provided OpenSSL's CBC decryption inverts its encryption; and input shorter than an IV is
  always refused.\<close>

theorem aes_roundtrip:
  assumes "evp_ok e d" and "aes_encrypt e p = Some c" and "length short < 16"
  shows "aes_decrypt d c = Some p \<and> 16 \<le> length c \<and> aes_decrypt d short = None"
  using aes.unseal_seal [OF assms(1,2)] aes.seal_length [OF assms(1,2)] aes.short_rejected [of short d] assms(3)
  by (simp add: AES_BLOCK_SIZE_def)

text \<open>A stand-in for the cipher: update passes the input on, final adds nothing.\<close>

definition plain_evp :: evp_env where
  "plain_evp = \<lparr>EVP_CIPHER_CTX_new = True, RAND_bytes = Some (replicate 16 (CHR ''i'')), evp_malloc = True,
     EVP_EncryptInit = True, EVP_EncryptUpdate = (\<lambda>_ _ p. Some p), EVP_EncryptFinal = (\<lambda>_ _ _. Some []),
     EVP_DecryptInit = True, EVP_DecryptUpdate = (\<lambda>_ _ c. Some c), EVP_DecryptFinal = (\<lambda>_ _ _. Some [])\<rparr>"

lemma plain_evp_ok: "evp_ok plain_evp plain_evp"
  by (simp add: evp_ok_def plain_evp_def AES_BLOCK_SIZE_def)

lemma plain_evp_encrypt: "aes_encrypt plain_evp p = Some (replicate 16 (CHR ''i'') @ p)"
  by (simp add: aes_encrypt_def plain_evp_def)

theorem aes_roundtrip_witness:
  "aes_decrypt plain_evp (replicate 16 (CHR ''i'') @ ''ping'') = Some ''ping''"
  using aes_roundtrip [OF plain_evp_ok plain_evp_encrypt, of "[]" "''ping''"] by simp

end
