(* ===== verification/Soc_Protocol.thy ===== *)
theory Soc_Protocol
  imports Fw_Types Aes_Wrapper
begin

section \<open>The protocol between agent and SOC server (protocol.h)\<close>

text \<open>
  A message is the packed 25-byte \<^verbatim>\<open>struct soc_msg_hdr\<close> followed by the AES envelope of its payload.
  Headers and events are given both as values and as the bytes they are in memory, since both programs
  read them by overlaying the struct on a buffer.

  The locale \<open>message_framing\<close> extends the envelope by a header; what it shows, that a reader that takes a
  header and then as many bytes as it announces recovers every message of a stream, serves both
  directions.
\<close>

subsection \<open>Model\<close>

definition SOC_PORT :: nat where "SOC_PORT = 1113"

definition MAGIC_HEADER :: u32 where "MAGIC_HEADER = 0x46573031"

definition MSG_TYPE_PING :: u8 where "MSG_TYPE_PING = 0"
definition MSG_TYPE_BATCH :: u8 where "MSG_TYPE_BATCH = 1"
definition MSG_TYPE_ALERT :: u8 where "MSG_TYPE_ALERT = 2"
definition MSG_TYPE_BLOCK_IP :: u8 where "MSG_TYPE_BLOCK_IP = 3"
definition MSG_TYPE_UNBLOCK_IP :: u8 where "MSG_TYPE_UNBLOCK_IP = 4"
definition MSG_TYPE_CONFIG_UPDATE :: u8 where "MSG_TYPE_CONFIG_UPDATE = 5"
definition MSG_TYPE_YARA_UPDATE :: u8 where "MSG_TYPE_YARA_UPDATE = 6"

lemmas msg_types = MSG_TYPE_PING_def MSG_TYPE_BATCH_def MSG_TYPE_ALERT_def MSG_TYPE_BLOCK_IP_def
  MSG_TYPE_UNBLOCK_IP_def MSG_TYPE_CONFIG_UPDATE_def MSG_TYPE_YARA_UPDATE_def

record soc_msg_hdr =
  hdr_magic :: u32
  hdr_agent_uuid :: "byte list"
  hdr_msg_type :: u8
  hdr_payload_len :: u32

definition HDR_SIZE :: nat where "HDR_SIZE = 25"

definition byte_u8 :: "u8 \<Rightarrow> byte" where
  "byte_u8 w = char_of (unat w)"

definition encode_hdr :: "soc_msg_hdr \<Rightarrow> byte list" where
  "encode_hdr h = encode_u32 (hdr_magic h) @ hdr_agent_uuid h @ [byte_u8 (hdr_msg_type h)] @ encode_u32 (hdr_payload_len h)"

definition parse_hdr :: "byte list \<Rightarrow> soc_msg_hdr" where
  "parse_hdr bs =
     \<lparr>hdr_magic = le32 (bs ! 0) (bs ! 1) (bs ! 2) (bs ! 3), hdr_agent_uuid = take 16 (drop 4 bs),
      hdr_msg_type = of_char (bs ! 20), hdr_payload_len = le32 (bs ! 21) (bs ! 22) (bs ! 23) (bs ! 24)\<rparr>"

text \<open>The header both senders fill in for \<^term>\<open>n\<close> bytes of encrypted payload.\<close>

definition make_hdr :: "byte list \<Rightarrow> u8 \<Rightarrow> nat \<Rightarrow> soc_msg_hdr" where
  "make_hdr uuid ty n =
     \<lparr>hdr_magic = htonl MAGIC_HEADER, hdr_agent_uuid = uuid, hdr_msg_type = ty, hdr_payload_len = htonl (of_nat n)\<rparr>"

text \<open>The health report: two doubles and a 64-bit counter, kept as their bytes.\<close>

definition HEALTH_SIZE :: nat where "HEALTH_SIZE = 24"

subsection \<open>Events on the wire\<close>

text \<open>
  \<^verbatim>\<open>struct fw_event\<close> as its bytes: the fields lie one after the other, two bytes of padding end it. The
  agent and the server read single fields of it.
\<close>

type_synonym raw_event = "byte list"

definition EVENT_SIZE :: nat where "EVENT_SIZE = 408"

definition raw_timestamp :: "raw_event \<Rightarrow> u64" where
  "raw_timestamp e = ucast (le32 (e ! 0) (e ! 1) (e ! 2) (e ! 3)) OR push_bit 32 (ucast (le32 (e ! 4) (e ! 5) (e ! 6) (e ! 7)))"

definition raw_src_ip :: "raw_event \<Rightarrow> u32" where
  "raw_src_ip e = le32 (e ! 8) (e ! 9) (e ! 10) (e ! 11)"

definition raw_dest_ip :: "raw_event \<Rightarrow> u32" where
  "raw_dest_ip e = le32 (e ! 12) (e ! 13) (e ! 14) (e ! 15)"

definition raw_src_port :: "raw_event \<Rightarrow> u16" where
  "raw_src_port e = le16 (e ! 16) (e ! 17)"

definition raw_dest_port :: "raw_event \<Rightarrow> u16" where
  "raw_dest_port e = le16 (e ! 18) (e ! 19)"

definition raw_threat_type :: "raw_event \<Rightarrow> u8" where
  "raw_threat_type e = of_char (e ! 20)"

definition raw_severity :: "raw_event \<Rightarrow> u8" where
  "raw_severity e = of_char (e ! 21)"

definition raw_payload_preview :: "raw_event \<Rightarrow> string" where
  "raw_payload_preview e = cstr (take 128 (drop 22 e))"

definition raw_details :: "raw_event \<Rightarrow> string" where
  "raw_details e = cstr (take 256 (drop 150 e))"

text \<open>The bytes of an event as the daemon writes it; unwritten bytes of its buffers are zero.\<close>

definition char_array :: "nat \<Rightarrow> string \<Rightarrow> byte list" where
  "char_array n s = take n (s @ replicate n NUL)"

definition encode_u16 :: "u16 \<Rightarrow> byte list" where
  "encode_u16 w = [byte_of (ucast w) 0, byte_of (ucast w) 1]"

definition encode_event :: "fw_event \<Rightarrow> raw_event" where
  "encode_event ev =
     encode_u32 (ucast (ev_timestamp ev)) @ encode_u32 (ucast (drop_bit 32 (ev_timestamp ev))) @
     encode_u32 (ev_src_ip ev) @ encode_u32 (ev_dest_ip ev) @
     encode_u16 (ev_src_port ev) @ encode_u16 (ev_dest_port ev) @
     [char_of (threat_code (ev_threat_type ev)), char_of (severity_code (ev_severity ev))] @
     char_array 128 (ev_payload_preview ev) @ char_array 256 (ev_details ev) @ [NUL, NUL]"

subsection \<open>Lemmas\<close>

lemma of_char_byte_u8 [simp]: "of_char (byte_u8 w) = w"
  by (simp add: byte_u8_def of_char_mask)

lemma length_encode_hdr [simp]: "length (hdr_agent_uuid h) = 16 \<Longrightarrow> length (encode_hdr h) = HDR_SIZE"
  by (simp add: encode_hdr_def HDR_SIZE_def)

lemma parse_encode_hdr: "length (hdr_agent_uuid h) = 16 \<Longrightarrow> parse_hdr (encode_hdr h @ rest) = h"
  by (simp add: parse_hdr_def encode_hdr_def encode_u32_def nth_append le32_bytes [unfolded One_nat_def])

lemma length_char_array [simp]: "length (char_array n s) = n"
  by (simp add: char_array_def)

lemma cstr_char_array: "length s < n \<Longrightarrow> NUL \<notin> set s \<Longrightarrow> cstr (char_array n s) = s"
proof -
  assume s: "length s < n" "NUL \<notin> set s"
  then have "char_array n s = s @ NUL # replicate (n - length s - 1) NUL"
    by (simp add: char_array_def flip: replicate_Suc)
  then show ?thesis using cstr_append_NUL [OF s(2)] by simp
qed

lemma length_encode_event [simp]: "length (encode_event ev) = EVENT_SIZE"
  by (simp add: encode_event_def EVENT_SIZE_def encode_u16_def)

lemma of_char_byte_of_word: "(of_char (byte_of v k) :: 'a :: len word) = ucast (take_bit 8 (drop_bit (8 * k) v))"
proof -
  let ?v = "take_bit 8 (drop_bit (8 * k) v)"
  have "unat ?v < 256" using take_bit_nat_less_exp [of 8 "unat (drop_bit (8 * k) v)"] by (simp add: unsigned_take_bit_eq)
  then have "(of_char (char_of (unat ?v)) :: nat) = unat ?v" by simp
  then have "(of_char (char_of (unat ?v)) :: 'a word) = of_nat (unat ?v)" by (metis of_nat_of_char)
  then show ?thesis by (simp add: byte_of_def)
qed

lemma le16_bytes: "le16 (byte_of (ucast w) 0) (byte_of (ucast w) 1) = (w :: u16)"
  unfolding le16_def of_char_byte_of_word
proof (rule bit_word_eqI)
  fix n assume "n < LENGTH(16)"
  then consider "n < 8" | "8 \<le> n" "n < 16" by fastforce
  then show "bit (ucast (take_bit 8 (drop_bit (8 * 0) (ucast w :: u32))) OR
      push_bit 8 (ucast (take_bit 8 (drop_bit (8 * 1) (ucast w :: u32))) :: u16)) n = bit w n"
    by cases (auto simp: bit_simps)
qed

lemma join_u64: "ucast (ucast t :: u32) OR push_bit 32 (ucast (ucast (drop_bit 32 t) :: u32)) = (t :: u64)"
proof (rule bit_word_eqI)
  fix n assume "n < LENGTH(64)"
  then consider "n < 32" | "32 \<le> n" "n < 64" by fastforce
  then show "bit (ucast (ucast t :: u32) OR push_bit 32 (ucast (ucast (drop_bit 32 t) :: u32) :: u64)) n = bit t n"
    by cases (auto simp: bit_simps)
qed

lemma of_char_code: "n < 256 \<Longrightarrow> (of_char (char_of n) :: u8) = of_nat n"
proof -
  assume "n < 256"
  then have "(of_char (char_of n) :: nat) = n" by simp
  then show ?thesis by (metis of_nat_of_char)
qed

lemma severity_code_less: "severity_code s < 256"
  by (cases s) simp_all

lemmas codes_less = severity_code_less order.strict_trans2 [OF threat_code_less, of 256, simplified]

text \<open>Both programs read back every field of an event as it was written.\<close>

lemma raw_encode_event:
  "raw_timestamp (encode_event ev) = ev_timestamp ev" "raw_src_ip (encode_event ev) = ev_src_ip ev"
  "raw_dest_ip (encode_event ev) = ev_dest_ip ev" "raw_src_port (encode_event ev) = ev_src_port ev"
  "raw_dest_port (encode_event ev) = ev_dest_port ev"
  "raw_threat_type (encode_event ev) = of_nat (threat_code (ev_threat_type ev))"
  "raw_severity (encode_event ev) = of_nat (severity_code (ev_severity ev))"
  by (simp_all add: encode_event_def raw_timestamp_def raw_src_ip_def raw_dest_ip_def raw_src_port_def raw_dest_port_def
      raw_threat_type_def raw_severity_def encode_u32_def encode_u16_def le32_bytes [unfolded One_nat_def]
      le16_bytes [unfolded One_nat_def] join_u64 of_char_code codes_less)

lemma raw_encode_text:
  assumes "length (ev_payload_preview ev) < 128" "NUL \<notin> set (ev_payload_preview ev)"
    and "length (ev_details ev) < 256" "NUL \<notin> set (ev_details ev)"
  shows "raw_payload_preview (encode_event ev) = ev_payload_preview ev" "raw_details (encode_event ev) = ev_details ev"
  using assms
  by (simp_all add: encode_event_def raw_payload_preview_def raw_details_def encode_u32_def encode_u16_def cstr_char_array)

subsection \<open>Framing\<close>

locale message_framing = envelope ok seal unseal overhead
  for ok :: "'e \<Rightarrow> 'e \<Rightarrow> bool" and seal unseal :: "'e \<Rightarrow> byte list \<Rightarrow> byte list option" and overhead :: nat +
  fixes hdr_ok :: "'h \<Rightarrow> bool"
    and enc :: "'h \<Rightarrow> byte list"
    and dec :: "byte list \<Rightarrow> 'h"
    and body_len :: "'h \<Rightarrow> nat"
    and hdr_size :: nat
  assumes enc_length: "hdr_ok h \<Longrightarrow> length (enc h) = hdr_size"
    and dec_enc: "hdr_ok h \<Longrightarrow> dec (enc h @ rest) = h"
begin

text \<open>A header, then as many bytes as it announces: the reader has the message and stands at the next one.\<close>

lemma open_frame:
  assumes "ok e d" "seal e p = Some c" "hdr_ok h" "body_len h = length c"
  shows "dec (take hdr_size (enc h @ c @ rest)) = h"
    and "unseal d (take (body_len h) (drop hdr_size (enc h @ c @ rest))) = Some p"
    and "drop (hdr_size + body_len h) (enc h @ c @ rest) = rest"
  using assms dec_enc [of h "[]"] by (simp_all add: enc_length unseal_seal)

lemma frame_inject:
  assumes "hdr_ok h" "hdr_ok h'" "body_len h = length c" "body_len h' = length c'" "enc h @ c @ rest = enc h' @ c' @ rest'"
  shows "h = h' \<and> c = c' \<and> rest = rest'"
proof -
  have "h = h'" using dec_enc [OF assms(1), of "c @ rest"] dec_enc [OF assms(2), of "c' @ rest'"] assms(5) by simp
  then show ?thesis using assms by auto
qed

end

definition hdr_ok :: "soc_msg_hdr \<Rightarrow> bool" where
  "hdr_ok h \<longleftrightarrow> length (hdr_agent_uuid h) = 16"

definition body_len :: "soc_msg_hdr \<Rightarrow> nat" where
  "body_len h = unat (ntohl (hdr_payload_len h))"

interpretation framing: message_framing evp_ok aes_encrypt aes_decrypt AES_BLOCK_SIZE hdr_ok encode_hdr parse_hdr body_len HDR_SIZE
  by unfold_locales (simp_all add: hdr_ok_def parse_encode_hdr)

lemma make_hdr_simps [simp]:
  "hdr_magic (make_hdr uuid ty n) = htonl MAGIC_HEADER" "hdr_agent_uuid (make_hdr uuid ty n) = uuid"
  "hdr_msg_type (make_hdr uuid ty n) = ty" "hdr_payload_len (make_hdr uuid ty n) = htonl (of_nat n)"
  "hdr_ok (make_hdr uuid ty n) \<longleftrightarrow> length uuid = 16"
  by (simp_all add: make_hdr_def hdr_ok_def)

lemma body_len_make_hdr [simp]: "n < 2 ^ 32 \<Longrightarrow> body_len (make_hdr uuid ty n) = n"
  by (simp add: body_len_def unat_of_nat take_bit_nat_eq_self)

end
