(* ===== verification/Agent_Dedup.thy ===== *)
theory Agent_Dedup
  imports Soc_Protocol
begin

section \<open>The agent's duplicate filter (fw\_agent.c)\<close>

text \<open>
  A ring of 32 entries remembers which alerts were passed on, by source and threat type. \<^verbatim>\<open>is_duplicate_alert\<close>
  answers whether one of them was less than ten seconds ago, by the clock of the events, and otherwise
  overwrites the oldest entry. The ring is a C global and starts as zeros.
\<close>

subsection \<open>Model\<close>

definition DEDUPLICATION_CACHE_SIZE :: nat where "DEDUPLICATION_CACHE_SIZE = 32"

definition DEDUPLICATION_WINDOW_SECS :: u64 where "DEDUPLICATION_WINDOW_SECS = 10"

record dedup_entry =
  de_src_ip :: u32
  de_threat_type :: u8
  de_last_sent_time :: u64

record dedup =
  dedup_cache :: "dedup_entry list"
  dedup_cache_next :: nat

definition dedup_boot :: dedup where
  "dedup_boot = \<lparr>dedup_cache = replicate DEDUPLICATION_CACHE_SIZE \<lparr>de_src_ip = 0, de_threat_type = 0, de_last_sent_time = 0\<rparr>,
     dedup_cache_next = 0\<rparr>"

definition dedup_hit :: "raw_event \<Rightarrow> dedup_entry \<Rightarrow> bool" where
  "dedup_hit event e \<longleftrightarrow>
     de_src_ip e = raw_src_ip event \<and> de_threat_type e = raw_threat_type event \<and>
     raw_timestamp event \<ge> de_last_sent_time e \<and>
     raw_timestamp event - de_last_sent_time e < DEDUPLICATION_WINDOW_SECS"

fun dedup_scan :: "raw_event \<Rightarrow> dedup_entry list \<Rightarrow> bool" where
  "dedup_scan event [] = False"
| "dedup_scan event (e # es) = (if dedup_hit event e then True else dedup_scan event es)"

definition dedup_record :: "raw_event \<Rightarrow> dedup_entry" where
  "dedup_record event =
     \<lparr>de_src_ip = raw_src_ip event, de_threat_type = raw_threat_type event, de_last_sent_time = raw_timestamp event\<rparr>"

definition is_duplicate_alert :: "raw_event \<Rightarrow> dedup \<Rightarrow> dedup \<times> bool" where
  "is_duplicate_alert event d =
     (if dedup_scan event (dedup_cache d) then (d, True)
      else (\<lparr>dedup_cache = (dedup_cache d)[dedup_cache_next d := dedup_record event],
             dedup_cache_next = (dedup_cache_next d + 1) mod DEDUPLICATION_CACHE_SIZE\<rparr>, False))"

text \<open>The answers for a sequence of alerts.\<close>

fun dedup_run :: "raw_event list \<Rightarrow> dedup \<Rightarrow> dedup \<times> bool list" where
  "dedup_run [] d = (d, [])"
| "dedup_run (e # es) d =
     (case is_duplicate_alert e d of (d, b) \<Rightarrow> case dedup_run es d of (d, bs) \<Rightarrow> (d, b # bs))"

subsection \<open>Lemmas\<close>

definition dedup_ok :: "dedup \<Rightarrow> bool" where
  "dedup_ok d \<longleftrightarrow> length (dedup_cache d) = DEDUPLICATION_CACHE_SIZE \<and> dedup_cache_next d < DEDUPLICATION_CACHE_SIZE"

lemma dedup_boot_ok [pool_inv]: "dedup_ok dedup_boot"
  by (simp add: dedup_ok_def dedup_boot_def DEDUPLICATION_CACHE_SIZE_def)

lemma dedup_scan_iff: "dedup_scan event es \<longleftrightarrow> (\<exists>e\<in>set es. dedup_hit event e)"
  by (induction es) auto

lemma is_duplicate_ok [pool_inv]: "dedup_ok d \<Longrightarrow> dedup_ok (fst (is_duplicate_alert e d))"
  by (simp add: dedup_ok_def is_duplicate_alert_def DEDUPLICATION_CACHE_SIZE_def)

text \<open>Fewer than 32 recorded alerts do not reach an entry again: \<^term>\<open>k\<close> is how many came after it.\<close>

definition remembers :: "dedup_entry \<Rightarrow> nat \<Rightarrow> dedup \<Rightarrow> bool" where
  "remembers x k d \<longleftrightarrow> dedup_ok d \<and>
     (\<exists>n < DEDUPLICATION_CACHE_SIZE. dedup_cache d ! n = x \<and> dedup_cache_next d = (n + 1 + k) mod DEDUPLICATION_CACHE_SIZE)"

lemma remembers_new: "dedup_ok d \<Longrightarrow> is_duplicate_alert e d = (d', False) \<Longrightarrow> remembers (dedup_record e) 0 d'"
  by (auto simp: remembers_def is_duplicate_alert_def dedup_ok_def DEDUPLICATION_CACHE_SIZE_def split: if_splits)

lemma remembers_step:
  assumes "remembers x k d" and "k < 31"
  shows "remembers x (if snd (is_duplicate_alert e d) then k else Suc k) (fst (is_duplicate_alert e d))"
proof (cases "dedup_scan e (dedup_cache d)")
  case False
  obtain n where n: "n < 32" "dedup_cache d ! n = x" "dedup_cache_next d = (n + 1 + k) mod 32" and ok: "dedup_ok d"
    using assms(1) by (auto simp: remembers_def DEDUPLICATION_CACHE_SIZE_def)
  have "(n + 1 + k) mod 32 = (if n + 1 + k < 32 then n + 1 + k else n + 1 + k - 32)"
    using n(1) assms(2) by (simp add: mod_if)
  then have "(n + 1 + k) mod 32 \<noteq> n" using assms(2) by auto
  moreover have "((n + 1 + k) mod 32 + 1) mod 32 = (n + 1 + Suc k) mod 32" by (simp add: mod_simps)
  ultimately have "dedup_cache (fst (is_duplicate_alert e d)) ! n = x"
    "dedup_cache_next (fst (is_duplicate_alert e d)) = (n + 1 + Suc k) mod 32"
    using n False by (simp_all add: is_duplicate_alert_def DEDUPLICATION_CACHE_SIZE_def)
  then show ?thesis
    using n(1) is_duplicate_ok [OF ok, of e] False
    by (auto simp: remembers_def DEDUPLICATION_CACHE_SIZE_def is_duplicate_alert_def)
qed (use assms(1) in \<open>simp add: is_duplicate_alert_def\<close>)

lemma remembers_run:
  "remembers x k d \<Longrightarrow> dedup_run es d = (d', bs) \<Longrightarrow> k + length (filter Not bs) \<le> 31 \<Longrightarrow>
    remembers x (k + length (filter Not bs)) d'"
proof (induction es arbitrary: k d bs)
  case (Cons e es)
  obtain d1 b where 1: "is_duplicate_alert e d = (d1, b)" by (cases "is_duplicate_alert e d")
  obtain bs' where 2: "dedup_run es d1 = (d', bs')" "bs = b # bs'"
    using Cons.prems(2) 1 by (auto split: prod.splits)
  show ?case
  proof (cases b)
    case True
    then have "d1 = d" using 1 by (auto simp: is_duplicate_alert_def split: if_splits)
    then show ?thesis using Cons.IH [OF Cons.prems(1)] 2 Cons.prems(3) True by simp
  next
    case False
    then have "remembers x (Suc k) d1" using remembers_step [OF Cons.prems(1), of e] 1 2 Cons.prems(3) by simp
    from Cons.IH [OF this 2(1)] show ?thesis using 2(2) Cons.prems(3) False by simp
  qed
qed simp

lemma remembers_hit:
  assumes "remembers x k d" and "dedup_hit e x"
  shows "snd (is_duplicate_alert e d)"
proof -
  obtain n where "n < length (dedup_cache d)" "dedup_cache d ! n = x"
    using assms(1) by (auto simp: remembers_def dedup_ok_def)
  then have "dedup_scan e (dedup_cache d)" using assms(2) by (auto simp: dedup_scan_iff)
  then show ?thesis by (simp add: is_duplicate_alert_def)
qed

text \<open>Everything in the ring was recorded, or is a zero of the start.\<close>

lemma is_duplicate_cache:
  "set (dedup_cache (fst (is_duplicate_alert e d))) \<subseteq> insert (dedup_record e) (set (dedup_cache d))"
  using set_update_subset_insert [of "dedup_cache d" "dedup_cache_next d" "dedup_record e"]
  by (auto simp: is_duplicate_alert_def)

lemma dedup_run_cache: "set (dedup_cache (fst (dedup_run es d))) \<subseteq> dedup_record ` set es \<union> set (dedup_cache d)"
proof (induction es arbitrary: d)
  case (Cons e es)
  obtain d1 b where 1: "is_duplicate_alert e d = (d1, b)" by (cases "is_duplicate_alert e d")
  from is_duplicate_cache [of e d] 1 Cons.IH [of d1] show ?case by (auto split: prod.split)
qed simp

subsection \<open>Properties\<close>

text \<open>C27: An alert goes out once per window: after an alert has passed the filter, every alert of the same source
  and threat type whose time is less than ten seconds later is a duplicate, as long as at most 31
  other alerts have passed the filter in between.\<close>

theorem dedup_suppresses_repeats:
  assumes "dedup_ok d" and "is_duplicate_alert e d = (d1, False)" and "dedup_run es d1 = (d2, bs)"
    and "length (filter Not bs) \<le> 31"
    and "raw_src_ip e' = raw_src_ip e" "raw_threat_type e' = raw_threat_type e"
    and "raw_timestamp e \<le> raw_timestamp e'" "raw_timestamp e' - raw_timestamp e < 10"
  shows "snd (is_duplicate_alert e' d2)"
proof -
  have "remembers (dedup_record e) (length (filter Not bs)) d2"
    using remembers_run [OF remembers_new [OF assms(1,2)] assms(3)] assms(4) by simp
  moreover have "dedup_hit e' (dedup_record e)"
    using assms(5-8) by (simp add: dedup_hit_def dedup_record_def DEDUPLICATION_WINDOW_SECS_def)
  ultimately show ?thesis by (rule remembers_hit)
qed

text \<open>No alert is held back without cause: if the agent has seen, since it started, no earlier alert of the same source and
  threat type within the ten seconds before it, the filter lets an alert pass (threat types are never 0).\<close>

theorem dedup_passes_new_alert:
  assumes "raw_threat_type e \<noteq> 0"
    and "list_all (\<lambda>x. raw_src_ip x \<noteq> raw_src_ip e \<or> raw_threat_type x \<noteq> raw_threat_type e \<or>
           raw_timestamp e < raw_timestamp x \<or> 10 \<le> raw_timestamp e - raw_timestamp x) es"
  shows "\<not> snd (is_duplicate_alert e (fst (dedup_run es dedup_boot)))"
proof -
  have "\<not> dedup_hit e (dedup_record x)" if "x \<in> set es" for x
  proof -
    have "raw_src_ip x \<noteq> raw_src_ip e \<or> raw_threat_type x \<noteq> raw_threat_type e \<or>
        raw_timestamp e < raw_timestamp x \<or> 10 \<le> raw_timestamp e - raw_timestamp x"
      using assms(2) that by (simp only: list_all_iff)
    then show ?thesis
      unfolding dedup_hit_def dedup_record_def DEDUPLICATION_WINDOW_SECS_def by (auto simp: not_le [symmetric])
  qed
  moreover have "\<not> dedup_hit e x" if "x \<in> set (dedup_cache dedup_boot)" for x
    using that assms(1) by (auto simp: dedup_boot_def dedup_hit_def)
  ultimately have "\<not> dedup_hit e x" if "x \<in> dedup_record ` set es \<union> set (dedup_cache dedup_boot)" for x
    using that by blast
  then show ?thesis
    using dedup_run_cache [of es dedup_boot] by (auto simp: is_duplicate_alert_def dedup_scan_iff)
qed

text \<open>An alert of 203.0.113.7 for witnesses.\<close>

definition sample_alert :: "u64 \<Rightarrow> raw_event" where
  "sample_alert t = encode_event \<lparr>ev_timestamp = t, ev_src_ip = inet_addr4 203 0 113 7, ev_dest_ip = 0, ev_src_port = 0,
     ev_dest_port = 0, ev_threat_type = THREAT_SQLI, ev_severity = SEVERITY_CRITICAL, ev_payload_preview = [], ev_details = []\<rparr>"

lemma sample_alert_fields [simp]:
  "raw_timestamp (sample_alert t) = t" "raw_src_ip (sample_alert t) = inet_addr4 203 0 113 7"
  "raw_threat_type (sample_alert t) = 6" "raw_severity (sample_alert t) = 2" "length (sample_alert t) = EVENT_SIZE"
  by (simp_all add: sample_alert_def raw_encode_event)

theorem dedup_passes_new_alert_witness:
  "\<not> snd (is_duplicate_alert (sample_alert 100) (fst (dedup_run [sample_alert 50] dedup_boot)))"
  by (rule dedup_passes_new_alert) simp_all

theorem dedup_suppresses_repeats_witness:
  "snd (is_duplicate_alert (sample_alert 105) (fst (is_duplicate_alert (sample_alert 100) dedup_boot)))"
proof -
  have "is_duplicate_alert (sample_alert 100) dedup_boot = (fst (is_duplicate_alert (sample_alert 100) dedup_boot), False)"
    by (simp add: is_duplicate_alert_def dedup_scan_iff dedup_boot_def dedup_hit_def DEDUPLICATION_CACHE_SIZE_def)
  from dedup_suppresses_repeats [OF dedup_boot_ok this, of "[]" _ "[]" "sample_alert 105"] show ?thesis by simp
qed

end
