(* ===== verification/Posix_Io.thy ===== *)
theory Posix_Io
  imports Fw_Prelude
begin

section \<open>Sockets\<close>

text \<open>
  What \<^verbatim>\<open>read\<close> and \<^verbatim>\<open>write\<close> do on the sockets of the agent and the server. The results of successive
  calls are supplied from outside: a list of \<open>read_result\<close>s, where the data of a result that is longer
  than the buffer of the caller stays for the next call, and a list of \<open>write_result\<close>s. When the list of a
  reader runs out nothing more arrives and \<^verbatim>\<open>read\<close> reports \<^verbatim>\<open>EAGAIN\<close> (both programs set a receive timeout or
  use non-blocking sockets); when the list of a writer runs out the socket takes all that is offered.
\<close>

datatype read_result = GOT "byte list" | AGAIN | INTR | FAILED | CLOSED

datatype write_result = WROTE nat | WRITE_RETRY | WRITE_FAILED

fun sock_read :: "nat \<Rightarrow> read_result list \<Rightarrow> read_result \<times> read_result list" where
  "sock_read n [] = (AGAIN, [])"
| "sock_read n (GOT bs # rs) =
     (if bs = [] then (CLOSED, rs)
      else if length bs \<le> n then (GOT bs, rs)
      else (GOT (take n bs), GOT (drop n bs) # rs))"
| "sock_read n (r # rs) = (r, rs)"

text \<open>The bytes still to come, and streams that deliver them without an error.\<close>

primrec result_bytes :: "read_result \<Rightarrow> byte list" where
  "result_bytes (GOT bs) = bs"
| "result_bytes AGAIN = []"
| "result_bytes INTR = []"
| "result_bytes FAILED = []"
| "result_bytes CLOSED = []"

definition pending :: "read_result list \<Rightarrow> byte list" where
  "pending rs = concat (map result_bytes rs)"

definition flowing :: "read_result list \<Rightarrow> bool" where
  "flowing rs \<longleftrightarrow> list_all (\<lambda>r. case r of GOT bs \<Rightarrow> bs \<noteq> [] | INTR \<Rightarrow> True | _ \<Rightarrow> False) rs"

lemma pending_simps [simp]: "pending [] = []" "pending (r # rs) = result_bytes r @ pending rs"
  by (simp_all add: pending_def)

lemma flowing_simps [simp]:
  "flowing []" "flowing (GOT bs # rs) \<longleftrightarrow> bs \<noteq> [] \<and> flowing rs" "flowing (INTR # rs) \<longleftrightarrow> flowing rs"
  "\<not> flowing (AGAIN # rs)" "\<not> flowing (FAILED # rs)" "\<not> flowing (CLOSED # rs)"
  by (simp_all add: flowing_def)

lemma sock_read_GOT: "sock_read n rs = (GOT bs, rs') \<Longrightarrow> 0 < n \<Longrightarrow>
    bs \<noteq> [] \<and> length bs \<le> n \<and> pending rs = bs @ pending rs' \<and> (flowing rs \<longrightarrow> flowing rs')"
  by (cases "(n, rs)" rule: sock_read.cases) (auto split: if_splits)

lemma sock_read_INTR: "sock_read n rs = (INTR, rs') \<Longrightarrow>
    length rs' < length rs \<and> pending rs = pending rs' \<and> (flowing rs \<longrightarrow> flowing rs')"
  by (cases "(n, rs)" rule: sock_read.cases) (auto split: if_splits)

lemma sock_read_flowing: "flowing rs \<Longrightarrow> pending rs \<noteq> [] \<Longrightarrow> (\<exists>bs. fst (sock_read n rs) = GOT bs) \<or> fst (sock_read n rs) = INTR"
  by (cases "(n, rs)" rule: sock_read.cases) auto

end
