(* ===== verification/Fw_Events.thy ===== *)
theory Fw_Events
  imports Fw_Nfq
begin

section \<open>The events of a packet (fw\_nfq.c, tcp\_monitor.c, http\_inspect.c)\<close>

text \<open>
  What one packet can make the daemon send to the agent, over all engines: how many events, of which source, whether their texts
  fit the arrays of \<^verbatim>\<open>struct fw_event\<close>, and what the verdict is then. \<open>reports\<close> is the relation between the event channel before
  and after a check; it composes along the checks of \<^verbatim>\<open>fw_nfq_callback\<close>.
\<close>

subsection \<open>Events that fit\<close>

text \<open>The two texts end with their NUL inside \<^verbatim>\<open>payload_preview[128]\<close> and \<^verbatim>\<open>details[256]\<close>.\<close>

definition event_fits :: "fw_event \<Rightarrow> bool" where
  "event_fits ev \<longleftrightarrow> length (ev_payload_preview ev) < 128 \<and> length (ev_details ev) < 256"

definition event_of :: "u32 \<Rightarrow> fw_event \<Rightarrow> bool" where
  "event_of src ev \<longleftrightarrow> event_fits ev \<and> ev_src_ip ev = src"

lemma ip_event_of: "event_of (ip_saddr iph) (ip_event secs iph th sev p d)"
  by (simp add: event_of_def event_fits_def ip_event_def length_snprintf_buf)

lemma tcp_event_of: "event_of (ip_saddr iph) (tcp_event secs iph tcph th sev p d)"
  by (simp add: event_of_def event_fits_def tcp_event_def length_snprintf_buf)

lemma http_event_of: "alert_ok a \<Longrightarrow> event_of (ip_saddr iph) (http_event secs iph tcph a)"
  by (simp add: event_of_def event_fits_def http_event_def alert_ok_def)

text \<open>The events of an engine: at most one, of the source, and then the packet is dropped.\<close>

definition one_alarm :: "u32 \<Rightarrow> fw_event list \<Rightarrow> bool \<Rightarrow> bool" where
  "one_alarm src evs hit \<longleftrightarrow> evs = [] \<or> (\<exists>ev. evs = [ev] \<and> event_of src ev \<and> hit)"

lemma syn_check_alarm:
  "one_alarm (ip_saddr iph) (fst (snd (syn_check hz now secs iph tcph conn))) (cs_is_blocked (fst (syn_check hz now secs iph tcph conn)))"
  by (simp add: syn_check_def one_alarm_def Let_def syn_flood_event_def tcp_event_of)

lemma slowloris_alarm:
  "one_alarm (ip_saddr iph) (fst (snd (slowloris_check hz now secs iph tcph conns i conn d)))
     (snd (snd (slowloris_check hz now secs iph tcph conns i conn d)))"
  by (simp add: slowloris_check_def one_alarm_def Let_def tcp_event_of)

lemma track_alarm:
  "one_alarm (ip_saddr iph) (fst (snd (track_conn hz now secs iph tcph conns i conn))) (snd (snd (track_conn hz now secs iph tcph conns i conn)))"
proof -
  let ?conn = "count_payload iph tcph (conn\<lparr>cs_last_seen := now\<rparr>)"
  obtain c evs b where s: "syn_check hz now secs iph tcph ?conn = (c, evs, b)" by (metis prod_cases3)
  then have syn: "one_alarm (ip_saddr iph) evs (cs_is_blocked c)" using syn_check_alarm [of iph hz now secs tcph ?conn] by simp
  show ?thesis
  proof (cases "cs_is_blocked c")
    case True
    then show ?thesis using s syn by (auto simp: track_conn_def Let_def one_alarm_def)
  next
    case False
    then have "evs = []" using syn by (simp add: one_alarm_def)
    then show ?thesis
      using False s slowloris_alarm [of iph hz now secs tcph conns i c b] by (simp add: track_conn_def Let_def case_prod_beta)
  qed
qed

lemma monitor_alarm:
  "one_alarm (ip_saddr iph) (fst (snd (monitor_tcp_stats hz now secs pool iph tcph))) (snd (snd (monitor_tcp_stats hz now secs pool iph tcph)))"
proof -
  have "one_alarm (ip_saddr iph) (fst (snd (let (conn, evs, drop_packet) = track_conn hz now secs iph tcph conns i conn
      in (Some (conns[i := conn]), evs, drop_packet)))) (snd (snd (let (conn, evs, drop_packet) = track_conn hz now secs iph tcph conns i conn
      in (Some (conns[i := conn]), evs, drop_packet))))" for conns i conn
    using track_alarm [of iph hz now secs tcph conns i conn] by (simp add: Let_def case_prod_beta)
  then show ?thesis by (simp add: monitor_tcp_stats_def Let_def one_alarm_def [of _ "[]"] split: option.split)
qed

lemma inspect_alarm:
  "one_alarm (ip_saddr (ip_hdr (he_oob env) skb)) (fst (snd (snd (inspect_http_payload env ys pool rep skb iph tcph))))
     (snd (snd (snd (inspect_http_payload env ys pool rep skb iph tcph))))"
  by (auto simp: inspect_http_payload_def Let_def one_alarm_def http_event_of dest: http_scan_ok split: option.split)

subsection \<open>The event channel over the checks\<close>

text \<open>
  Between two states of a packet, with the verdicts so far: at most \<^term>\<open>k\<close> calls of \<^verbatim>\<open>send\<close>, the delivered events are among
  them and all of the source, a call means that the packet is to be dropped, and a drop stays.
\<close>

definition reports :: "nat \<Rightarrow> u32 \<Rightarrow> fw_state \<times> verdict \<Rightarrow> fw_state \<times> verdict \<Rightarrow> bool" where
  "reports k src sv sv' \<longleftrightarrow>
     (\<exists>es n. fs_delivered (fst sv') = fs_delivered (fst sv) @ es \<and> list_all (event_of src) es \<and>
       fs_sends (fst sv') = fs_sends (fst sv) + n \<and> length es \<le> n \<and> n \<le> k \<and> (0 < n \<longrightarrow> snd sv' = NF_DROP)) \<and>
     (snd sv = NF_DROP \<longrightarrow> snd sv' = NF_DROP)"

lemma reports_same:
  "fs_delivered st' = fs_delivered st \<Longrightarrow> fs_sends st' = fs_sends st \<Longrightarrow> (v = NF_DROP \<Longrightarrow> v' = NF_DROP) \<Longrightarrow> reports k src (st, v) (st', v')"
  by (simp add: reports_def)

lemma reports_refl: "reports k src sv sv"
  using reports_same [of "fst sv" "fst sv" "snd sv" "snd sv"] by simp

lemma reports_trans:
  assumes "reports j src a b" "reports k src b c"
  shows "reports (j + k) src a c"
proof -
  from assms(1) obtain es n where b: "fs_delivered (fst b) = fs_delivered (fst a) @ es" "list_all (event_of src) es"
      "fs_sends (fst b) = fs_sends (fst a) + n" "length es \<le> n" "n \<le> j" "0 < n \<longrightarrow> snd b = NF_DROP" "snd a = NF_DROP \<longrightarrow> snd b = NF_DROP"
    by (auto simp: reports_def)
  from assms(2) obtain es' n' where c: "fs_delivered (fst c) = fs_delivered (fst b) @ es'" "list_all (event_of src) es'"
      "fs_sends (fst c) = fs_sends (fst b) + n'" "length es' \<le> n'" "n' \<le> k" "0 < n' \<longrightarrow> snd c = NF_DROP" "snd b = NF_DROP \<longrightarrow> snd c = NF_DROP"
    by (auto simp: reports_def)
  show ?thesis
    unfolding reports_def using b c by (intro conjI exI [of _ "es @ es'"] exI [of _ "n + n'"]) auto
qed

lemma send_reports: "event_of src ev \<Longrightarrow> reports 1 src (st, v) (send_fw_event env ev st, NF_DROP)"
  by (auto simp: send_fw_event_def intro: reports_same split: send_result.split) (simp_all add: reports_def)

lemma send_all_reports:
  assumes "one_alarm src evs hit"
  shows "reports 1 src (st, v) (send_all env evs st, if hit then NF_DROP else v)"
proof (cases evs)
  case Nil
  then show ?thesis by (simp add: send_all_def reports_same)
next
  case (Cons ev rest)
  with assms have "evs = [ev]" "event_of src ev" hit by (simp_all add: one_alarm_def)
  then show ?thesis using send_reports [of src ev] by (simp add: send_all_def)
qed

lemma reports_pool [simp]:
  "reports k src (st\<lparr>fs_pool := p\<rparr>, v) sv' = reports k src (st, v) sv'"
  "reports k src (st\<lparr>fs_pool := p, fs_rep := r\<rparr>, v) sv' = reports k src (st, v) sv'"
  by (simp_all add: reports_def)

lemma run_http_reports:
  assumes "ip_saddr (ip_hdr (ne_oob env) skb) = src"
  shows "reports 1 src sv (run_http env skb iph tcph sv)"
proof -
  obtain pool rep evs hit where i: "inspect_http_payload (http_env_of env) (fs_yara (fst sv)) (fs_pool (fst sv)) (fs_rep (fst sv)) skb iph tcph =
      (pool, rep, evs, hit)" by (metis prod_cases4)
  have "one_alarm src evs hit"
    using inspect_alarm [of "http_env_of env" skb "fs_yara (fst sv)" "fs_pool (fst sv)" "fs_rep (fst sv)" iph tcph] i assms
    by (simp add: http_env_of_def)
  from send_all_reports [OF this, of "(fst sv)\<lparr>fs_pool := pool, fs_rep := rep\<rparr>" "snd sv" env]
  show ?thesis using i by (simp add: run_http_def Let_def)
qed

lemma check_tcp_reports:
  assumes "iph = ip_hdr (ne_oob env) skb"
  shows "reports 1 (ip_saddr iph) sv (check_tcp env skb iph sv)"
proof (cases "ip_protocol iph = IPPROTO_TCP \<and> length (skb_data skb) \<ge> ip_ihl iph * 4 + 20")
  case True
  let ?tcph = "tcp_hdr (ne_oob env) skb"
  obtain pool evs hit where m: "monitor_tcp_stats HZ (ne_jiffies env) (ne_secs env) (fs_pool (fst sv)) iph ?tcph = (pool, evs, hit)"
    by (metis prod_cases3)
  have alarm: "one_alarm (ip_saddr iph) evs hit"
    using monitor_alarm [of iph HZ "ne_jiffies env" "ne_secs env" "fs_pool (fst sv)" ?tcph] m by simp
  show ?thesis
  proof (cases hit)
    case True
    with \<open>ip_protocol iph = IPPROTO_TCP \<and> _\<close> m send_all_reports [OF alarm, of "(fst sv)\<lparr>fs_pool := pool\<rparr>" "snd sv" env]
    show ?thesis by (simp add: check_tcp_def Let_def)
  next
    case False
    then have "evs = []" using alarm by (simp add: one_alarm_def)
    with \<open>ip_protocol iph = IPPROTO_TCP \<and> _\<close> m False run_http_reports [of env skb "ip_saddr iph" "((fst sv)\<lparr>fs_pool := pool\<rparr>, snd sv)" iph ?tcph]
    show ?thesis using assms reports_same [of "(fst sv)\<lparr>fs_pool := pool\<rparr>" "fst sv" "snd sv" "snd sv"]
      by (simp add: check_tcp_def Let_def send_all_def)
  qed
next
  case False
  then show ?thesis by (auto simp: check_tcp_def reports_refl)
qed

lemma checks_report:
  assumes "iph = ip_hdr (ne_oob env) skb"
  shows "reports 3 (ip_saddr iph) sv (check_tcp env skb iph (check_blocklist env iph (check_reputation env iph sv)))"
proof -
  let ?r = "check_reputation env iph sv"
  let ?b = "check_blocklist env iph ?r"
  have "reports 1 (ip_saddr iph) sv ?r"
    using send_reports [OF ip_event_of, of iph "fst sv" "snd sv"]
    by (simp add: check_reputation_def Let_def reputation_event_def reports_refl)
  moreover have "reports 1 (ip_saddr iph) ?r ?b"
    using send_reports [OF ip_event_of, of iph "fst ?r" "snd ?r"] by (simp add: check_blocklist_def blocklist_event_def reports_refl)
  moreover have "reports 1 (ip_saddr iph) ?b (check_tcp env skb iph ?b)" by (rule check_tcp_reports [OF assms])
  ultimately have "reports (1 + 1 + 1) (ip_saddr iph) sv (check_tcp env skb iph ?b)" by (intro reports_trans)
  then show ?thesis by (simp add: numeral_3_eq_3)
qed

text \<open>One packet: the new events, how many, and the verdict then.\<close>

lemma callback_reports:
  obtains es n where "fs_delivered (fst (fw_nfq_callback env payload st)) = fs_delivered st @ es"
    "list_all (\<lambda>ev. event_fits ev \<and> packet_from (ev_src_ip ev) payload) es"
    "fs_sends (fst (fw_nfq_callback env payload st)) = fs_sends st + n" "length es \<le> n" "n \<le> 3"
    "0 < n \<Longrightarrow> packet_from src payload \<Longrightarrow> snd (fw_nfq_callback env payload st) =
      (if is_local_ip src \<and> g_block_local_ips (fs_bl st) = 0 then NF_ACCEPT else NF_DROP)"
proof (rule callback_cases [of env payload st])
  assume "fw_nfq_callback env payload st = (st, NF_ACCEPT)"
  then show thesis by (intro that [of "[]" 0]) simp_all
next
  fix data st'
  assume b: "is_bypassed_ip env st (ip_saddr (ip_hdr (ne_oob env) \<lparr>skb_data = data\<rparr>)) = (st', True)"
    and r: "fw_nfq_callback env payload st = (st', NF_ACCEPT)"
  show thesis using bypass_frame [OF b] r by (intro that [of "[]" 0]) simp_all
next
  fix data st'
  let ?skb = "\<lparr>skb_data = data\<rparr>" and ?iph = "ip_hdr (ne_oob env) \<lparr>skb_data = data\<rparr>"
  assume p: "payload = Some data" "20 \<le> length data" and b: "is_bypassed_ip env st (ip_saddr ?iph) = (st', False)"
    and r: "fw_nfq_callback env payload st = decide env data st'"
  note f = bypass_frame [OF b]
  let ?sv = "check_tcp env ?skb ?iph (check_blocklist env ?iph (check_reputation env ?iph (st', NF_ACCEPT)))"
  obtain es n where es: "fs_delivered (fst ?sv) = fs_delivered st' @ es" "list_all (event_of (ip_saddr ?iph)) es"
      "fs_sends (fst ?sv) = fs_sends st' + n" "length es \<le> n" "n \<le> 3" "0 < n \<longrightarrow> snd ?sv = NF_DROP"
    using checks_report [of ?iph env ?skb "(st', NF_ACCEPT)"] by (auto simp: reports_def)
  have src: "packet_from (ip_saddr ?iph) payload"
    using p by (simp add: packet_from_def ip_hdr_def skb_byte_def Let_def)
  have d: "fst (decide env data st') = fst ?sv" by (simp add: decide_def Let_def)
  have out: "snd (decide env data st') = (if is_local_ip src \<and> g_block_local_ips (fs_bl st) = 0 then NF_ACCEPT else NF_DROP)"
    if "0 < n" "packet_from src payload"
  proof -
    have "ip_saddr ?iph = src" using that(2) p(1) by (simp add: packet_from_saddr)
    moreover have "snd ?sv = NF_DROP" using es(6) that(1) by simp
    moreover have "fs_bl (fst ?sv) = fs_bl st" using f by simp
    ultimately show ?thesis by (simp add: decide_def Let_def local_bypass_def)
  qed
  show thesis
  proof (rule that [of es n])
    show "list_all (\<lambda>ev. event_fits ev \<and> packet_from (ev_src_ip ev) payload) es"
      using es(2) src by (auto simp: list_all_iff event_of_def)
  qed (use es f d out in \<open>simp_all only: r\<close>)
qed

lemma callback_new_event:
  assumes "ev \<in> set (drop (length (fs_delivered st)) (fs_delivered (fst (fw_nfq_callback env payload st))))"
  shows "event_fits ev" "packet_from (ev_src_ip ev) payload"
    "snd (fw_nfq_callback env payload st) =
      (if is_local_ip (ev_src_ip ev) \<and> g_block_local_ips (fs_bl st) = 0 then NF_ACCEPT else NF_DROP)"
proof -
  obtain es n where "fs_delivered (fst (fw_nfq_callback env payload st)) = fs_delivered st @ es"
    "list_all (\<lambda>ev. event_fits ev \<and> packet_from (ev_src_ip ev) payload) es" "length es \<le> n"
    "0 < n \<Longrightarrow> packet_from (ev_src_ip ev) payload \<Longrightarrow> snd (fw_nfq_callback env payload st) =
      (if is_local_ip (ev_src_ip ev) \<and> g_block_local_ips (fs_bl st) = 0 then NF_ACCEPT else NF_DROP)"
    by (rule callback_reports [of env payload st "ev_src_ip ev"]) blast
  with assms show "event_fits ev" "packet_from (ev_src_ip ev) payload"
    "snd (fw_nfq_callback env payload st) =
      (if is_local_ip (ev_src_ip ev) \<and> g_block_local_ips (fs_bl st) = 0 then NF_ACCEPT else NF_DROP)"
    by (cases es; auto simp: list_all_iff)+
qed

text \<open>The delivered events are among those sent, and all of them fit.\<close>

definition channel_ok :: "fw_state \<Rightarrow> bool" where
  "channel_ok st \<longleftrightarrow> list_all event_fits (fs_delivered st) \<and> length (fs_delivered st) \<le> fs_sends st"

lemma callback_channel_ok [pool_inv]: "channel_ok st \<Longrightarrow> channel_ok (fst (fw_nfq_callback env payload st))"
  by (rule callback_reports [of env payload st 0]) (auto simp: channel_ok_def list_all_iff)

lemma start_channel_ok: "fw_nfq_start env pool_alloc = Some st \<Longrightarrow> channel_ok st"
  by (auto simp: fw_nfq_start_def channel_ok_def Let_def split: prod.splits if_splits)

lemma fw_step_channel_ok: "fw_step st st' \<Longrightarrow> channel_ok st \<Longrightarrow> channel_ok st'"
  by (erule fw_stepE)
    (simp_all add: callback_channel_ok, simp_all add: channel_ok_def agent_connect_def agent_load_def agent_disconnect_def Let_def case_prod_beta)

subsection \<open>What detected attacks do to a source\<close>

text \<open>The packet reaches the HTTP engine and is found to be an attack.\<close>

definition http_hit :: "nfq_env \<Rightarrow> byte list option \<Rightarrow> fw_state \<Rightarrow> bool" where
  "http_hit env payload st \<longleftrightarrow>
     (case payload of None \<Rightarrow> False
      | Some data \<Rightarrow>
          (let skb = \<lparr>skb_data = data\<rparr>; iph = ip_hdr (ne_oob env) skb; tcph = tcp_hdr (ne_oob env) skb;
               mon = monitor_tcp_stats HZ (ne_jiffies env) (ne_secs env) (fs_pool st) iph tcph
           in 20 \<le> length data \<and> \<not> snd (is_bypassed_ip env st (ip_saddr iph)) \<and> ip_protocol iph = IPPROTO_TCP \<and>
              ip_ihl iph * 4 + 20 \<le> length data \<and> \<not> snd (snd mon) \<and> ntohs (tcp_dest tcph) = 80 \<and>
              snd (snd (snd (inspect_http_payload (http_env_of env) (fs_yara st) (fst mon) (fs_rep st) skb iph tcph)))))"

text \<open>How many packets of the source are, along a run.\<close>

fun attacks :: "u32 \<Rightarrow> (nfq_env \<times> byte list option) list \<Rightarrow> fw_state \<Rightarrow> nat" where
  "attacks src [] st = 0"
| "attacks src ((env, payload) # pkts) st =
     (if packet_from src payload \<and> http_hit env payload st then 1 else 0) + attacks src pkts (fst (fw_nfq_callback env payload st))"

lemma inspect_rep_hit:
  assumes "rep_ok rep" "snd (snd (snd (inspect_http_payload env ys pool rep skb iph tcph)))"
  shows "get_ip_reputation (fst (snd (inspect_http_payload env ys pool rep skb iph tcph))) (ip_saddr (ip_hdr (he_oob env) skb)) \<le>
    max 0 (get_ip_reputation rep (ip_saddr (ip_hdr (he_oob env) skb)) - 10)"
proof -
  obtain a where a: "http_scan env ys (http_url_decode (raw_payload env skb iph tcph) 4096) = Some a" "\<not> tcp_payload_len iph tcph \<le> 0"
      "he_may_pull env (pull_len iph tcph)"
    using assms(2) by (auto simp: inspect_http_payload_def Let_def split: if_splits option.splits)
  have "10 \<le> ha_damage a" using http_scan_ok [OF a(1)] by (auto simp: alert_ok_def http_damage_def)
  then show ?thesis
    using a get_range [OF assms(1), of "ip_saddr (ip_hdr (he_oob env) skb)"]
    by (simp add: inspect_http_payload_def Let_def rep.get_upd [OF assms(1)] update_get_score [OF assms(1)])
qed

lemma callback_hit_costs:
  assumes "rep_ok (fs_rep st)" "packet_from src payload" "http_hit env payload st"
  shows "get_ip_reputation (fs_rep (fst (fw_nfq_callback env payload st))) src \<le> max 0 (get_ip_reputation (fs_rep st) src - 10)"
proof -
  obtain data where d: "payload = Some data" "20 \<le> length data" using assms(2) by (auto simp: packet_from_def split: option.splits)
  let ?skb = "\<lparr>skb_data = data\<rparr>" let ?iph = "ip_hdr (ne_oob env) ?skb" and ?tcph = "tcp_hdr (ne_oob env) ?skb"
  have src: "ip_saddr ?iph = src" using assms(2) d(1) by (simp add: packet_from_saddr)
  obtain pool evs hit where m: "monitor_tcp_stats HZ (ne_jiffies env) (ne_secs env) (fs_pool st) ?iph ?tcph = (pool, evs, hit)"
    by (metis prod_cases3)
  let ?i = "inspect_http_payload (http_env_of env) (fs_yara st) pool (fs_rep st) ?skb ?iph ?tcph"
  have h: "\<not> snd (is_bypassed_ip env st src)" "ip_protocol ?iph = IPPROTO_TCP" "ip_ihl ?iph * 4 + 20 \<le> length data" "\<not> hit"
      "ntohs (tcp_dest ?tcph) = 80" "snd (snd (snd ?i))"
    using assms(3) d m src by (simp_all add: http_hit_def Let_def)
  obtain st' where b: "is_bypassed_ip env st src = (st', False)" using h(1) by (metis (full_types) prod.collapse)
  note f = bypass_frame [OF b]
  have "fs_rep (fst (fw_nfq_callback env payload st)) = fs_rep (fst (decide env data st'))"
    using d b src by (simp add: fw_nfq_callback_def decide_def Let_def)
  also have "\<dots> = fst (snd ?i)"
    using h(2-5) f m by (simp add: decide_def Let_def check_tcp_def run_http_frame)
  finally have "fs_rep (fst (fw_nfq_callback env payload st)) = fst (snd ?i)" .
  then show ?thesis using inspect_rep_hit [OF assms(1) h(6)] src by (simp add: http_env_of_def)
qed

text \<open>A detected attack is dropped, unless its source is local and local blocking is off.\<close>

lemma http_hit_verdict:
  assumes "packet_from src payload" "http_hit env payload st"
  shows "snd (fw_nfq_callback env payload st) = (if is_local_ip src \<and> g_block_local_ips (fs_bl st) = 0 then NF_ACCEPT else NF_DROP)"
proof -
  obtain data where d: "payload = Some data" "20 \<le> length data" using assms(1) by (auto simp: packet_from_def split: option.splits)
  let ?skb = "\<lparr>skb_data = data\<rparr>" let ?iph = "ip_hdr (ne_oob env) ?skb" and ?tcph = "tcp_hdr (ne_oob env) ?skb"
  have src: "ip_saddr ?iph = src" using assms(1) d(1) by (simp add: packet_from_saddr)
  obtain pool evs hit where m: "monitor_tcp_stats HZ (ne_jiffies env) (ne_secs env) (fs_pool st) ?iph ?tcph = (pool, evs, hit)"
    by (metis prod_cases3)
  have h: "\<not> snd (is_bypassed_ip env st src)" "ip_protocol ?iph = IPPROTO_TCP" "ip_ihl ?iph * 4 + 20 \<le> length data" "\<not> hit"
      "ntohs (tcp_dest ?tcph) = 80" "snd (snd (snd (inspect_http_payload (http_env_of env) (fs_yara st) pool (fs_rep st) ?skb ?iph ?tcph)))"
    using assms(2) d m src by (simp_all add: http_hit_def Let_def)
  obtain st' where b: "is_bypassed_ip env st src = (st', False)" using h(1) by (metis (full_types) prod.collapse)
  note f = bypass_frame [OF b]
  let ?sv = "check_tcp env ?skb ?iph (check_blocklist env ?iph (check_reputation env ?iph (st', NF_ACCEPT)))"
  have "snd ?sv = NF_DROP" using h(2-6) f m by (simp add: check_tcp_def run_http_def Let_def case_prod_beta)
  moreover have "fs_bl (fst ?sv) = fs_bl st" using f by simp
  ultimately show ?thesis using d b src by (simp add: fw_nfq_callback_def local_bypass_def Let_def)
qed

lemma run_attacks_cost:
  assumes "fw_ok st"
  shows "get_ip_reputation (fs_rep (fst (nfq_run pkts st))) src \<le> max 0 (get_ip_reputation (fs_rep st) src - 10 * int (attacks src pkts st))"
  using assms
proof (induction pkts arbitrary: st)
  case Nil
  then show ?case using get_range [of "fs_rep st" src] by (simp add: fw_ok_def)
next
  case (Cons p pkts)
  obtain env payload where p: "p = (env, payload)" by (cases p)
  let ?st = "fst (fw_nfq_callback env payload st)"
  have "rep_ok (fs_rep st)" "fw_ok ?st" using Cons.prems callback_ok by (simp_all add: fw_ok_def)
  define d where "d = (if packet_from src payload \<and> http_hit env payload st then 1 else 0 :: nat)"
  have "get_ip_reputation (fs_rep ?st) src \<le> max 0 (get_ip_reputation (fs_rep st) src - 10 * int d)"
    using \<open>rep_ok (fs_rep st)\<close> callback_hit_costs [of st src payload env] callback_rep_le [of st env payload src] get_range [of "fs_rep st" src]
    by (simp add: d_def)
  moreover have "fst (nfq_run (p # pkts) st) = fst (nfq_run pkts ?st)" "attacks src (p # pkts) st = d + attacks src pkts ?st"
    by (simp_all add: p d_def split: prod.split)
  ultimately show ?case using Cons.IH [OF \<open>fw_ok ?st\<close>] by simp
qed

lemma nfq_run_low_reputation:
  assumes "fw_ok st" and "outside st src" and "get_ip_reputation (fs_rep st) src \<le> 20"
  shows "set (map snd (filter (\<lambda>(p, v). packet_from src (snd p)) (zip pkts (snd (nfq_run pkts st))))) \<subseteq> {NF_DROP}"
  using assms
proof (induction pkts arbitrary: st)
  case (Cons p pkts)
  obtain env payload where p: "p = (env, payload)" by (cases p)
  obtain st' v where c: "fw_nfq_callback env payload st = (st', v)" by (cases "fw_nfq_callback env payload st")
  have "rep_ok (fs_rep st)" using Cons.prems(1) by (simp add: fw_ok_def)
  from callback_rep_le [OF this, of env payload src] c Cons.prems(3)
  have low: "get_ip_reputation (fs_rep st') src \<le> 20" by simp
  have next_st: "fw_ok st'" "outside st' src"
    using callback_ok [OF Cons.prems(1), of env payload] callback_outside [OF Cons.prems(2), of env payload] c by simp_all
  have "v = NF_DROP" if "packet_from src payload"
    using refused_packet_dropped [OF that Cons.prems(2), of env] Cons.prems(3) c by simp
  moreover have "snd (nfq_run (p # pkts) st) = v # snd (nfq_run pkts st')" using p c by (simp split: prod.split)
  ultimately show ?case using Cons.IH [OF next_st low] p by (cases "packet_from src payload") simp_all
qed simp

lemma run_keeps:
  "fw_ok st \<Longrightarrow> fw_ok (fst (nfq_run pkts st))" "outside st src \<Longrightarrow> outside (fst (nfq_run pkts st)) src"
  by (induction pkts arbitrary: st) (auto simp: callback_ok callback_outside split: prod.split, metis callback_ok fst_conv, metis callback_outside fst_conv)

subsection \<open>Properties\<close>

text \<open>C18: The event channel is bounded: in every reachable state of the daemon each event it has delivered fits the arrays of
  \<^verbatim>\<open>struct fw_event\<close> with its terminating NUL, there are at most as many as calls of \<^verbatim>\<open>send\<close>, and one packet, whatever it
  carries and whatever lies behind it in memory, causes at most three calls, whose events name the source of that packet.\<close>

theorem fw_events_bounded:
  assumes "fw_reachable st"
  shows "list_all (\<lambda>ev. length (ev_payload_preview ev) < 128 \<and> length (ev_details ev) < 256) (fs_delivered st) \<and>
    length (fs_delivered st) \<le> fs_sends st \<and>
    (let st' = fst (fw_nfq_callback env payload st) in
     fs_sends st' \<le> fs_sends st + 3 \<and>
     list_all (\<lambda>ev. packet_from (ev_src_ip ev) payload) (drop (length (fs_delivered st)) (fs_delivered st')))"
proof -
  from assms have "channel_ok st"
    by (induction rule: fw_reachable.induct) (auto intro: start_channel_ok fw_step_channel_ok)
  moreover have "fs_sends (fst (fw_nfq_callback env payload st)) \<le> fs_sends st + 3"
    by (rule callback_reports [of env payload st 0]) simp
  ultimately show ?thesis
    using callback_new_event(2) [of _ st env payload] by (simp add: channel_ok_def event_fits_def list_all_iff Let_def)
qed

text \<open>C8: Eight detected attacks lock a source out: after any sequence of packets, of any sources, in which the HTTP engine has
  found eight packets of a source to be attacks, every packet of that source in any further sequence is dropped, whatever it
  carries, until the agent loads a new blocklist. The source is outside the local networks and is not the default gateway,
  which the daemon has looked up before.\<close>

theorem attacker_locked_out:
  assumes "fw_ok st" "outside st src" "8 \<le> attacks src pkts st"
  shows "set (map snd (filter (\<lambda>(p, v). packet_from src (snd p)) (zip later (snd (nfq_run later (fst (nfq_run pkts st))))))) \<subseteq> {NF_DROP}"
proof -
  have "80 \<le> 10 * int (attacks src pkts st)" using assms(3) by simp
  moreover have "rep_ok (fs_rep st)" using assms(1) by (simp add: fw_ok_def)
  ultimately have "get_ip_reputation (fs_rep (fst (nfq_run pkts st))) src \<le> 20"
    using run_attacks_cost [OF assms(1), of pkts src] get_range [of "fs_rep st" src] by linarith
  then show ?thesis by (intro nfq_run_low_reputation run_keeps assms)
qed

text \<open>A blocked source behind a connected agent: the listed address of \<^const>\<open>guarded_state\<close>.\<close>

definition watched_state :: fw_state where
  "watched_state = agent_connect 5 guarded_state"

lemma watched_outside: "outside watched_state (le32 (CHR 0xCB) NUL (CHR 0x71) (CHR 0x4D))"
  using guarded_outside by (simp add: watched_state_def agent_connect_def outside_def)

theorem fw_events_bounded_witness:
  "fs_sends (fst (fw_nfq_callback sample_nfq (Some (header_from (CHR 0xCB) NUL (CHR 0x71) (CHR 0x4D)))
     (agent_connect 5 sample_state))) \<le> 3"
proof -
  have "fw_reachable (agent_connect 5 sample_state)"
    by (rule fw_reachable.step [OF fw_reachable.start [OF sample_started] fw_step.connect])
  from fw_events_bounded [OF this, of sample_nfq "Some (header_from (CHR 0xCB) NUL (CHR 0x71) (CHR 0x4D))"] show ?thesis
    by (simp add: Let_def agent_connect_def sample_state_def)
qed

text \<open>The sample attack against a daemon without a connection pool, so that only the HTTP engine judges it.\<close>

definition open_state :: fw_state where
  "open_state = sample_state\<lparr>fs_pool := None, fs_gw_initialized := True\<rparr>"

definition attack_data :: "byte list" where
  "attack_data = skb_data (sample_packet attack_text)"

lemma attack_data_facts:
  "\<lparr>skb_data = attack_data\<rparr> = sample_packet attack_text" "packet_from (inet_addr4 203 0 113 77) (Some attack_data)"
  "http_env_of sample_nfq = sample_env"
  by (simp_all add: attack_data_def http_env_of_def sample_nfq_def sample_env_def)
    (simp add: packet_from_def sample_packet_def inet_addr4_def le32_def byte_swap32_def)

lemma attack_hits:
  assumes "fs_pool st = None" "outside st (inet_addr4 203 0 113 77)"
  shows "http_hit sample_nfq (Some attack_data) st" "fs_pool (fst (fw_nfq_callback sample_nfq (Some attack_data) st)) = None"
proof -
  let ?src = "inet_addr4 203 0 113 77"
  have len: "length attack_data = 40 + length attack_text" by (simp add: attack_data_def)
  have hit: "snd (snd (snd (inspect_http_payload sample_env ys pool rep (sample_packet attack_text) (packet_iph attack_text) packet_tcph)))" for ys pool rep
    using attack_pos attack_scanned [of ys] by (auto simp: inspect_http_payload_def Let_def split: option.splits)
  have none: "fst (inspect_http_payload sample_env ys None rep (sample_packet attack_text) (packet_iph attack_text) packet_tcph) = None" for ys rep
    by (auto simp: inspect_http_payload_def register_http_def register_http_header_sent_def register_http_complete_def Let_def split: option.split)
  note b = outside_not_bypassed(1) [OF assms(2), of sample_nfq]
  have port: "ntohs (tcp_dest packet_tcph) = 80" by (simp add: packet_tcph_def)
  have mon: "monitor_tcp_stats hz now secs None iph tcph = (None, [], False)" for hz now secs iph tcph by (simp add: monitor_tcp_stats_def Let_def)
  show "http_hit sample_nfq (Some attack_data) st"
    using assms(1) b hit port
    by (simp add: http_hit_def Let_def attack_data_facts sample_ip_hdr sample_tcp_hdr len mon IPPROTO_TCP_def)
  obtain st' where st': "is_bypassed_ip sample_nfq st ?src = (st', False)" using b by (metis prod.collapse)
  have "fs_pool st' = None" using bypass_frame [OF st'] assms(1) by simp
  then have "fs_pool (fst (decide sample_nfq attack_data st')) = None"
    using none port by (simp add: decide_def Let_def attack_data_facts sample_ip_hdr sample_tcp_hdr check_tcp_def len mon run_http_frame IPPROTO_TCP_def)
  then show "fs_pool (fst (fw_nfq_callback sample_nfq (Some attack_data) st)) = None"
    using st' by (simp add: fw_nfq_callback_def decide_def Let_def attack_data_facts sample_ip_hdr len)
qed

lemma attack_run:
  "fs_pool st = None \<Longrightarrow> outside st (inet_addr4 203 0 113 77) \<Longrightarrow> attacks (inet_addr4 203 0 113 77) (replicate n (sample_nfq, Some attack_data)) st = n"
  by (induction n arbitrary: st) (simp_all add: attack_hits attack_data_facts callback_outside)

theorem attacker_locked_out_witness:
  "snd (nfq_run [(sample_nfq, Some (header_from (CHR 0xCB) NUL (CHR 0x71) (CHR 0x4D)))]
     (fst (nfq_run (replicate 8 (sample_nfq, Some attack_data)) open_state))) = [NF_DROP]"
proof -
  let ?src = "inet_addr4 203 0 113 77" and ?pkts = "replicate 8 (sample_nfq, Some attack_data)"
  let ?later = "[(sample_nfq, Some (header_from (CHR 0xCB) NUL (CHR 0x71) (CHR 0x4D)))]"
  have ok: "fw_ok open_state" using start_ok [OF sample_started] by (simp add: fw_ok_def open_state_def conn_pool_ok_def)
  have out: "outside open_state ?src"
    by (simp add: outside_def open_state_def sample_state_def is_local_ip_def octet_def inet_addr4_def byte_swap32_def Let_def)
  have "8 \<le> attacks ?src ?pkts open_state" using attack_run [OF _ out, of 8] by (simp add: open_state_def)
  note locked = attacker_locked_out [OF ok out this, of ?later]
  have "packet_from ?src (Some (header_from (CHR 0xCB) NUL (CHR 0x71) (CHR 0x4D)))"
    using header_from_packet [of "CHR 0xCB" NUL "CHR 0x71" "CHR 0x4D"] by (simp add: inet_addr4_def le32_def byte_swap32_def)
  with locked show ?thesis by (auto split: prod.splits)
qed

end
