(* ===== verification/Fw_Inspect_Module.thy ===== *)
theory Fw_Inspect_Module
  imports Fw_Events
begin

section \<open>The kernel module (fw\_inspect.c)\<close>

text \<open>
  The netfilter hook variant of the firewall: the same engines behind a hook function, with a netlink
  socket instead of the UNIX socket. The engines are built against the kernel here and not against \<^verbatim>\<open>userspace_compat.h\<close>: how many
  jiffies the kernel counts in a second (\<open>ke_hz\<close>) and whether \<^verbatim>\<open>pskb_may_pull\<close> succeeds (\<open>ke_may_pull\<close>) are inputs, with registration results and
  allocation failures, in the record \<open>km_env\<close>; the other inputs are those of the daemon. Before the hook the kernel sets the
  transport header behind the IP header, where \<^verbatim>\<open>tcp_hdr\<close> then points. \<open>km_delivered\<close> lists the events \<^verbatim>\<open>nlmsg_unicast\<close> took.
\<close>

subsection \<open>Model\<close>

record km_env =
  ke_nfq :: nfq_env
  ke_hz :: u64
  ke_may_pull :: "nat \<Rightarrow> bool"
  nlmsg_new_ok :: bool
  nlmsg_unicast :: int
  netlink_create_ok :: bool
  nf_register :: int

record km_state =
  km_pool :: conn_pool
  km_rep :: reputation_table
  km_bl :: blocklist
  km_yara :: yara_state
  agent_pid :: u32
  nl_sk :: bool
  km_delivered :: "fw_event list"

definition km_send_fw_event :: "km_env \<Rightarrow> fw_event \<Rightarrow> km_state \<Rightarrow> km_state" where
  "km_send_fw_event env event st =
     (if agent_pid st = 0 then st
      else if \<not> nlmsg_new_ok env then st
      else if nlmsg_unicast env < 0 then st
      else st\<lparr>km_delivered := km_delivered st @ [event]\<rparr>)"

definition NLMSG_DONE :: nat where
  "NLMSG_DONE = 3"

text \<open>A netlink message: its type, the sender's port and the bytes of its payload.\<close>

definition fw_nl_recv_msg :: "km_env \<Rightarrow> nat \<Rightarrow> u32 \<Rightarrow> byte list \<Rightarrow> km_state \<Rightarrow> km_state" where
  "fw_nl_recv_msg env nlmsg_type nlmsg_pid payload st =
     (if nlmsg_type = NLMSG_DONE then
        (let command = le32 (payload ! 0) (payload ! 1) (payload ! 2) (payload ! 3)
         in if command = 1 then st\<lparr>agent_pid := nlmsg_pid\<rparr> else st)
      else if nlmsg_type = 2 then
        (let (rep, bl) = update_ip_blocklist (ne_alloc (ke_nfq env)) (ne_oob_entries (ke_nfq env)) (km_rep st) (km_bl st)
               (parse_payload payload)
         in st\<lparr>km_rep := rep, km_bl := bl\<rparr>)
      else st)"

definition km_is_local_ip :: "u32 \<Rightarrow> bool" where
  "km_is_local_ip ip =
     (let host_ip = ntohl ip; o1 = ucast (drop_bit 24 host_ip AND 0xFF) :: u8; o2 = ucast (drop_bit 16 host_ip AND 0xFF) :: u8 in
      if o1 = 127 then True
      else if o1 = 10 then True
      else if o1 = 172 \<and> o2 \<ge> 16 \<and> o2 \<le> 31 then True
      else if o1 = 192 \<and> o2 = 168 then True
      else False)"

definition km_send_all :: "km_env \<Rightarrow> fw_event list \<Rightarrow> km_state \<Rightarrow> km_state" where
  "km_send_all env evs st = fold (km_send_fw_event env) evs st"

definition hook_blocklist :: "km_env \<Rightarrow> iphdr \<Rightarrow> km_state \<Rightarrow> km_state \<times> verdict" where
  "hook_blocklist env iph st =
     (if inspect_ip_blocklist (ne_ub_shift (ke_nfq env)) (km_bl st) (ip_saddr iph)
      then (km_send_fw_event env (blocklist_event (ne_secs (ke_nfq env)) iph) st, NF_DROP)
      else (st, NF_ACCEPT))"

definition km_http_env :: "km_env \<Rightarrow> http_env" where
  "km_http_env env = (http_env_of (ke_nfq env))\<lparr>he_may_pull := ke_may_pull env\<rparr>"

definition hook_tcp :: "km_env \<Rightarrow> sk_buff \<Rightarrow> iphdr \<Rightarrow> km_state \<times> verdict \<Rightarrow> km_state \<times> verdict" where
  "hook_tcp env skb iph sv =
     (let ne = ke_nfq env; st = fst sv in
      if snd sv \<noteq> NF_DROP \<and> ip_protocol iph = IPPROTO_TCP then
        (let tcph = tcp_hdr (ne_oob ne) skb;
             (pool, evs, hit) = monitor_tcp_stats (ke_hz env) (ne_jiffies ne) (ne_secs ne) (km_pool st) iph tcph;
             st = km_send_all env evs (st\<lparr>km_pool := pool\<rparr>)
         in if hit then (st, NF_DROP)
            else if ntohs (tcp_dest tcph) = 80 then
              (let (pool, rep, evs, hit) =
                     inspect_http_payload (km_http_env env) (km_yara st) (km_pool st) (km_rep st) skb iph tcph
               in (km_send_all env evs (st\<lparr>km_pool := pool, km_rep := rep\<rparr>), if hit then NF_DROP else snd sv))
            else (st, snd sv))
      else sv)"

definition fw_hook_fn :: "km_env \<Rightarrow> sk_buff option \<Rightarrow> km_state \<Rightarrow> km_state \<times> verdict" where
  "fw_hook_fn env skb_ptr st =
     (case skb_ptr of None \<Rightarrow> (st, NF_ACCEPT)
      | Some skb \<Rightarrow>
          (let iph = ip_hdr (ne_oob (ke_nfq env)) skb; (st, v) = hook_tcp env skb iph (hook_blocklist env iph st)
           in if v = NF_DROP \<and> km_is_local_ip (ip_saddr iph) \<and> g_block_local_ips (km_bl st) = 0 then (st, NF_ACCEPT)
              else (st, v)))"

definition EFAULT :: int where
  "EFAULT = 14"

text \<open>
  Module initialisation: the state and the error code; a failing step undoes the ones before it. Once
  \<^verbatim>\<open>cleanup_conn_pool\<close> has freed the pool the model forgets it; the code keeps the stale pointer, which
  nothing uses after the hook is gone.
\<close>

definition fw_inspect_init :: "km_env \<Rightarrow> bool \<Rightarrow> km_state \<Rightarrow> km_state \<times> int" where
  "fw_inspect_init env pool_alloc st =
     (let (pool, ret) = init_conn_pool pool_alloc; st = st\<lparr>km_pool := pool\<rparr> in
      if ret \<noteq> 0 then (st, ret)
      else let st = st\<lparr>nl_sk := netlink_create_ok env\<rparr> in
        if \<not> nl_sk st then (st\<lparr>km_pool := None\<rparr>, - ENOMEM)
        else if nf_register env < 0 then (st\<lparr>nl_sk := False, km_pool := None\<rparr>, - EFAULT)
        else (st, 0))"

definition fw_inspect_exit :: "km_state \<Rightarrow> km_state" where
  "fw_inspect_exit st = (let st = (if nl_sk st then st\<lparr>nl_sk := False\<rparr> else st) in st\<lparr>km_pool := None\<rparr>)"

text \<open>The statics when the module is loaded, and what can happen to them until it is unloaded: packets and netlink messages, in any order.\<close>

definition km_boot :: km_state where
  "km_boot = \<lparr>km_pool = None, km_rep = init_ip_reputation, km_bl = empty_blocklist, km_yara = yara_boot, agent_pid = 0,
     nl_sk = False, km_delivered = []\<rparr>"

inductive km_reachable :: "km_state \<Rightarrow> bool" where
  init: "fw_inspect_init env pool_alloc km_boot = (st, 0) \<Longrightarrow> km_reachable st"
| hook: "km_reachable st \<Longrightarrow> km_reachable (fst (fw_hook_fn env skb st))"
| recv: "km_reachable st \<Longrightarrow> km_reachable (fw_nl_recv_msg env ty pid payload st)"

subsection \<open>Lemmas\<close>

lemma km_is_local_ip_eq: "km_is_local_ip = is_local_ip"
  by (rule ext) (simp add: km_is_local_ip_def is_local_ip_def octet_def Let_def)

lemma km_send_frame [simp]:
  "km_pool (km_send_fw_event env e st) = km_pool st" "km_rep (km_send_fw_event env e st) = km_rep st"
  "km_bl (km_send_fw_event env e st) = km_bl st" "km_yara (km_send_fw_event env e st) = km_yara st"
  by (simp_all add: km_send_fw_event_def)

lemma km_send_all_frame [simp]:
  "km_pool (km_send_all env es st) = km_pool st" "km_rep (km_send_all env es st) = km_rep st"
  "km_bl (km_send_all env es st) = km_bl st" "km_yara (km_send_all env es st) = km_yara st"
  unfolding km_send_all_def by (induction es arbitrary: st) simp_all

text \<open>The invariant: that of the engines, a pool that was allocated, and events that fit their struct.\<close>

definition km_ok :: "km_state \<Rightarrow> bool" where
  "km_ok st \<longleftrightarrow> rep_ok (km_rep st) \<and> conn_pool_ok (km_pool st) \<and> km_pool st \<noteq> None \<and> bl_ok (km_bl st) \<and>
     list_all event_fits (km_delivered st)"

lemma km_send_ok: "km_ok st \<Longrightarrow> event_fits ev \<Longrightarrow> km_ok (km_send_fw_event env ev st)"
  by (simp add: km_ok_def km_send_fw_event_def)

lemma km_send_all_ok: "km_ok st \<Longrightarrow> one_alarm src evs hit \<Longrightarrow> km_ok (km_send_all env evs st)"
  by (auto simp: one_alarm_def km_send_all_def event_of_def intro: km_send_ok)

lemma km_pool_update_ok: "km_ok st \<Longrightarrow> conn_pool_ok pool \<Longrightarrow> pool \<noteq> None \<Longrightarrow> km_ok (st\<lparr>km_pool := pool\<rparr>)"
  by (simp add: km_ok_def)

lemma monitor_keeps_pool: "pool \<noteq> None \<Longrightarrow> fst (monitor_tcp_stats hz now secs pool iph tcph) \<noteq> None"
  by (auto simp: monitor_tcp_stats_def Let_def split: option.split prod.split)

lemma inspect_keeps_pool: "pool \<noteq> None \<Longrightarrow> fst (inspect_http_payload env ys pool rep skb iph tcph) \<noteq> None"
  by (auto simp: inspect_http_payload_def register_http_def register_http_header_sent_def register_http_complete_def Let_def
      split: option.split)

lemma hook_blocklist_ok: "km_ok st \<Longrightarrow> km_ok (fst (hook_blocklist env iph st))"
  using ip_event_of by (auto simp: hook_blocklist_def blocklist_event_def event_of_def intro!: km_send_ok)

lemma hook_tcp_ok:
  assumes "km_ok (fst sv)"
  shows "km_ok (fst (hook_tcp env skb iph sv))"
proof -
  let ?ne = "ke_nfq env"
  let ?tcph = "tcp_hdr (ne_oob ?ne) skb"
  obtain pool evs hit where m: "monitor_tcp_stats (ke_hz env) (ne_jiffies ?ne) (ne_secs ?ne) (km_pool (fst sv)) iph ?tcph = (pool, evs, hit)"
    by (metis prod_cases3)
  have "conn_pool_ok pool" "pool \<noteq> None" "one_alarm (ip_saddr iph) evs hit"
    using assms m monitor_pool_ok [of "km_pool (fst sv)"] monitor_keeps_pool [of "km_pool (fst sv)"] monitor_alarm
    by (metis km_ok_def fst_conv snd_conv)+
  then have st: "km_ok (km_send_all env evs ((fst sv)\<lparr>km_pool := pool\<rparr>))" (is "km_ok ?st")
    using assms by (intro km_send_all_ok km_pool_update_ok)
  obtain pool' rep evs' hit' where i: "inspect_http_payload (km_http_env env) (km_yara ?st) (km_pool ?st) (km_rep ?st) skb iph ?tcph =
      (pool', rep, evs', hit')" by (metis prod_cases4)
  have "conn_pool_ok pool'" "pool' \<noteq> None" "rep_ok rep" "one_alarm (ip_saddr (ip_hdr (he_oob (km_http_env env)) skb)) evs' hit'"
    using st i inspect_pool_ok [of "km_pool ?st"] inspect_keeps_pool [of "km_pool ?st"] inspect_rep_ok [of "km_rep ?st"] inspect_alarm
    by (metis km_ok_def fst_conv snd_conv)+
  then have "km_ok (km_send_all env evs' (?st\<lparr>km_pool := pool', km_rep := rep\<rparr>))"
    using st by (intro km_send_all_ok) (simp_all add: km_ok_def)
  then show ?thesis using assms st m i by (simp add: hook_tcp_def Let_def)
qed

lemma fw_hook_ok: "km_ok st \<Longrightarrow> km_ok (fst (fw_hook_fn env skb st))"
  using hook_tcp_ok [OF hook_blocklist_ok] by (simp add: fw_hook_fn_def Let_def case_prod_beta split: option.split)

lemma fw_nl_recv_ok:
  assumes "km_ok st"
  shows "km_ok (fw_nl_recv_msg env ty pid payload st)"
proof -
  let ?u = "update_ip_blocklist (ne_alloc (ke_nfq env)) (ne_oob_entries (ke_nfq env)) (km_rep st) (km_bl st) (parse_payload payload)"
  have "bl_ok (snd ?u)" "rep_ok (fst ?u)"
    using assms update_bl_ok sync_rep_ok by (simp_all add: km_ok_def update_ip_blocklist_def Let_def)
  then show ?thesis using assms by (simp add: km_ok_def fw_nl_recv_msg_def Let_def case_prod_beta)
qed

lemma fw_inspect_init_ok: "fw_inspect_init env pool_alloc km_boot = (st, 0) \<Longrightarrow> km_ok st"
  using init_pool_ok [of pool_alloc]
  by (auto simp: fw_inspect_init_def init_conn_pool_def km_boot_def km_ok_def Let_def init_rep_ok empty_bl_ok ENOMEM_def EFAULT_def split: if_splits)

text \<open>The engines' part of the two states.\<close>

definition same_engines :: "km_state \<Rightarrow> fw_state \<Rightarrow> bool" where
  "same_engines km st \<longleftrightarrow> km_pool km = fs_pool st \<and> km_rep km = fs_rep st \<and> km_bl km = fs_bl st \<and> km_yara km = fs_yara st"

text \<open>
  On a packet whose TCP header is inside the buffer and whose payload can be pulled, the hook's TCP part of a module built with
  the daemon's \<^verbatim>\<open>HZ\<close> simulates the daemon's.
\<close>

lemma hook_tcp_simulates:
  assumes "same_engines km st" and "ip_ihl iph * 4 + 20 \<le> length (skb_data skb)" "ke_hz env = HZ"
    and "ke_may_pull env (pull_len iph (tcp_hdr (ne_oob (ke_nfq env)) skb))"
  shows "same_engines (fst (hook_tcp env skb iph (km, NF_ACCEPT))) (fst (check_tcp (ke_nfq env) skb iph (st, NF_ACCEPT))) \<and>
    snd (hook_tcp env skb iph (km, NF_ACCEPT)) = snd (check_tcp (ke_nfq env) skb iph (st, NF_ACCEPT))"
proof (cases "ip_protocol iph = IPPROTO_TCP")
  case True
  let ?ne = "ke_nfq env"
  let ?tcph = "tcp_hdr (ne_oob ?ne) skb"
  obtain pool evs hit where m: "monitor_tcp_stats HZ (ne_jiffies ?ne) (ne_secs ?ne) (fs_pool st) iph ?tcph = (pool, evs, hit)"
    by (metis prod_cases3)
  obtain p r es h where i: "inspect_http_payload (http_env_of ?ne) (fs_yara st) pool (fs_rep st) skb iph ?tcph = (p, r, es, h)"
    by (metis prod_cases4)
  moreover have "inspect_http_payload (km_http_env env) (fs_yara st) pool (fs_rep st) skb iph ?tcph =
      inspect_http_payload (http_env_of ?ne) (fs_yara st) pool (fs_rep st) skb iph ?tcph"
    unfolding km_http_env_def using assms(4) by (intro inspect_pull) (simp add: http_env_of_def)
  ultimately show ?thesis
    using True assms m by (simp add: hook_tcp_def check_tcp_def run_http_def same_engines_def Let_def)
next
  case False
  then show ?thesis using assms(1) by (simp add: hook_tcp_def check_tcp_def Let_def)
qed

text \<open>When the pull fails, the module does not look at the payload at all.\<close>

lemma hook_unpulled:
  assumes "\<not> ke_may_pull env (pull_len iph (tcp_hdr (ne_oob (ke_nfq env)) skb))"
  shows "km_rep (fst (hook_tcp env skb iph sv)) = km_rep (fst sv)"
    and "\<not> snd (snd (monitor_tcp_stats (ke_hz env) (ne_jiffies (ke_nfq env)) (ne_secs (ke_nfq env)) (km_pool (fst sv)) iph (tcp_hdr (ne_oob (ke_nfq env)) skb))) \<Longrightarrow>
      snd (hook_tcp env skb iph sv) = snd sv"
  using assms inspect_unpulled [of "km_http_env env"] by (auto simp: hook_tcp_def Let_def case_prod_beta km_http_env_def split: prod.split)

subsection \<open>Properties\<close>

text \<open>C31: A kernel module built for a kernel with 100 jiffies to the second and the daemon enforce the same policy: at the same readings of the
  clocks, from states with the same engines, on a packet with complete headers whose payload \<^verbatim>\<open>pskb_may_pull\<close> makes readable, from a
  source that the daemon neither bypasses nor refuses on reputation or blocklist, both give the same verdict and leave the engines in the
  same state. (The module has no bypass and no check of the reputation, and a module whose pull fails does not inspect the payload.)\<close>

theorem module_agrees_with_daemon:
  assumes "same_engines km st" and "20 \<le> length data" and "skb = \<lparr>skb_data = data\<rparr>"
    and "iph = ip_hdr (ne_oob (ke_nfq env)) skb" and "ip_ihl iph * 4 + 20 \<le> length data"
    and "ke_hz env = HZ" and "ke_may_pull env (pull_len iph (tcp_hdr (ne_oob (ke_nfq env)) skb))"
    and "snd (is_bypassed_ip (ke_nfq env) st (ip_saddr iph)) = False"
    and "20 < get_ip_reputation (fs_rep st) (ip_saddr iph)"
    and "inspect_ip_blocklist (ne_ub_shift (ke_nfq env)) (fs_bl st) (ip_saddr iph) = False"
  shows "snd (fw_hook_fn env (Some skb) km) = snd (fw_nfq_callback (ke_nfq env) (Some data) st) \<and>
    same_engines (fst (fw_hook_fn env (Some skb) km)) (fst (fw_nfq_callback (ke_nfq env) (Some data) st))"
proof -
  let ?ne = "ke_nfq env"
  obtain st' where b: "is_bypassed_ip ?ne st (ip_saddr iph) = (st', False)" using assms(8) by (metis prod.collapse)
  note frame = bypass_frame [OF b]
  have eng: "same_engines km st'" using assms(1) frame by (simp add: same_engines_def)
  have hook: "hook_blocklist env iph km = (km, NF_ACCEPT)"
    using assms(1,10) by (simp add: hook_blocklist_def same_engines_def)
  have pre: "check_blocklist ?ne iph (check_reputation ?ne iph (st', NF_ACCEPT)) = (st', NF_ACCEPT)"
    using assms(9,10) frame by (simp add: check_blocklist_def check_reputation_def Let_def)
  obtain k v where k: "hook_tcp env skb iph (km, NF_ACCEPT) = (k, v)" by (cases "hook_tcp env skb iph (km, NF_ACCEPT)")
  obtain s w where s: "check_tcp ?ne skb iph (st', NF_ACCEPT) = (s, w)" by (cases "check_tcp ?ne skb iph (st', NF_ACCEPT)")
  have sim: "same_engines k s" "v = w"
    using hook_tcp_simulates [OF eng, of iph skb env] assms(3,5-7) k s by simp_all
  have "fw_nfq_callback ?ne (Some data) st = local_bypass iph (s, w)"
    using assms(2,3,4) b pre s by (simp add: fw_nfq_callback_def Let_def)
  moreover have "fw_hook_fn env (Some skb) km =
      (if v = NF_DROP \<and> is_local_ip (ip_saddr iph) \<and> g_block_local_ips (km_bl k) = 0 then (k, NF_ACCEPT) else (k, v))"
    using assms(4) hook k by (simp add: fw_hook_fn_def km_is_local_ip_eq Let_def)
  ultimately show ?thesis using sim by (auto simp: local_bypass_def same_engines_def)
qed

text \<open>C17: In every state the kernel module can reach after it was loaded, by packets with arbitrary contents and netlink messages of arbitrary
  type and bytes in any order, the reputation table, the connection pool and the blocklist are well formed, the pool stays
  allocated, scores are between 0 and 100, and the events passed to the agent fit their struct.\<close>

theorem module_reachable_invariant:
  assumes "km_reachable st"
  shows "km_ok st \<and> 0 \<le> get_ip_reputation (km_rep st) ip \<and> get_ip_reputation (km_rep st) ip \<le> 100"
proof -
  from assms have "km_ok st"
    by (induction rule: km_reachable.induct) (auto intro: fw_inspect_init_ok fw_hook_ok fw_nl_recv_ok)
  moreover from this have "rep_ok (km_rep st)" by (simp add: km_ok_def)
  ultimately show ?thesis using get_range [of "km_rep st" ip] by simp
qed

text \<open>A module whose registrations succeed.\<close>

definition sample_km_env :: km_env where
  "sample_km_env = \<lparr>ke_nfq = sample_nfq, ke_hz = 100, ke_may_pull = (\<lambda>_. True), nlmsg_new_ok = True, nlmsg_unicast = 0, netlink_create_ok = True, nf_register = 0\<rparr>"

lemma sample_km_env_nfq [simp]: "ke_nfq sample_km_env = sample_nfq" "ke_may_pull sample_km_env n"
  by (simp_all add: sample_km_env_def)

theorem module_reachable_invariant_witness:
  "km_ok (fst (fw_hook_fn sample_km_env (Some \<lparr>skb_data = header_from (CHR 0xCB) NUL (CHR 0x71) (CHR 0x4D)\<rparr>)
     (fw_nl_recv_msg sample_km_env 2 7 (encode_payload sample_payload) (fst (fw_inspect_init sample_km_env True km_boot)))))"
proof -
  have "fw_inspect_init sample_km_env True km_boot = (fst (fw_inspect_init sample_km_env True km_boot), 0)"
    by (simp add: fw_inspect_init_def sample_km_env_def init_conn_pool_def Let_def)
  then show ?thesis
    using module_reachable_invariant [OF km_reachable.hook [OF km_reachable.recv [OF km_reachable.init]]] by blast
qed

definition sample_km :: km_state where
  "sample_km = \<lparr>km_pool = fs_pool sample_state, km_rep = fs_rep sample_state, km_bl = fs_bl sample_state,
     km_yara = fs_yara sample_state, agent_pid = 0, nl_sk = True, km_delivered = []\<rparr>"

text \<open>The encoded PHP call, sent to both: the connection monitor and the HTTP engine run, and both drop it.\<close>

theorem module_agrees_with_daemon_witness:
  "snd (fw_hook_fn sample_km_env (Some (sample_packet attack_text)) sample_km) = NF_DROP \<and>
   snd (fw_nfq_callback sample_nfq (Some attack_data) (sample_state\<lparr>fs_gw_initialized := True\<rparr>)) = NF_DROP"
proof -
  let ?st = "sample_state\<lparr>fs_gw_initialized := True\<rparr>" and ?src = "inet_addr4 203 0 113 77" and ?skb = "sample_packet attack_text"
  have skb: "?skb = \<lparr>skb_data = attack_data\<rparr>" by (simp add: attack_data_facts)
  have len: "length attack_data = 40 + length attack_text" by (simp add: attack_data_def)
  have iph: "packet_iph attack_text = ip_hdr (ne_oob (ke_nfq sample_km_env)) ?skb" by (simp add: sample_ip_hdr)
  have local: "\<not> is_local_ip ?src" by (simp add: is_local_ip_def octet_def inet_addr4_def byte_swap32_def Let_def)
  then have "outside ?st ?src" by (simp add: outside_def sample_state_def inet_addr4_def byte_swap32_def)
  then have nb: "snd (is_bypassed_ip sample_nfq ?st ?src) = False" by (rule outside_not_bypassed)
  have pool: "fs_pool ?st = Some empty_conns" by (simp add: sample_state_def init_conn_pool_def empty_conns_def)
  have "unat (7 :: u64) < 2 ^ 61" by simp
  then have mon: "\<not> snd (snd (monitor_tcp_stats HZ 7 1 (Some empty_conns) (packet_iph attack_text) packet_tcph))"
    by (subst monitor_first_segment) (simp_all add: packet_tcph_def http_port_def inet_addr4_def byte_swap32_def)
  have hit: "snd (snd (snd (inspect_http_payload sample_env ys p rep ?skb (packet_iph attack_text) packet_tcph)))" for ys p rep
    using attack_pos attack_scanned [of ys] by (auto simp: inspect_http_payload_def Let_def split: option.splits)
  have port: "ntohs (tcp_dest packet_tcph) = 80" by (simp add: packet_tcph_def)
  have clock: "ne_jiffies sample_nfq = 7" "ne_secs sample_nfq = 1" by (simp_all add: sample_nfq_def)
  have "http_hit sample_nfq (Some attack_data) ?st"
    using nb mon hit port pool len
    by (simp add: http_hit_def Let_def attack_data_facts sample_ip_hdr sample_tcp_hdr clock IPPROTO_TCP_def)
  from http_hit_verdict [OF attack_data_facts(2) this] local
  have drop: "snd (fw_nfq_callback sample_nfq (Some attack_data) ?st) = NF_DROP" by simp
  have "snd (fw_hook_fn sample_km_env (Some ?skb) sample_km) = snd (fw_nfq_callback (ke_nfq sample_km_env) (Some attack_data) ?st)"
  proof (rule conjunct1 [OF module_agrees_with_daemon [OF _ _ skb iph]])
    show "same_engines sample_km ?st" by (simp add: same_engines_def sample_km_def)
    show "20 < get_ip_reputation (fs_rep ?st) (ip_saddr (packet_iph attack_text))" by (simp add: sample_state_def get_rep_abs init_rep_abs)
    show "inspect_ip_blocklist (ne_ub_shift (ke_nfq sample_km_env)) (fs_bl ?st) (ip_saddr (packet_iph attack_text)) = False"
      by (simp add: inspect_iff sample_state_def empty_blocklist_def bl_nodes_def)
  qed (use nb len in \<open>simp_all add: sample_km_env_def HZ_def\<close>)
  with drop show ?thesis by simp
qed

end
