(* ===== verification/Agent.thy ===== *)
theory Agent
  imports Agent_Blocklist Agent_Dedup Posix_Io Fw_Inspect_Module
begin

section \<open>The agent (fw\_agent.c)\<close>

text \<open>
  The process between the firewall and the SOC server: it forwards events, and it applies the server's
  commands to the blocklist file and pushes the list to the firewall. \<open>agent_state\<close> gathers the globals of
  the program, the statics of \<^verbatim>\<open>main\<close>, the files it writes and what it wrote to its sockets:

  \<^item> \<open>ag_soc_out\<close> is what the current connection to the server has accepted, \<open>ag_soc_sent\<close> the complete
    messages of all connections (type and plaintext), \<open>ag_soc_in\<close> what the connection will deliver;
  \<^item> \<open>ag_fw_out\<close> is what the UNIX socket of the daemon accepted, \<open>ag_nl_out\<close> the netlink messages sent.

  \<open>agent_env\<close> supplies the rest: clocks, the results of system calls, OpenSSL, the bytes of the health
  report. Results of calls that can happen several times in a round are functions of the number of calls
  so far (\<open>ag_calls\<close>).
\<close>

subsection \<open>State and environment\<close>

definition EVENT_BUFFER_SIZE :: nat where "EVENT_BUFFER_SIZE = 512"

datatype select_result = SELECT_EINTR | SELECT_ERROR | SELECT_READY "int list"

record agent_env =
  ae_time :: int
  ae_time_late :: int
  ae_select :: select_result
  ae_resolve_server :: bool
  ae_resolve_localhost :: bool
  ae_soc_socket :: "nat \<Rightarrow> int"
  ae_soc_connect :: "nat \<Rightarrow> bool"
  ae_soc_stream :: "nat \<Rightarrow> read_result list"
  ae_evp :: "nat \<Rightarrow> evp_env"
  ae_hdr_write :: "nat \<Rightarrow> int"
  ae_body_writes :: "nat \<Rightarrow> write_result list"
  ae_nl_socket :: int
  ae_nl_bind :: bool
  ae_nl_send :: "nat \<Rightarrow> bool"
  ae_un_socket :: int
  ae_un_connect :: bool
  ae_fw_write :: "nat \<Rightarrow> int"
  ae_fw_read :: read_result
  ae_malloc :: bool
  ae_append_ok :: bool
  ae_write_ok :: bool
  ae_yara_ok :: bool
  ae_health :: "byte list"

record agent_state =
  ag_uuid :: "byte list"
  ag_soc_fd :: int
  ag_fw_fd :: int
  ag_userspace_mode :: bool
  ag_event_buffer :: "raw_event list"
  ag_reload_requested :: bool
  ag_dedup :: dedup
  ag_last_flush :: int
  ag_last_health_check :: int
  ag_recv_buf :: "byte list"
  ag_blocklist :: "string option"
  ag_yara_rules :: "byte list option"
  ag_calls :: nat
  ag_soc_in :: "read_result list"
  ag_soc_out :: "byte list"
  ag_soc_sent :: "(u8 \<times> byte list) list"
  ag_fw_out :: "byte list"
  ag_nl_out :: "(nat \<times> byte list) list"

definition count_call :: "agent_state \<Rightarrow> agent_state" where
  "count_call st = st\<lparr>ag_calls := ag_calls st + 1\<rparr>"

definition handle_sighup :: "agent_state \<Rightarrow> agent_state" where
  "handle_sighup st = st\<lparr>ag_reload_requested := True\<rparr>"

subsection \<open>Reading exactly\<close>

text \<open>The return value, the bytes stored so far, and what is left in the socket.\<close>

function read_loop :: "nat \<Rightarrow> byte list \<Rightarrow> read_result list \<Rightarrow> int \<times> byte list \<times> read_result list" where
  "read_loop len buf rs =
     (if length buf < len then
        (case sock_read (len - length buf) rs of
           (GOT bs, rs') \<Rightarrow> read_loop len (buf @ bs) rs'
         | (INTR, rs') \<Rightarrow> read_loop len buf rs'
         | (CLOSED, rs') \<Rightarrow> (0, buf, rs')
         | (AGAIN, rs') \<Rightarrow> (- 1, buf, rs')
         | (FAILED, rs') \<Rightarrow> (- 1, buf, rs'))
      else (int (length buf), buf, rs))"
  by pat_completeness auto

termination
proof (relation "measures [\<lambda>(len, buf, rs). len - length buf, \<lambda>(len, buf, rs). length rs]", goal_cases)
  case (2 len buf rs r rs' bs)
  then have "sock_read (len - length buf) rs = (GOT bs, rs')" by simp
  from sock_read_GOT [OF this] 2(1) have "bs \<noteq> []" by simp
  then show ?case using 2(1) by (cases bs) auto
next
  case (3 len buf rs r rs')
  then have "sock_read (len - length buf) rs = (INTR, rs')" by simp
  from sock_read_INTR [OF this] show ?case by simp
qed simp

declare read_loop.simps [simp del]

definition read_exact :: "nat \<Rightarrow> read_result list \<Rightarrow> int \<times> byte list \<times> read_result list" where
  "read_exact len rs = read_loop len [] rs"

subsection \<open>Identity\<close>

text \<open>
  \<^verbatim>\<open>load_agent_uuid\<close>: the bytes the file gave (\<^term>\<open>None\<close> when it cannot be opened or read), the bytes of
  \<^verbatim>\<open>/dev/urandom\<close> likewise, and the values of \<^verbatim>\<open>rand() % 256\<close>; the second result is what is written back.
\<close>

definition generate_uuid :: "byte list option \<Rightarrow> byte list \<Rightarrow> byte list" where
  "generate_uuid urandom rand_bytes =
     (case urandom of Some bs \<Rightarrow> if length bs = 16 then bs else rand_bytes | None \<Rightarrow> rand_bytes)"

definition load_agent_uuid :: "byte list option \<Rightarrow> byte list option \<Rightarrow> byte list \<Rightarrow> byte list \<times> byte list option" where
  "load_agent_uuid file urandom rand_bytes =
     (case map_option (take 16) file of
        Some bs \<Rightarrow> if length bs = 16 then (bs, None)
                  else (let u = generate_uuid urandom rand_bytes in (u, Some u))
      | None \<Rightarrow> (let u = generate_uuid urandom rand_bytes in (u, Some u)))"

subsection \<open>The firewall side\<close>

definition push_blocklist_payload :: "agent_env \<Rightarrow> blocklist_payload \<Rightarrow> agent_state \<Rightarrow> agent_state" where
  "push_blocklist_payload env p st =
     (if ag_fw_fd st < 0 then st
      else if ag_userspace_mode st then
        (let sent = ae_fw_write env (ag_calls st)
         in (count_call st)\<lparr>ag_fw_out := ag_fw_out st @ take (nat sent) (encode_payload p)\<rparr>)
      else if ae_nl_send env (ag_calls st) then (count_call st)\<lparr>ag_nl_out := ag_nl_out st @ [(2, encode_payload p)]\<rparr>
      else count_call st)"

definition load_and_push_blocklist :: "agent_env \<Rightarrow> agent_state \<Rightarrow> agent_state" where
  "load_and_push_blocklist env st =
     (case ag_blocklist st of None \<Rightarrow> st
      | Some text \<Rightarrow> push_blocklist_payload env (read_blocklist text) st)"

definition connect_netlink :: "agent_env \<Rightarrow> agent_state \<Rightarrow> agent_state option" where
  "connect_netlink env st =
     (if ae_nl_socket env \<ge> 0 \<and> ae_nl_bind env \<and> ae_nl_send env (ag_calls st)
      then Some ((count_call st)\<lparr>ag_fw_fd := ae_nl_socket env, ag_userspace_mode := False,
                   ag_nl_out := ag_nl_out st @ [(NLMSG_DONE, encode_u32 1)]\<rparr>)
      else None)"

text \<open>The return value is not used by the callers.\<close>

definition connect_to_firewall :: "agent_env \<Rightarrow> agent_state \<Rightarrow> agent_state" where
  "connect_to_firewall env st =
     (case connect_netlink env st of Some st' \<Rightarrow> st'
      | None \<Rightarrow>
          if ae_un_socket env \<ge> 0 \<and> ae_un_connect env
          then (count_call st)\<lparr>ag_fw_fd := ae_un_socket env, ag_userspace_mode := True, ag_fw_out := []\<rparr>
          else (count_call st)\<lparr>ag_fw_fd := - 1\<rparr>)"

subsection \<open>The server side\<close>

definition connect_to_soc :: "agent_env \<Rightarrow> agent_state \<Rightarrow> agent_state \<times> int" where
  "connect_to_soc env st =
     (let n = ag_calls st; st = (count_call st)\<lparr>ag_soc_fd := - 1\<rparr> in
      if \<not> ae_resolve_server env \<and> \<not> ae_resolve_localhost env then (st, - 1)
      else if ae_soc_socket env n < 0 then (st, - 1)
      else if \<not> ae_soc_connect env n then (st, - 1)
      else (st\<lparr>ag_soc_fd := ae_soc_socket env n, ag_soc_out := [], ag_soc_in := ae_soc_stream env n\<rparr>, 0))"

text \<open>The loop that writes the payload: the bytes that went out and whether all did.\<close>

fun soc_write_loop :: "byte list \<Rightarrow> write_result list \<Rightarrow> byte list \<times> bool" where
  "soc_write_loop bs [] = (bs, True)"
| "soc_write_loop bs (w # ws) =
     (if bs = [] then ([], True)
      else case w of
        WROTE k \<Rightarrow> (case soc_write_loop (drop k bs) ws of (out, done) \<Rightarrow> (take k bs @ out, done))
      | WRITE_RETRY \<Rightarrow> ([], False)
      | WRITE_FAILED \<Rightarrow> ([], False))"

text \<open>\<^verbatim>\<open>send_to_soc\<close> once there is a connection: encrypt, frame, write.\<close>

definition soc_transmit :: "agent_env \<Rightarrow> u8 \<Rightarrow> byte list \<Rightarrow> agent_state \<Rightarrow> agent_state \<times> int" where
  "soc_transmit env msg_type payload st =
     (let n = ag_calls st; st = count_call st in
      case (if length payload > 0 then aes_encrypt (ae_evp env n) payload else Some []) of
        None \<Rightarrow> (st, - 1)
      | Some encrypted \<Rightarrow>
          (let hdr = encode_hdr (make_hdr (ag_uuid st) msg_type (length encrypted)); sent = ae_hdr_write env n in
           if sent \<noteq> int HDR_SIZE
           then (st\<lparr>ag_soc_fd := - 1, ag_soc_out := ag_soc_out st @ take (nat sent) hdr\<rparr>, - 1)
           else let (out, done) = soc_write_loop encrypted (ae_body_writes env n);
                    st = st\<lparr>ag_soc_out := ag_soc_out st @ hdr @ out\<rparr>
                in if done then (st\<lparr>ag_soc_sent := ag_soc_sent st @ [(msg_type, payload)]\<rparr>, 0)
                   else (st\<lparr>ag_soc_fd := - 1\<rparr>, - 1)))"

definition send_to_soc :: "agent_env \<Rightarrow> u8 \<Rightarrow> byte list \<Rightarrow> agent_state \<Rightarrow> agent_state \<times> int" where
  "send_to_soc env msg_type payload st =
     (let (st, rc) = (if ag_soc_fd st < 0 then connect_to_soc env st else (st, 0)) in
      if rc < 0 then (st, - 1) else soc_transmit env msg_type payload st)"

definition send_health_ping :: "agent_env \<Rightarrow> agent_state \<Rightarrow> agent_state" where
  "send_health_ping env st = fst (send_to_soc env MSG_TYPE_PING (ae_health env) st)"

subsection \<open>Commands of the server\<close>

text \<open>\<^verbatim>\<open>*(uint32_t *)decrypted\<close>.\<close>

definition command_u32 :: "byte list \<Rightarrow> u32" where
  "command_u32 d = le32 (d ! 0) (d ! 1) (d ! 2) (d ! 3)"

definition soc_command :: "agent_env \<Rightarrow> u8 \<Rightarrow> byte list \<Rightarrow> agent_state \<Rightarrow> agent_state" where
  "soc_command env msg_type decrypted st =
     (if msg_type = MSG_TYPE_BLOCK_IP then
        (if length decrypted \<ge> 4
         then load_and_push_blocklist env
                (st\<lparr>ag_blocklist := block_ip_file (ae_append_ok env) (command_u32 decrypted) (ag_blocklist st)\<rparr>)
         else st)
      else if msg_type = MSG_TYPE_UNBLOCK_IP then
        (if length decrypted \<ge> 4
         then load_and_push_blocklist env
                (st\<lparr>ag_blocklist := unblock_ip_file (ae_write_ok env) (command_u32 decrypted) (ag_blocklist st)\<rparr>)
         else st)
      else if msg_type = MSG_TYPE_CONFIG_UPDATE then
        (if length decrypted \<ge> 4
         then load_and_push_blocklist env
                (st\<lparr>ag_blocklist := config_update_file (ae_write_ok env) (command_u32 decrypted) (ag_blocklist st)\<rparr>)
         else st)
      else if msg_type = MSG_TYPE_YARA_UPDATE then
        (if ae_yara_ok env then st\<lparr>ag_yara_rules := Some decrypted\<rparr> else st)
      else st)"

text \<open>One message of the server; \<^term>\<open>True\<close> when the round ends here (\<^verbatim>\<open>continue\<close>).\<close>

definition soc_input :: "agent_env \<Rightarrow> agent_state \<Rightarrow> agent_state \<times> bool" where
  "soc_input env st =
     (let (r, bytes, rs) = read_exact HDR_SIZE (ag_soc_in st); st = st\<lparr>ag_soc_in := rs\<rparr> in
      if r \<le> 0 then (st\<lparr>ag_soc_fd := - 1\<rparr>, True)
      else
        let hdr = parse_hdr bytes in
        if ntohl (hdr_magic hdr) = MAGIC_HEADER then
          (let payload_len = body_len hdr in
           if payload_len > 0 \<and> payload_len < 16777216 then
             (if \<not> ae_malloc env then (st, True)
              else
                let (read_bytes, encrypted, rs) = read_exact payload_len (ag_soc_in st); st = st\<lparr>ag_soc_in := rs\<rparr> in
                if read_bytes \<noteq> int payload_len then (st\<lparr>ag_soc_fd := - 1\<rparr>, True)
                else (case aes_decrypt (ae_evp env (ag_calls st)) encrypted of
                        Some decrypted \<Rightarrow> (soc_command env (hdr_msg_type hdr) decrypted st, False)
                      | None \<Rightarrow> (st, False)))
           else (st, False))
        else (st, False))"

subsection \<open>Events of the firewall\<close>

definition buffer_event :: "raw_event \<Rightarrow> agent_state \<Rightarrow> agent_state" where
  "buffer_event event st =
     (if length (ag_event_buffer st) < EVENT_BUFFER_SIZE
      then st\<lparr>ag_event_buffer := ag_event_buffer st @ [event]\<rparr> else st)"

definition handle_event :: "agent_env \<Rightarrow> raw_event \<Rightarrow> agent_state \<Rightarrow> agent_state" where
  "handle_event env event st =
     (if raw_severity event = 2 \<or> raw_severity event = 1 then
        (let (d, dup) = is_duplicate_alert event (ag_dedup st); st = st\<lparr>ag_dedup := d\<rparr> in
         if dup then buffer_event event st
         else fst (send_to_soc env MSG_TYPE_ALERT event st))
      else buffer_event event st)"

text \<open>\<^verbatim>\<open>NLMSG_OK\<close> and the type of the message in \<^verbatim>\<open>recv_buf\<close>.\<close>

definition nlmsg_len :: "byte list \<Rightarrow> nat" where
  "nlmsg_len b = unat (le32 (b ! 0) (b ! 1) (b ! 2) (b ! 3))"

definition nl_event :: "nat \<Rightarrow> byte list \<Rightarrow> raw_event option" where
  "nl_event len b =
     (if len \<ge> 16 \<and> nlmsg_len b \<ge> 16 \<and> nlmsg_len b \<le> len \<and> le16 (b ! 4) (b ! 5) = of_nat NLMSG_DONE
      then Some (take EVENT_SIZE (drop 16 b)) else None)"

definition fw_input :: "agent_env \<Rightarrow> agent_state \<Rightarrow> agent_state \<times> bool" where
  "fw_input env st =
     (if ag_userspace_mode st then
        (case fst (sock_read EVENT_SIZE [ae_fw_read env]) of
           GOT bs \<Rightarrow> (if length bs = EVENT_SIZE then handle_event env bs st else st, False)
         | _ \<Rightarrow> (st\<lparr>ag_fw_fd := - 1\<rparr>, True))
      else
        (case ae_fw_read env of
           GOT bs \<Rightarrow>
             (let bs = take 8192 bs; b = bs @ drop (length bs) (ag_recv_buf st); st = st\<lparr>ag_recv_buf := b\<rparr>
              in (case nl_event (length bs) b of Some event \<Rightarrow> handle_event env event st | None \<Rightarrow> st, False))
         | CLOSED \<Rightarrow> (st, False)
         | AGAIN \<Rightarrow> (st, True)
         | INTR \<Rightarrow> (st, True)
         | FAILED \<Rightarrow> (st\<lparr>ag_fw_fd := - 1\<rparr>, True)))"

subsection \<open>One round of the main loop\<close>

definition health_check :: "agent_env \<Rightarrow> agent_state \<Rightarrow> agent_state" where
  "health_check env st =
     (if ae_time env - ag_last_health_check st > 5 then
        (let st = st\<lparr>ag_last_health_check := ae_time env\<rparr> in
         if ag_soc_fd st < 0 then
           (let st = fst (connect_to_soc env st) in
            if ag_soc_fd st \<ge> 0 then load_and_push_blocklist env (send_health_ping env st) else st)
         else st)
      else st)"

definition flush_events :: "agent_env \<Rightarrow> agent_state \<Rightarrow> agent_state" where
  "flush_events env st =
     (if ae_time_late env \<ge> ag_last_flush st + 10 then
        (let st = (if length (ag_event_buffer st) > 0
                   then (case send_to_soc env MSG_TYPE_BATCH (concat (ag_event_buffer st)) st of
                           (st, ret) \<Rightarrow> if ret = 0 then st\<lparr>ag_event_buffer := []\<rparr> else st)
                   else send_health_ping env st)
         in st\<lparr>ag_last_flush := ae_time_late env\<rparr>)
      else st)"

definition agent_ready :: "agent_env \<Rightarrow> int list \<Rightarrow> agent_state \<Rightarrow> agent_state" where
  "agent_ready env read_fds st =
     (let st = health_check env st;
          (st, stop) = (if ag_soc_fd st \<ge> 0 \<and> ag_soc_fd st \<in> set read_fds then soc_input env st else (st, False)) in
      if stop then st
      else let (st, stop) = (if ag_fw_fd st \<ge> 0 \<and> ag_fw_fd st \<in> set read_fds then fw_input env st else (st, False)) in
        if stop then st else flush_events env st)"

definition agent_round :: "agent_env \<Rightarrow> agent_state \<Rightarrow> agent_state" where
  "agent_round env st =
     (let st = (if ag_reload_requested st then load_and_push_blocklist env (st\<lparr>ag_reload_requested := False\<rparr>) else st);
          st = (if ag_fw_fd st < 0
                then (let st = connect_to_firewall env st
                      in if ag_fw_fd st \<ge> 0 then load_and_push_blocklist env st else st)
                else st)
      in case ae_select env of
           SELECT_EINTR \<Rightarrow> st
         | SELECT_ERROR \<Rightarrow> st
         | SELECT_READY fds \<Rightarrow> agent_ready env (filter (\<lambda>fd. fd = ag_fw_fd st \<or> fd = ag_soc_fd st) fds) st)"

text \<open>What \<^verbatim>\<open>main\<close> does before the loop; \<open>stack\<close> is what the receive buffer holds uninitialised.\<close>

definition agent_start :: "agent_env \<Rightarrow> byte list \<Rightarrow> byte list \<Rightarrow> string option \<Rightarrow> byte list option \<Rightarrow> agent_state" where
  "agent_start env stack uuid file yara =
     (let st = \<lparr>ag_uuid = uuid, ag_soc_fd = - 1, ag_fw_fd = - 1, ag_userspace_mode = False, ag_event_buffer = [],
            ag_reload_requested = False, ag_dedup = dedup_boot, ag_last_flush = 0, ag_last_health_check = 0,
            ag_recv_buf = stack, ag_blocklist = file, ag_yara_rules = yara, ag_calls = 0, ag_soc_in = [],
            ag_soc_out = [], ag_soc_sent = [], ag_fw_out = [], ag_nl_out = []\<rparr>;
          st = connect_to_firewall env st;
          st = fst (connect_to_soc env st);
          st = (if ag_soc_fd st \<ge> 0 then send_health_ping env st else st);
          st = load_and_push_blocklist env st
      in st\<lparr>ag_last_flush := ae_time env\<rparr>)"

text \<open>Rounds and signals in any order, from a start with any environment.\<close>

inductive agent_reachable :: "agent_state \<Rightarrow> bool" where
  start: "length stack = 8192 \<Longrightarrow> length rnd = 16 \<Longrightarrow>
    agent_reachable (agent_start env stack (fst (load_agent_uuid uuid_file urandom rnd)) file yara)"
| round: "agent_reachable st \<Longrightarrow> agent_reachable (agent_round env st)"
| sighup: "agent_reachable st \<Longrightarrow> agent_reachable (handle_sighup st)"

subsection \<open>Reading and writing\<close>

text \<open>However the stream is cut and interrupted, the loop returns the next bytes of it.\<close>

lemma read_loop_flowing:
  assumes "flowing rs" and "length buf \<le> len" and "len - length buf \<le> length (pending rs)"
  shows "\<exists>rs'. read_loop len buf rs = (int len, buf @ take (len - length buf) (pending rs), rs') \<and>
    pending rs' = drop (len - length buf) (pending rs) \<and> flowing rs'"
  using assms
proof (induction len buf rs rule: read_loop.induct)
  case (1 len buf rs)
  show ?case
  proof (cases "length buf < len")
    case False
    then show ?thesis using "1.prems" by (subst read_loop.simps) simp
  next
    case True
    let ?n = "len - length buf"
    have "pending rs \<noteq> []" using True "1.prems"(3) by auto
    obtain r rs1 where r: "sock_read ?n rs = (r, rs1)" by (cases "sock_read ?n rs")
    then consider bs where "r = GOT bs" | "r = INTR"
      using sock_read_flowing [OF "1.prems"(1) \<open>pending rs \<noteq> []\<close>, of ?n] by auto
    then show ?thesis
    proof cases
      case (1 bs)
      then have got: "length bs \<le> ?n" "pending rs = bs @ pending rs1" "flowing rs1"
        using sock_read_GOT [of ?n rs bs rs1] r True "1.prems"(1) by simp_all
      have "len - length (buf @ bs) \<le> length (pending rs1)" using got "1.prems"(3) by simp
      moreover have "length (buf @ bs) \<le> len" using got True by simp
      ultimately obtain rs' where "read_loop len (buf @ bs) rs1 = (int len, (buf @ bs) @ take (len - length (buf @ bs)) (pending rs1), rs')"
        "pending rs' = drop (len - length (buf @ bs)) (pending rs1)" "flowing rs'"
        using "1.IH"(1) [OF True r [symmetric] 1 got(3)] by blast
      then show ?thesis using 1 r True got by (subst read_loop.simps) simp
    next
      case 2
      then have intr: "pending rs = pending rs1" "flowing rs1" using sock_read_INTR [of ?n rs rs1] r "1.prems"(1) by simp_all
      with "1.IH"(2) [OF True r [symmetric] 2] "1.prems"
      show ?thesis using 2 r True by (subst read_loop.simps) simp
    qed
  qed
qed

lemma read_exact_flowing:
  assumes "flowing rs" and "len \<le> length (pending rs)"
  obtains rs' where "read_exact len rs = (int len, take len (pending rs), rs')" "pending rs' = drop len (pending rs)" "flowing rs'"
  using read_loop_flowing [of rs "[]" len] assms by (auto simp: read_exact_def)

lemma soc_write_loop_done: "soc_write_loop bs ws = (out, True) \<Longrightarrow> out = bs"
proof (induction bs ws arbitrary: out rule: soc_write_loop.induct)
  case (2 bs w ws)
  then show ?case
  proof (cases w)
    case (WROTE k)
    then obtain out' where "bs = [] \<or> soc_write_loop (drop k bs) ws = (out', True) \<and> out = take k bs @ out'"
      using "2.prems" by (auto split: if_splits prod.splits)
    then show ?thesis using "2.IH" [OF _ WROTE] "2.prems" by (cases "bs = []") auto
  qed (auto split: if_splits)
qed simp

subsection \<open>What each part leaves alone\<close>

lemma count_call_simps [simp]:
  "ag_uuid (count_call st) = ag_uuid st" "ag_event_buffer (count_call st) = ag_event_buffer st"
  "ag_dedup (count_call st) = ag_dedup st" "ag_recv_buf (count_call st) = ag_recv_buf st"
  "ag_blocklist (count_call st) = ag_blocklist st" "ag_soc_sent (count_call st) = ag_soc_sent st"
  "ag_soc_out (count_call st) = ag_soc_out st" "ag_fw_out (count_call st) = ag_fw_out st"
  "ag_soc_fd (count_call st) = ag_soc_fd st" "ag_fw_fd (count_call st) = ag_fw_fd st"
  "ag_calls (count_call st) = ag_calls st + 1"
  by (simp_all add: count_call_def)

lemma push_frame [simp]:
  "ag_uuid (push_blocklist_payload env p st) = ag_uuid st" "ag_event_buffer (push_blocklist_payload env p st) = ag_event_buffer st"
  "ag_dedup (push_blocklist_payload env p st) = ag_dedup st" "ag_recv_buf (push_blocklist_payload env p st) = ag_recv_buf st"
  "ag_blocklist (push_blocklist_payload env p st) = ag_blocklist st" "ag_soc_sent (push_blocklist_payload env p st) = ag_soc_sent st"
  by (simp_all add: push_blocklist_payload_def Let_def)

lemma load_frame [simp]:
  "ag_uuid (load_and_push_blocklist env st) = ag_uuid st" "ag_event_buffer (load_and_push_blocklist env st) = ag_event_buffer st"
  "ag_dedup (load_and_push_blocklist env st) = ag_dedup st" "ag_recv_buf (load_and_push_blocklist env st) = ag_recv_buf st"
  "ag_blocklist (load_and_push_blocklist env st) = ag_blocklist st" "ag_soc_sent (load_and_push_blocklist env st) = ag_soc_sent st"
  by (simp_all add: load_and_push_blocklist_def split: option.split)

lemma connect_frame [simp]:
  "ag_uuid (connect_to_firewall env st) = ag_uuid st" "ag_event_buffer (connect_to_firewall env st) = ag_event_buffer st"
  "ag_dedup (connect_to_firewall env st) = ag_dedup st" "ag_recv_buf (connect_to_firewall env st) = ag_recv_buf st"
  by (simp_all add: connect_to_firewall_def connect_netlink_def split: option.split)

lemma connect_soc_frame [simp]:
  "ag_uuid (fst (connect_to_soc env st)) = ag_uuid st" "ag_event_buffer (fst (connect_to_soc env st)) = ag_event_buffer st"
  "ag_dedup (fst (connect_to_soc env st)) = ag_dedup st" "ag_recv_buf (fst (connect_to_soc env st)) = ag_recv_buf st"
  "ag_soc_sent (fst (connect_to_soc env st)) = ag_soc_sent st" "ag_blocklist (fst (connect_to_soc env st)) = ag_blocklist st"
  by (simp_all add: connect_to_soc_def Let_def)

lemma transmit_frame [simp]:
  "ag_uuid (fst (soc_transmit env ty p st)) = ag_uuid st" "ag_event_buffer (fst (soc_transmit env ty p st)) = ag_event_buffer st"
  "ag_dedup (fst (soc_transmit env ty p st)) = ag_dedup st" "ag_recv_buf (fst (soc_transmit env ty p st)) = ag_recv_buf st"
  "ag_blocklist (fst (soc_transmit env ty p st)) = ag_blocklist st"
  by (simp_all add: soc_transmit_def Let_def split: option.split prod.split)

lemma send_soc_frame [simp]:
  "ag_uuid (fst (send_to_soc env ty p st)) = ag_uuid st" "ag_event_buffer (fst (send_to_soc env ty p st)) = ag_event_buffer st"
  "ag_dedup (fst (send_to_soc env ty p st)) = ag_dedup st" "ag_recv_buf (fst (send_to_soc env ty p st)) = ag_recv_buf st"
  "ag_blocklist (fst (send_to_soc env ty p st)) = ag_blocklist st"
  by (simp_all add: send_to_soc_def Let_def case_prod_beta)

lemma ping_frame [simp]:
  "ag_uuid (send_health_ping env st) = ag_uuid st" "ag_event_buffer (send_health_ping env st) = ag_event_buffer st"
  "ag_dedup (send_health_ping env st) = ag_dedup st" "ag_recv_buf (send_health_ping env st) = ag_recv_buf st"
  by (simp_all add: send_health_ping_def)

text \<open>What a message leaves in the log, by its return value.\<close>

lemma transmit_sent:
  "ag_soc_sent (fst (soc_transmit env ty p st)) = (if snd (soc_transmit env ty p st) = 0 then ag_soc_sent st @ [(ty, p)] else ag_soc_sent st)"
  by (simp add: soc_transmit_def Let_def split: option.split prod.split)

lemma send_soc_sent:
  "ag_soc_sent (fst (send_to_soc env ty p st)) = (if snd (send_to_soc env ty p st) = 0 then ag_soc_sent st @ [(ty, p)] else ag_soc_sent st)"
  by (simp add: send_to_soc_def Let_def case_prod_beta transmit_sent)

text \<open>The bytes of a message sent in full: header and envelope behind what was written before.\<close>

lemma transmit_bytes:
  assumes "soc_transmit env ty p st = (st', 0)" and "p \<noteq> []"
  shows "\<exists>c. aes_encrypt (ae_evp env (ag_calls st)) p = Some c \<and>
    ag_soc_out st' = ag_soc_out st @ encode_hdr (make_hdr (ag_uuid st) ty (length c)) @ c"
  using assms soc_write_loop_done
  by (auto simp: soc_transmit_def Let_def split: option.splits prod.splits if_splits)

subsection \<open>The invariant of the agent\<close>

definition agent_ok :: "agent_state \<Rightarrow> bool" where
  "agent_ok st \<longleftrightarrow> length (ag_uuid st) = 16 \<and> length (ag_event_buffer st) \<le> EVENT_BUFFER_SIZE \<and>
     list_all (\<lambda>e. length e = EVENT_SIZE) (ag_event_buffer st) \<and> dedup_ok (ag_dedup st) \<and> length (ag_recv_buf st) = 8192"

text \<open>The fields the invariant reads; most operations do not touch them.\<close>

definition core :: "agent_state \<Rightarrow> byte list \<times> raw_event list \<times> dedup \<times> byte list" where
  "core st = (ag_uuid st, ag_event_buffer st, ag_dedup st, ag_recv_buf st)"

lemma core_simps [simp]:
  "core (load_and_push_blocklist env st) = core st" "core (connect_to_firewall env st) = core st"
  "core (fst (connect_to_soc env st)) = core st" "core (fst (send_to_soc env ty p st)) = core st"
  "core (send_health_ping env st) = core st" "core (st\<lparr>ag_soc_fd := x\<rparr>) = core st" "core (st\<lparr>ag_fw_fd := x\<rparr>) = core st"
  "core (st\<lparr>ag_blocklist := f\<rparr>) = core st" "core (st\<lparr>ag_yara_rules := y\<rparr>) = core st" "core (st\<lparr>ag_soc_in := rs\<rparr>) = core st"
  "core (st\<lparr>ag_last_flush := t\<rparr>) = core st" "core (st\<lparr>ag_last_health_check := t\<rparr>) = core st"
  "core (st\<lparr>ag_reload_requested := b\<rparr>) = core st"
  by (simp_all add: core_def)

lemma agent_ok_core: "core st' = core st \<Longrightarrow> agent_ok st' = agent_ok st"
  by (simp add: core_def agent_ok_def)

lemma soc_command_core [simp]: "core (soc_command env ty d st) = core st"
  by (simp add: soc_command_def)

lemma soc_input_core [simp]: "core (fst (soc_input env st)) = core st"
  by (simp add: soc_input_def Let_def split: prod.split option.split)

lemma health_check_core [simp]: "core (health_check env st) = core st"
  by (simp add: health_check_def Let_def)

lemma buffer_event_ok [pool_inv]: "agent_ok st \<Longrightarrow> length e = EVENT_SIZE \<Longrightarrow> agent_ok (buffer_event e st)"
  by (simp add: agent_ok_def buffer_event_def)

lemma handle_event_ok [pool_inv]:
  assumes "agent_ok st" and "length e = EVENT_SIZE"
  shows "agent_ok (handle_event env e st)"
proof -
  have "agent_ok (st\<lparr>ag_dedup := fst (is_duplicate_alert e (ag_dedup st))\<rparr>)"
    using assms(1) is_duplicate_ok by (simp add: agent_ok_def)
  then show ?thesis
    using assms buffer_event_ok agent_ok_core [OF core_simps(4)] by (simp add: handle_event_def Let_def case_prod_beta)
qed

lemma fw_input_ok [pool_inv]:
  assumes "agent_ok st"
  shows "agent_ok (fst (fw_input env st))"
proof (cases "ag_userspace_mode st")
  case True
  then show ?thesis
    using assms handle_event_ok agent_ok_core [OF core_simps(7)] by (auto simp: fw_input_def split: read_result.split)
next
  case False
  have "agent_ok (st\<lparr>ag_recv_buf := take 8192 bs @ drop (length (take 8192 bs)) (ag_recv_buf st)\<rparr>)" for bs
    using assms by (simp add: agent_ok_def)
  moreover have "length e = EVENT_SIZE" if "nl_event n b = Some e" "length b = 8192" for n b e
    using that by (auto simp: nl_event_def EVENT_SIZE_def split: if_splits)
  ultimately show ?thesis
    using assms False handle_event_ok agent_ok_core [OF core_simps(7)]
    by (simp add: fw_input_def Let_def agent_ok_def [of st] split: read_result.split option.split)
qed

lemma flush_ok [pool_inv]: "agent_ok st \<Longrightarrow> agent_ok (flush_events env st)"
proof -
  assume ok: "agent_ok st"
  have "agent_ok (x\<lparr>ag_last_flush := t\<rparr>) = agent_ok x" for x t by (simp add: agent_ok_def)
  moreover have "agent_ok (fst (send_to_soc env ty p st))" for ty p using ok agent_ok_core [OF core_simps(4)] by simp
  moreover have "agent_ok (send_health_ping env st)" using ok agent_ok_core [OF core_simps(5)] by simp
  ultimately show ?thesis using ok by (auto simp: flush_events_def Let_def case_prod_beta) (simp add: agent_ok_def)
qed

lemma agent_round_ok [pool_inv]: "agent_ok st \<Longrightarrow> agent_ok (agent_round env st)"
proof -
  assume ok: "agent_ok st"
  have ready: "agent_ok (agent_ready env fds x)" if "agent_ok x" for x fds
  proof -
    let ?h = "health_check env x"
    let ?s = "if ag_soc_fd ?h \<ge> 0 \<and> ag_soc_fd ?h \<in> set fds then soc_input env ?h else (?h, False)"
    have s: "agent_ok (fst ?s)" using that agent_ok_core [OF soc_input_core] agent_ok_core [OF health_check_core] by simp
    let ?f = "if ag_fw_fd (fst ?s) \<ge> 0 \<and> ag_fw_fd (fst ?s) \<in> set fds then fw_input env (fst ?s) else (fst ?s, False)"
    have f: "agent_ok (fst ?f)" using s fw_input_ok by simp
    have "agent_ready env fds x = (if snd ?s then fst ?s else if snd ?f then fst ?f else flush_events env (fst ?f))"
      by (simp only: agent_ready_def Let_def case_prod_beta)
    then show ?thesis using s f flush_ok by simp
  qed
  define st1 where "st1 = (if ag_reload_requested st then load_and_push_blocklist env (st\<lparr>ag_reload_requested := False\<rparr>) else st)"
  define st2 where "st2 = (if ag_fw_fd st1 < 0
      then (let st = connect_to_firewall env st1 in if ag_fw_fd st \<ge> 0 then load_and_push_blocklist env st else st) else st1)"
  have "core st2 = core st" by (simp add: st1_def st2_def Let_def)
  then have "agent_ok st2" using ok agent_ok_core by blast
  moreover have "agent_round env st = (case ae_select env of SELECT_EINTR \<Rightarrow> st2 | SELECT_ERROR \<Rightarrow> st2
      | SELECT_READY fds \<Rightarrow> agent_ready env (filter (\<lambda>fd. fd = ag_fw_fd st2 \<or> fd = ag_soc_fd st2) fds) st2)"
    unfolding agent_round_def Let_def st1_def st2_def ..
  ultimately show ?thesis using ready by (simp split: select_result.split)
qed

lemma uuid_length: "length rnd = 16 \<Longrightarrow> length (fst (load_agent_uuid file urandom rnd)) = 16"
  by (simp add: load_agent_uuid_def generate_uuid_def Let_def split: option.split)

lemma agent_start_ok [pool_inv]: "length uuid = 16 \<Longrightarrow> length stack = 8192 \<Longrightarrow> agent_ok (agent_start env stack uuid file yara)"
proof -
  assume len: "length uuid = 16" "length stack = 8192"
  have "core (agent_start env stack uuid file yara) = (uuid, [], dedup_boot, stack)"
    by (simp add: agent_start_def Let_def) (simp add: core_def)
  then show ?thesis using len dedup_boot_ok by (simp add: core_def agent_ok_def)
qed

subsection \<open>Messages of the server\<close>

lemma soc_input_frame:
  assumes "flowing (ag_soc_in st)" and "pending (ag_soc_in st) = encode_hdr (make_hdr uuid ty (length c)) @ c @ rest"
    and "length uuid = 16" and "aes_encrypt e p = Some c" and "evp_ok e (ae_evp env (ag_calls st))"
    and "length c < 16777216" and "ae_malloc env"
  obtains rs where "soc_input env st = (soc_command env ty p (st\<lparr>ag_soc_in := rs\<rparr>), False)" "pending rs = rest" "flowing rs"
proof -
  let ?h = "make_hdr uuid ty (length c)"
  have ok: "hdr_ok ?h" and len: "body_len ?h = length c" using assms(3,6) by simp_all
  have enc: "length (encode_hdr ?h) = HDR_SIZE" using assms(3) by simp
  then have "HDR_SIZE \<le> length (pending (ag_soc_in st))" using assms(2) by simp
  then obtain rs1 where r1: "read_exact HDR_SIZE (ag_soc_in st) = (int HDR_SIZE, take HDR_SIZE (pending (ag_soc_in st)), rs1)"
      "pending rs1 = drop HDR_SIZE (pending (ag_soc_in st))" "flowing rs1"
    using read_exact_flowing [OF assms(1)] by blast
  then have p1: "pending rs1 = c @ rest" using assms(2) enc by simp
  then obtain rs2 where r2: "read_exact (length c) rs1 = (int (length c), c, rs2)" "pending rs2 = rest" "flowing rs2"
    using read_exact_flowing [OF r1(3), of "length c"] by auto
  have hdr: "parse_hdr (take HDR_SIZE (pending (ag_soc_in st))) = ?h"
    using framing.open_frame(1) [OF assms(5,4) ok len, of rest] assms(2) by simp
  have pos: "0 < length c" using aes.seal_nonempty [OF assms(5) _ assms(4)] by (simp add: AES_BLOCK_SIZE_def)
  have dec: "aes_decrypt (ae_evp env (ag_calls st)) c = Some p" using aes.unseal_seal [OF assms(5,4)] .
  have "soc_input env st = (soc_command env ty p (st\<lparr>ag_soc_in := rs2\<rparr>), False)"
    unfolding soc_input_def r1(1) Let_def using hdr pos r2(1) dec assms(6,7) len by (simp add: HDR_SIZE_def)
  with r2 that show thesis by blast
qed

subsection \<open>Properties\<close>

text \<open>C16: In every state the agent can reach, by rounds with arbitrary results of all system calls and signals at any
  time, the invariant holds: at most 512 events are buffered, each of the size of the struct, the ring of
  the duplicate filter is well formed, and the identity has 16 bytes.\<close>

theorem agent_reachable_invariant:
  assumes "agent_reachable st"
  shows "agent_ok st \<and> length (ag_event_buffer st) \<le> 512"
proof -
  from assms have "agent_ok st"
  proof (induction rule: agent_reachable.induct)
    case (start stack rnd env uuid_file urandom bl yara)
    then show ?case by (intro agent_start_ok uuid_length)
  next
    case (round st env)
    then show ?case by (intro agent_round_ok)
  next
    case (sighup st)
    then show ?case by (simp add: handle_sighup_def agent_ok_def)
  qed
  then show ?thesis by (simp add: agent_ok_def EVENT_BUFFER_SIZE_def)
qed

text \<open>A quiet environment: nothing can be reached, nothing arrives.\<close>

definition quiet_env :: agent_env where
  "quiet_env = \<lparr>ae_time = 0, ae_time_late = 0, ae_select = SELECT_READY [], ae_resolve_server = False, ae_resolve_localhost = False,
     ae_soc_socket = (\<lambda>_. - 1), ae_soc_connect = (\<lambda>_. False), ae_soc_stream = (\<lambda>_. []), ae_evp = (\<lambda>_. plain_evp),
     ae_hdr_write = (\<lambda>_. 25), ae_body_writes = (\<lambda>_. []), ae_nl_socket = - 1, ae_nl_bind = False, ae_nl_send = (\<lambda>_. False),
     ae_un_socket = - 1, ae_un_connect = False, ae_fw_write = (\<lambda>_. int PAYLOAD_SIZE), ae_fw_read = AGAIN, ae_malloc = True,
     ae_append_ok = True, ae_write_ok = True, ae_yara_ok = True, ae_health = replicate 24 NUL\<rparr>"

definition sample_agent :: agent_state where
  "sample_agent = agent_start quiet_env (replicate 8192 NUL) (replicate 16 (CHR ''u'')) None None"

theorem agent_reachable_invariant_witness:
  "agent_ok (agent_round quiet_env sample_agent)"
proof -
  have "fst (load_agent_uuid (Some (replicate 16 (CHR ''u''))) None (replicate 16 NUL)) = replicate 16 (CHR ''u'')"
    by (simp add: load_agent_uuid_def)
  then have "agent_reachable sample_agent"
    using agent_reachable.start [of "replicate 8192 NUL" "replicate 16 NUL" quiet_env "Some (replicate 16 (CHR ''u''))" None None None]
    unfolding sample_agent_def by (simp)
  then have "agent_reachable (agent_round quiet_env sample_agent)" by (rule agent_reachable.round)
  then show ?thesis using agent_reachable_invariant by blast
qed

text \<open>A flush that is due is all or nothing: either the server got one batch message with all buffered events in order and
  the buffer is empty, or the buffer is unchanged and the message was not completed.\<close>

theorem agent_flush_atomic:
  assumes "ag_last_flush st + 10 \<le> ae_time_late env" and "ag_event_buffer st \<noteq> []"
  shows "(let st' = flush_events env st in
    if snd (send_to_soc env MSG_TYPE_BATCH (concat (ag_event_buffer st)) st) = 0
    then ag_event_buffer st' = [] \<and> ag_soc_sent st' = ag_soc_sent st @ [(MSG_TYPE_BATCH, concat (ag_event_buffer st))]
    else ag_event_buffer st' = ag_event_buffer st \<and> ag_soc_sent st' = ag_soc_sent st)"
  using assms send_soc_sent [of env MSG_TYPE_BATCH "concat (ag_event_buffer st)" st]
  by (simp add: flush_events_def Let_def case_prod_beta)

theorem agent_flush_atomic_witness:
  "ag_event_buffer (flush_events (quiet_env\<lparr>ae_time_late := 10\<rparr>) (sample_agent\<lparr>ag_event_buffer := [sample_alert 1]\<rparr>)) = [sample_alert 1]"
proof -
  have st: "ag_soc_fd sample_agent = - 1" "ag_last_flush sample_agent = 0"
    by (simp_all add: sample_agent_def agent_start_def Let_def quiet_env_def connect_to_soc_def load_and_push_blocklist_def
        connect_to_firewall_def connect_netlink_def)
  then have "snd (send_to_soc (quiet_env\<lparr>ae_time_late := 10\<rparr>) MSG_TYPE_BATCH (concat [sample_alert 1]) (sample_agent\<lparr>ag_event_buffer := [sample_alert 1]\<rparr>)) = - 1"
    by (simp add: send_to_soc_def connect_to_soc_def quiet_env_def Let_def)
  then show ?thesis
    using agent_flush_atomic [of "sample_agent\<lparr>ag_event_buffer := [sample_alert 1]\<rparr>" "quiet_env\<lparr>ae_time_late := 10\<rparr>"] st
    by (simp add: Let_def)
qed

text \<open>Alerts are lost while the server is unreachable: a critical event that is not a duplicate is recorded in the duplicate
  filter before it is sent, and when sending fails it is neither buffered nor sent; a repetition within
  ten seconds is only buffered.\<close>

theorem agent_alert_lost_when_unreachable:
  assumes "raw_severity e = 2" and "is_duplicate_alert e (ag_dedup st) = (d, False)"
    and "snd (send_to_soc env MSG_TYPE_ALERT e (st\<lparr>ag_dedup := d\<rparr>)) \<noteq> 0" and "dedup_ok (ag_dedup st)"
    and "raw_severity e' = 2" "raw_src_ip e' = raw_src_ip e" "raw_threat_type e' = raw_threat_type e"
    and "raw_timestamp e \<le> raw_timestamp e'" "raw_timestamp e' - raw_timestamp e < 10"
  shows "(let st' = handle_event env e st in
    ag_event_buffer st' = ag_event_buffer st \<and> ag_soc_sent st' = ag_soc_sent st \<and>
    handle_event env' e' st' = buffer_event e' st')"
proof -
  let ?st = "st\<lparr>ag_dedup := d\<rparr>"
  let ?st' = "fst (send_to_soc env MSG_TYPE_ALERT e ?st)"
  have st': "handle_event env e st = ?st'" using assms(1,2) by (simp add: handle_event_def Let_def)
  have "remembers (dedup_record e) 0 d" using remembers_new [OF assms(4,2)] .
  moreover have "dedup_hit e' (dedup_record e)"
    using assms(6-9) by (simp add: dedup_hit_def dedup_record_def DEDUPLICATION_WINDOW_SECS_def)
  ultimately have "is_duplicate_alert e' d = (d, True)"
    using remembers_hit [of "dedup_record e" 0 d e'] by (auto simp: is_duplicate_alert_def split: if_splits)
  then have "handle_event env' e' ?st' = buffer_event e' (?st'\<lparr>ag_dedup := d\<rparr>)"
    using assms(5) by (simp add: handle_event_def Let_def)
  moreover have "?st'\<lparr>ag_dedup := d\<rparr> = ?st'" using send_soc_frame(3) [of env MSG_TYPE_ALERT e ?st] by (cases ?st') simp
  ultimately show ?thesis using assms(3) st' send_soc_sent [of env MSG_TYPE_ALERT e ?st] by (simp add: Let_def)
qed

theorem agent_alert_lost_when_unreachable_witness:
  "ag_event_buffer (handle_event quiet_env (sample_alert 100) sample_agent) = []"
proof -
  have st: "ag_soc_fd sample_agent = - 1" "ag_dedup sample_agent = dedup_boot" "ag_event_buffer sample_agent = []"
    by (simp_all add: sample_agent_def agent_start_def Let_def quiet_env_def connect_to_soc_def load_and_push_blocklist_def
        connect_to_firewall_def connect_netlink_def)
  obtain d where d: "is_duplicate_alert (sample_alert 100) (ag_dedup sample_agent) = (d, False)"
    by (simp add: st is_duplicate_alert_def dedup_scan_iff dedup_boot_def dedup_hit_def DEDUPLICATION_CACHE_SIZE_def)
  have "snd (send_to_soc quiet_env MSG_TYPE_ALERT (sample_alert 100) (sample_agent\<lparr>ag_dedup := d\<rparr>)) \<noteq> 0"
    using st by (simp add: send_to_soc_def connect_to_soc_def quiet_env_def Let_def)
  from agent_alert_lost_when_unreachable [OF _ d this, of "sample_alert 101" quiet_env] show ?thesis
    using st dedup_boot_ok by (simp add: Let_def)
qed

end
