(* ===== verification/Soc_Sql.thy ===== *)
theory Soc_Sql
  imports Fw_Prelude
begin

section \<open>The statements of the database layer (db.c)\<close>

text \<open>
  The SQL texts of \<^verbatim>\<open>db.c\<close>, one constant for each. Values never enter them: they are passed as
  parameters (\<^verbatim>\<open>$1\<close>, \<^verbatim>\<open>$2\<close>, ...), and \<open>db_statements\<close> is the list of all texts the server can execute.
\<close>

definition sql_register_agent :: string where
  \<open>sql_register_agent =
     ''INSERT INTO agents (uuid, hostname, ip, last_seen, status) VALUES ($1, $2, $3, NOW(), 'active') ON '' @
     ''CONFLICT (uuid) DO UPDATE SET hostname = EXCLUDED.hostname, ip = EXCLUDED.ip, last_seen = NOW(), '' @
     ''status = 'active';''\<close>

definition sql_remove_agent :: string where
  \<open>sql_remove_agent =
     ''DELETE FROM agents WHERE uuid = $1;''\<close>

definition sql_insert_event :: string where
  \<open>sql_insert_event =
     ''INSERT INTO events (agent_uuid, timestamp, src_ip, dest_ip, src_port, dest_port, threat_type, '' @
     ''severity, payload_preview, details) VALUES ($1, $2, $3, $4, $5, $6, $7, $8, $9, $10);''\<close>

definition sql_insert_agent_log :: string where
  \<open>sql_insert_agent_log =
     ''INSERT INTO agent_logs (agent_uuid, log_type, message, src_ip, created_at) VALUES ($1::uuid, $2, '' @
     ''$3, $4::inet, NOW())''\<close>

definition sql_search_agent_logs :: string where
  \<open>sql_search_agent_logs =
     ''SELECT l.id, l.agent_uuid::text, host(l.src_ip) as src_ip, l.log_type, l.message, '' @
     ''to_char(l.created_at, 'YYYY-MM-DD HH24:MI:SS') as created_at FROM agent_logs l WHERE l.message '' @
     ''ILIKE $1 OR l.log_type ILIKE $1 OR host(l.src_ip) ILIKE $1 ORDER BY l.created_at DESC LIMIT $2 '' @
     ''OFFSET $3''\<close>

definition sql_agent_logs :: string where
  \<open>sql_agent_logs =
     ''SELECT l.id, l.agent_uuid::text, host(l.src_ip) as src_ip, l.log_type, l.message, '' @
     ''to_char(l.created_at, 'YYYY-MM-DD HH24:MI:SS') as created_at FROM agent_logs l ORDER BY '' @
     ''l.created_at DESC LIMIT $1 OFFSET $2''\<close>

definition sql_agent_events :: string where
  \<open>sql_agent_events =
     ''SELECT id, agent_uuid, EXTRACT(EPOCH FROM timestamp)::bigint, src_ip, dest_ip, src_port, dest_port, '' @
     ''threat_type, severity, payload_preview, details FROM events WHERE agent_uuid = $1 ORDER BY id DESC '' @
     ''LIMIT $2 OFFSET $3;''\<close>

definition sql_events :: string where
  \<open>sql_events =
     ''SELECT id, agent_uuid, EXTRACT(EPOCH FROM timestamp)::bigint, src_ip, dest_ip, src_port, dest_port, '' @
     ''threat_type, severity, payload_preview, details FROM events ORDER BY id DESC LIMIT $1 OFFSET $2;''\<close>

definition sql_agents :: string where
  \<open>sql_agents =
     ''SELECT uuid, hostname, ip, EXTRACT(EPOCH FROM last_seen)::bigint, status, config::text FROM agents '' @
     ''ORDER BY last_seen DESC;''\<close>

definition sql_count_events :: string where
  \<open>sql_count_events =
     ''SELECT COUNT(*) FROM events;''\<close>

definition sql_count_threats :: string where
  \<open>sql_count_threats =
     ''SELECT threat_type, COUNT(*) FROM events GROUP BY threat_type;''\<close>

definition sql_count_severities :: string where
  \<open>sql_count_severities =
     ''SELECT severity, COUNT(*) FROM events GROUP BY severity;''\<close>

definition sql_timeline :: string where
  \<open>sql_timeline =
     ''SELECT EXTRACT(EPOCH FROM DATE_TRUNC('hour', timestamp))::bigint AS hr, COUNT(*) FROM events WHERE '' @
     ''timestamp >= NOW() - INTERVAL '24 hours' GROUP BY hr ORDER BY hr ASC;''\<close>

definition sql_add_blocklist :: string where
  \<open>sql_add_blocklist =
     ''INSERT INTO blocklist (ip_cidr, list_type, reason) VALUES ($1, $2, $3) ON CONFLICT DO NOTHING;''\<close>

definition sql_remove_blocklist :: string where
  \<open>sql_remove_blocklist =
     ''DELETE FROM blocklist WHERE ip_cidr = $1 AND list_type = $2;''\<close>

definition sql_blocklist :: string where
  \<open>sql_blocklist =
     ''SELECT id, host(ip_cidr) as ip_cidr, reason, created_at FROM blocklist WHERE list_type = $1 ORDER '' @
     ''BY id DESC;''\<close>

definition sql_update_reputation :: string where
  \<open>sql_update_reputation =
     ''INSERT INTO ip_reputation (ip, score, local_score, external_score, attack_types, last_seen) VALUES '' @
     ''($1, $2, $3, $4, string_to_array($5, ','), NOW()) ON CONFLICT (ip) DO UPDATE SET local_score = '' @
     ''LEAST(ip_reputation.local_score, EXCLUDED.local_score), external_score = '' @
     ''LEAST(ip_reputation.external_score, EXCLUDED.external_score), score = '' @
     ''LEAST(LEAST(ip_reputation.local_score, EXCLUDED.local_score), LEAST(ip_reputation.external_score, '' @
     ''EXCLUDED.external_score)), attack_types = ARRAY(SELECT DISTINCT '' @
     ''unnest(array_cat(coalesce(ip_reputation.attack_types, '{}'::text[]), '' @
     ''coalesce(EXCLUDED.attack_types, '{}'::text[])))), last_seen = NOW(), updated_at = NOW();''\<close>

definition sql_reputation_of :: string where
  \<open>sql_reputation_of =
     ''SELECT host(ip) as ip, score, local_score, external_score, array_to_string(attack_types, ','), '' @
     ''updated_at FROM ip_reputation WHERE ip = $1;''\<close>

definition sql_reputation :: string where
  \<open>sql_reputation =
     ''SELECT host(ip) as ip, score, local_score, external_score, array_to_string(attack_types, ','), '' @
     ''updated_at FROM ip_reputation ORDER BY score ASC LIMIT 100;''\<close>

definition sql_add_yara :: string where
  \<open>sql_add_yara =
     ''INSERT INTO yara_rules (name, content, updated_at) VALUES ($1, $2, NOW()) ON CONFLICT (name) DO '' @
     ''UPDATE SET content = EXCLUDED.content, updated_at = NOW();''\<close>

definition sql_delete_yara :: string where
  \<open>sql_delete_yara =
     ''DELETE FROM yara_rules WHERE name = $1;''\<close>

definition sql_yara :: string where
  \<open>sql_yara =
     ''SELECT id, name, content, enabled, match_count, updated_at FROM yara_rules ORDER BY name ASC;''\<close>

definition sql_set_config :: string where
  \<open>sql_set_config =
     ''INSERT INTO config (key, value, category, description, updated_at) VALUES ($1, $2::jsonb, $3, $4, '' @
     ''NOW()) ON CONFLICT (key) DO UPDATE SET value = EXCLUDED.value, updated_at = NOW();''\<close>

definition sql_config :: string where
  \<open>sql_config =
     ''SELECT key, value::text, category, description FROM config;''\<close>

definition sql_save_intel :: string where
  \<open>sql_save_intel =
     ''INSERT INTO threat_intel (feed_name, indicator_type, indicator_value, threat_type, confidence, '' @
     ''source_url) VALUES ($1, $2, $3, $4, $5, $6);''\<close>

definition sql_intel :: string where
  \<open>sql_intel =
     ''SELECT id, feed_name, indicator_type, indicator_value, threat_type, confidence, source_url, '' @
     ''fetched_at FROM threat_intel ORDER BY id DESC LIMIT 100;''\<close>

definition sql_agent_health :: string where
  \<open>sql_agent_health =
     ''UPDATE agents SET config = config || $1::jsonb, last_seen = NOW(), status = 'active' WHERE uuid = '' @
     ''$2::uuid;''\<close>

text \<open>The tables, whose creation must succeed.\<close>

definition db_tables :: "string list" where
  \<open>db_tables = [
     ''CREATE TABLE IF NOT EXISTS agents (  uuid UUID PRIMARY KEY,  hostname TEXT,  ip INET NOT NULL,  '' @
     ''last_seen TIMESTAMPTZ,  status TEXT DEFAULT 'unknown',  config JSONB DEFAULT '{}',  registered_at '' @
     ''TIMESTAMPTZ DEFAULT NOW());'',
     ''CREATE TABLE IF NOT EXISTS events (  id BIGSERIAL PRIMARY KEY,  agent_uuid UUID REFERENCES '' @
     ''agents(uuid) ON DELETE SET NULL,  timestamp TIMESTAMPTZ NOT NULL,  src_ip INET,  dest_ip INET,  '' @
     ''src_port INTEGER,  dest_port INTEGER,  threat_type INTEGER NOT NULL,  severity INTEGER NOT NULL,  '' @
     ''payload_preview TEXT,  details TEXT,  detection_module TEXT,  confidence INTEGER DEFAULT 100,  '' @
     ''created_at TIMESTAMPTZ DEFAULT NOW());'',
     ''CREATE TABLE IF NOT EXISTS ip_reputation (  ip INET PRIMARY KEY,  score INTEGER DEFAULT 100,  '' @
     ''local_score INTEGER DEFAULT 100,  external_score INTEGER DEFAULT 100,  total_blocks INTEGER DEFAULT '' @
     ''0,  attack_types TEXT[] DEFAULT '{}',  first_seen TIMESTAMPTZ DEFAULT NOW(),  last_seen TIMESTAMPTZ '' @
     ''DEFAULT NOW(),  manual_override INTEGER DEFAULT -1,  updated_at TIMESTAMPTZ DEFAULT NOW());'',
     ''CREATE TABLE IF NOT EXISTS threat_intel (  id BIGSERIAL PRIMARY KEY,  feed_name TEXT NOT NULL,  '' @
     ''indicator_type TEXT NOT NULL,  indicator_value TEXT NOT NULL,  threat_type TEXT,  confidence '' @
     ''INTEGER,  source_url TEXT,  raw_data JSONB DEFAULT '{}',  fetched_at TIMESTAMPTZ DEFAULT NOW(),  '' @
     ''expires_at TIMESTAMPTZ);'',
     ''CREATE TABLE IF NOT EXISTS yara_rules (  id SERIAL PRIMARY KEY,  name TEXT UNIQUE NOT NULL,  '' @
     ''content TEXT NOT NULL,  enabled BOOLEAN DEFAULT TRUE,  match_count INTEGER DEFAULT 0,  last_match '' @
     ''TIMESTAMPTZ,  created_at TIMESTAMPTZ DEFAULT NOW(),  updated_at TIMESTAMPTZ DEFAULT NOW());'',
     ''CREATE TABLE IF NOT EXISTS config (  key TEXT PRIMARY KEY,  value JSONB NOT NULL,  category TEXT '' @
     ''NOT NULL,  description TEXT,  updated_at TIMESTAMPTZ DEFAULT NOW());'',
     ''CREATE TABLE IF NOT EXISTS blocklist (  id SERIAL PRIMARY KEY,  ip_cidr CIDR NOT NULL,  list_type '' @
     ''TEXT NOT NULL DEFAULT 'block',  source TEXT DEFAULT 'manual',  reason TEXT,  added_by TEXT,  '' @
     ''created_at TIMESTAMPTZ DEFAULT NOW());'',
     ''CREATE TABLE IF NOT EXISTS ai_analysis_dataset (  id SERIAL PRIMARY KEY,  event_id BIGINT UNIQUE '' @
     ''REFERENCES events(id) ON DELETE CASCADE,  threat_detected BOOLEAN NOT NULL,  confidence INTEGER NOT '' @
     ''NULL,  explanation TEXT,  model_used TEXT,  analyzed_at TIMESTAMPTZ DEFAULT NOW());'']\<close>

text \<open>Indexes, the log table and a clean-up, whose results are ignored.\<close>

definition db_indexes :: "string list" where
  \<open>db_indexes = [
     ''CREATE INDEX IF NOT EXISTS idx_events_time ON events(timestamp DESC);'',
     ''CREATE INDEX IF NOT EXISTS idx_events_agent ON events(agent_uuid);'',
     ''CREATE INDEX IF NOT EXISTS idx_blocklist_type ON blocklist(list_type);'',
     ''CREATE INDEX IF NOT EXISTS idx_ai_dataset_event ON ai_analysis_dataset(event_id);'',
     ''CREATE TABLE IF NOT EXISTS agent_logs (  id BIGSERIAL PRIMARY KEY,  agent_uuid UUID,  log_type TEXT '' @
     ''NOT NULL DEFAULT 'info',  message TEXT,  src_ip INET,  created_at TIMESTAMPTZ DEFAULT NOW());'',
     ''CREATE INDEX IF NOT EXISTS idx_agent_logs_agent ON agent_logs(agent_uuid);'',
     ''CREATE INDEX IF NOT EXISTS idx_agent_logs_time ON agent_logs(created_at DESC);'',
     ''UPDATE ip_reputation SET attack_types = ARRAY(SELECT DISTINCT unnest(attack_types)) WHERE '' @
     ''attack_types IS NOT NULL;'']\<close>

definition db_statements :: "string list" where
  "db_statements = db_tables @ db_indexes @ [sql_register_agent, sql_remove_agent, sql_insert_event, sql_insert_agent_log,
     sql_search_agent_logs, sql_agent_logs, sql_agent_events, sql_events,
     sql_agents, sql_count_events, sql_count_threats, sql_count_severities,
     sql_timeline, sql_add_blocklist, sql_remove_blocklist, sql_blocklist,
     sql_update_reputation, sql_reputation_of, sql_reputation, sql_add_yara,
     sql_delete_yara, sql_yara, sql_set_config, sql_config,
     sql_save_intel, sql_intel, sql_agent_health]"

end
