(* ===== verification/Soc_Db.thy ===== *)
theory Soc_Db
  imports Soc_Sql Soc_Protocol Libc_Text
begin

section \<open>The database layer of the server (db.c)\<close>

text \<open>
  Every function of \<^verbatim>\<open>db.c\<close> executes statements through libpq and turns results into a return code or a
  JSON text. PostgreSQL is outside: \<open>db_log\<close> is the list of statements with their parameters in the order
  of execution, and the environment gives the result of the n-th one. Results are rows of texts; libpq
  returns the empty text for a missing value. \<^verbatim>\<open>%.2f\<close> of a double is the parameter \<open>pg_double\<close>, a function
  of the double's bytes.

  The library facts are the JSON escaping (it inverts, it stays inside its buffer), the growing string
  buffer, and that statement texts are constants.
\<close>

subsection \<open>Text helpers\<close>

definition uuid_to_str :: "byte list \<Rightarrow> string" where
  "uuid_to_str u = hex_bytes (take 4 u) @ ''-'' @ hex_bytes (take 2 (drop 4 u)) @ ''-'' @ hex_bytes (take 2 (drop 6 u)) @ ''-'' @
     hex_bytes (take 2 (drop 8 u)) @ ''-'' @ hex_bytes (take 6 (drop 10 u))"

definition ip_to_str :: "u32 \<Rightarrow> string" where
  "ip_to_str ip = inet_ntop ip"

text \<open>The growing buffer: its text and the allocated size.\<close>

record json_buf =
  jb_buf :: string
  jb_capacity :: nat

definition json_buf_init :: json_buf where
  "json_buf_init = \<lparr>jb_buf = [], jb_capacity = 4096\<rparr>"

definition json_buf_append :: "json_buf \<Rightarrow> string \<Rightarrow> json_buf" where
  "json_buf_append jb s =
     (let cap = (if length (jb_buf jb) + length s \<ge> jb_capacity jb then jb_capacity jb * 2 + length s + 1 else jb_capacity jb)
      in \<lparr>jb_buf = jb_buf jb @ s, jb_capacity = cap\<rparr>)"

text \<open>What the loop of \<^verbatim>\<open>escape_json_str\<close> writes for one character, and the loop over the text.\<close>

definition escape_char :: "char \<Rightarrow> string" where
  "escape_char c =
     (if c = CHR 0x22 \<or> c = CHR 0x5C \<or> c = CHR ''/'' then [CHR 0x5C, c]
      else if c = CHR 0x0A then [CHR 0x5C, CHR ''n'']
      else if c = CHR 0x0D then [CHR 0x5C, CHR ''r'']
      else if c = CHR 0x09 then [CHR 0x5C, CHR ''t'']
      else if ord c < 32 then []
      else [c])"

fun escape_loop :: "nat \<Rightarrow> string \<Rightarrow> string \<Rightarrow> string" where
  "escape_loop dest_len dest [] = dest"
| "escape_loop dest_len dest (c # cs) =
     (if length dest < dest_len - 4 then escape_loop dest_len (dest @ escape_char c) cs else dest)"

definition escape_json_str :: "string \<Rightarrow> nat \<Rightarrow> string" where
  "escape_json_str src dest_len = escape_loop dest_len [] (cstr src)"

subsection \<open>Dates\<close>

text \<open>
  \<^verbatim>\<open>gmtime\<close> and \<^verbatim>\<open>strftime\<close> with \<^verbatim>\<open>"%Y-%m-%d %H:%M:%S+00"\<close> for times from 1970 on. Days are counted from the
  first of March of the year 0, in eras of 400 years.
\<close>

definition civil_date :: "nat \<Rightarrow> nat \<times> nat \<times> nat" where
  "civil_date days =
     (let z = days + 719468; era = z div 146097; doe = z mod 146097;
          yoe = (doe - doe div 1460 + doe div 36524 - doe div 146096) div 365;
          doy = doe - (365 * yoe + yoe div 4 - yoe div 100);
          mp = (5 * doy + 2) div 153;
          d = doy - (153 * mp + 2) div 5 + 1;
          m = (if mp < 10 then mp + 3 else mp - 9)
      in (yoe + era * 400 + (if m \<le> 2 then 1 else 0), m, d))"

definition pad2 :: "nat \<Rightarrow> string" where
  "pad2 n = (if n < 10 then CHR ''0'' # dec_nat n else dec_nat n)"

definition timestamp_text :: "u64 \<Rightarrow> string" where
  "timestamp_text t =
     (let ts = unat t; (y, m, d) = civil_date (ts div 86400); s = ts mod 86400
      in dec_nat y @ ''-'' @ pad2 m @ ''-'' @ pad2 d @ '' '' @
         pad2 (s div 3600) @ '':'' @ pad2 (s div 60 mod 60) @ '':'' @ pad2 (s mod 60) @ ''+00'')"

subsection \<open>Executing statements\<close>

datatype pg_result = PGRES_COMMAND_OK | PGRES_TUPLES_OK "string list list" | PGRES_ERROR

record db_env =
  pg_connect :: "string \<Rightarrow> bool"
  pg_getenv :: "string \<Rightarrow> string option"
  pg_exec :: "nat \<Rightarrow> pg_result"
  pg_double :: "byte list \<Rightarrow> string"

record db_state =
  db_conn :: "string option"
  db_log :: "(string \<times> string option list) list"

definition db_exec_params_safe :: "db_env \<Rightarrow> string \<Rightarrow> string option list \<Rightarrow> db_state \<Rightarrow> db_state \<times> pg_result" where
  "db_exec_params_safe env sql params db =
     (db\<lparr>db_log := db_log db @ [(sql, params)]\<rparr>, pg_exec env (length (db_log db)))"

definition db_exec_safe :: "db_env \<Rightarrow> string \<Rightarrow> db_state \<Rightarrow> db_state \<times> pg_result" where
  "db_exec_safe env sql db = db_exec_params_safe env sql [] db"

text \<open>The common end of the functions that change data: 0 when the command succeeded, else -1.\<close>

definition db_command :: "db_env \<Rightarrow> string \<Rightarrow> string option list \<Rightarrow> db_state \<Rightarrow> db_state \<times> int" where
  "db_command env sql params db =
     (case db_exec_params_safe env sql params db of
        (db, res) \<Rightarrow> if res \<noteq> PGRES_COMMAND_OK then (db, - 1) else (db, 0))"

subsection \<open>Start\<close>

definition getenv_or :: "db_env \<Rightarrow> string \<Rightarrow> string \<Rightarrow> string" where
  "getenv_or env name dflt = (case pg_getenv env name of Some v \<Rightarrow> v | None \<Rightarrow> dflt)"

definition conn_string :: "db_env \<Rightarrow> string option \<Rightarrow> string" where
  "conn_string env conninfo =
     (case conninfo of Some s \<Rightarrow> take 1023 s
      | None \<Rightarrow> snprintf_buf 1024
          (''host='' @ getenv_or env ''PGHOST'' ''localhost'' @ '' port='' @ getenv_or env ''PGPORT'' ''5432'' @
           '' dbname='' @ getenv_or env ''PGDATABASE'' ''nullsploit'' @ '' user='' @ getenv_or env ''PGUSER'' ''nullsploit'' @
           '' password='' @ getenv_or env ''PGPASSWORD'' ''nullsploit_secure'' @ '' connect_timeout=10''))"

fun create_tables :: "db_env \<Rightarrow> string list \<Rightarrow> db_state \<Rightarrow> db_state \<times> int" where
  "create_tables env [] db = (db, 0)"
| "create_tables env (sql # sqls) db =
     (case db_exec_safe env sql db of
        (db, res) \<Rightarrow> if res \<noteq> PGRES_COMMAND_OK then (db, - 1) else create_tables env sqls db)"

definition db_init :: "db_env \<Rightarrow> string option \<Rightarrow> db_state \<Rightarrow> db_state \<times> int" where
  "db_init env conninfo db =
     (let s = conn_string env conninfo in
      if \<not> pg_connect env s then (db\<lparr>db_conn := None\<rparr>, - 1)
      else case create_tables env db_tables (db\<lparr>db_conn := Some s\<rparr>) of
             (db, rc) \<Rightarrow> if rc \<noteq> 0 then (db, - 1)
                        else (fold (\<lambda>sql db. fst (db_exec_safe env sql db)) db_indexes db, 0))"

definition db_close :: "db_state \<Rightarrow> db_state" where
  "db_close db = (if db_conn db \<noteq> None then db\<lparr>db_conn := None\<rparr> else db)"

subsection \<open>Changing data\<close>

definition db_register_agent :: "db_env \<Rightarrow> byte list \<Rightarrow> string \<Rightarrow> string \<Rightarrow> db_state \<Rightarrow> db_state \<times> int" where
  "db_register_agent env uuid hostname ip = db_command env sql_register_agent [Some (uuid_to_str uuid), Some hostname, Some ip]"

definition db_update_agent_last_seen :: "db_env \<Rightarrow> byte list \<Rightarrow> string \<Rightarrow> db_state \<Rightarrow> db_state \<times> int" where
  "db_update_agent_last_seen env uuid ip = db_register_agent env uuid ''Nullsploit-Agent'' ip"

definition db_remove_agent :: "db_env \<Rightarrow> byte list \<Rightarrow> db_state \<Rightarrow> db_state \<times> int" where
  "db_remove_agent env uuid = db_command env sql_remove_agent [Some (uuid_to_str uuid)]"

definition event_params :: "byte list \<Rightarrow> raw_event \<Rightarrow> string option list" where
  "event_params uuid event =
     [Some (uuid_to_str uuid), Some (timestamp_text (raw_timestamp event)), Some (ip_to_str (raw_src_ip event)),
      Some (ip_to_str (raw_dest_ip event)), Some (dec_nat (unat (ntohs (raw_src_port event)))),
      Some (dec_nat (unat (ntohs (raw_dest_port event)))), Some (dec_nat (unat (raw_threat_type event))),
      Some (dec_nat (unat (raw_severity event))), Some (raw_payload_preview event), Some (raw_details event)]"

definition db_insert_event :: "db_env \<Rightarrow> byte list \<Rightarrow> raw_event \<Rightarrow> db_state \<Rightarrow> db_state \<times> int" where
  "db_insert_event env uuid event = db_command env sql_insert_event (event_params uuid event)"

definition db_insert_agent_log ::
    "db_env \<Rightarrow> byte list option \<Rightarrow> string \<Rightarrow> string \<Rightarrow> string option \<Rightarrow> db_state \<Rightarrow> db_state \<times> int" where
  "db_insert_agent_log env uuid log_type message src_ip =
     db_command env sql_insert_agent_log
       [map_option uuid_to_str uuid, Some log_type, Some message,
        Some (case src_ip of Some ip \<Rightarrow> ip | None \<Rightarrow> ''0.0.0.0'')]"

definition db_add_to_blocklist :: "db_env \<Rightarrow> string \<Rightarrow> string \<Rightarrow> string \<Rightarrow> db_state \<Rightarrow> db_state \<times> int" where
  "db_add_to_blocklist env ip_cidr list_type reason =
     db_command env sql_add_blocklist [Some ip_cidr, Some list_type, Some reason]"

definition db_remove_from_blocklist :: "db_env \<Rightarrow> string \<Rightarrow> string \<Rightarrow> db_state \<Rightarrow> db_state \<times> int" where
  "db_remove_from_blocklist env ip_cidr list_type = db_command env sql_remove_blocklist [Some ip_cidr, Some list_type]"

definition db_update_ip_reputation :: "db_env \<Rightarrow> string \<Rightarrow> int \<Rightarrow> int \<Rightarrow> int \<Rightarrow> string \<Rightarrow> db_state \<Rightarrow> db_state \<times> int" where
  "db_update_ip_reputation env ip score local_score external_score attack_types =
     db_command env sql_update_reputation
       [Some ip, Some (dec_int score), Some (dec_int local_score), Some (dec_int external_score), Some attack_types]"

definition db_add_yara_rule :: "db_env \<Rightarrow> string \<Rightarrow> string \<Rightarrow> db_state \<Rightarrow> db_state \<times> int" where
  "db_add_yara_rule env name content = db_command env sql_add_yara [Some name, Some content]"

definition db_delete_yara_rule :: "db_env \<Rightarrow> string \<Rightarrow> db_state \<Rightarrow> db_state \<times> int" where
  "db_delete_yara_rule env name = db_command env sql_delete_yara [Some name]"

definition db_set_config :: "db_env \<Rightarrow> string \<Rightarrow> string \<Rightarrow> string \<Rightarrow> string \<Rightarrow> db_state \<Rightarrow> db_state \<times> int" where
  "db_set_config env key val category description =
     db_command env sql_set_config [Some key, Some val, Some category, Some description]"

definition db_save_threat_intel ::
    "db_env \<Rightarrow> string \<Rightarrow> string \<Rightarrow> string \<Rightarrow> string \<Rightarrow> int \<Rightarrow> string \<Rightarrow> db_state \<Rightarrow> db_state \<times> int" where
  "db_save_threat_intel env feed_name ind_type ind_val threat_type confidence source_url =
     db_command env sql_save_intel
       [Some feed_name, Some ind_type, Some ind_val, Some threat_type, Some (dec_int confidence), Some source_url]"

text \<open>The health report: two doubles and a 64-bit counter in 24 bytes.\<close>

definition health_json :: "db_env \<Rightarrow> byte list \<Rightarrow> string" where
  \<open>health_json env h =
     snprintf_buf 256 (''{"cpu":'' @ pg_double env (take 8 h) @ '',"mem":'' @ pg_double env (take 8 (drop 8 h)) @
       '',"uptime":'' @ dec_nat (unat (raw_timestamp (drop 16 h))) @ ''}'')\<close>

definition db_update_agent_health :: "db_env \<Rightarrow> byte list \<Rightarrow> byte list \<Rightarrow> db_state \<Rightarrow> db_state \<times> int" where
  "db_update_agent_health env uuid h = db_command env sql_agent_health [Some (health_json env h), Some (uuid_to_str uuid)]"

subsection \<open>Reading data\<close>

text \<open>The loop over the rows: a comma before every row but the first.\<close>

fun json_rows :: "(string list \<Rightarrow> string) \<Rightarrow> bool \<Rightarrow> string list list \<Rightarrow> json_buf \<Rightarrow> json_buf" where
  "json_rows f first [] jb = jb"
| "json_rows f first (row # rows) jb =
     json_rows f False rows (json_buf_append (if first then jb else json_buf_append jb '','') (f row))"

definition json_array :: "(string list \<Rightarrow> string) \<Rightarrow> pg_result \<Rightarrow> string" where
  "json_array f res =
     (case res of
        PGRES_TUPLES_OK rows \<Rightarrow>
          jb_buf (json_buf_append (json_rows f True rows (json_buf_append json_buf_init ''['')) '']'')
      | _ \<Rightarrow> ''[]'')"

text \<open>One \<^verbatim>\<open>"name":"value"\<close> and one \<^verbatim>\<open>"name":value\<close>.\<close>

definition json_str :: "string \<Rightarrow> string \<Rightarrow> string" where
  \<open>json_str name v = ''"'' @ name @ ''":"'' @ v @ ''"''\<close>

definition json_raw :: "string \<Rightarrow> string \<Rightarrow> string" where
  \<open>json_raw name v = ''"'' @ name @ ''":'' @ v\<close>

definition agent_log_row :: "string list \<Rightarrow> string" where
  "agent_log_row r = ''{'' @ json_raw ''id'' (r ! 0) @ '','' @ json_str ''agent_uuid'' (r ! 1) @ '','' @ json_str ''src_ip'' (r ! 2) @ '','' @
     json_str ''log_type'' (r ! 3) @ '','' @ json_str ''message'' (r ! 4) @ '','' @ json_str ''created_at'' (r ! 5) @ ''}''"

definition db_get_agent_logs_json :: "db_env \<Rightarrow> int \<Rightarrow> int \<Rightarrow> string option \<Rightarrow> db_state \<Rightarrow> db_state \<times> string" where
  "db_get_agent_logs_json env lim off search db =
     (case (case search of
              Some s \<Rightarrow>
                if length s > 0
                then db_exec_params_safe env sql_search_agent_logs
                       [Some (snprintf_buf 256 (''%'' @ s @ ''%'')), Some (dec_int lim), Some (dec_int off)] db
                else db_exec_params_safe env sql_agent_logs [Some (dec_int lim), Some (dec_int off)] db
            | None \<Rightarrow> db_exec_params_safe env sql_agent_logs [Some (dec_int lim), Some (dec_int off)] db) of
        (db, res) \<Rightarrow> (db, json_array agent_log_row res))"

definition event_row :: "string list \<Rightarrow> string" where
  "event_row r = ''{'' @ json_raw ''id'' (r ! 0) @ '','' @ json_str ''agent_uuid'' (r ! 1) @ '','' @ json_raw ''timestamp'' (r ! 2) @ '','' @
     json_str ''src_ip'' (r ! 3) @ '','' @ json_str ''dest_ip'' (r ! 4) @ '','' @ json_raw ''src_port'' (r ! 5) @ '','' @
     json_raw ''dest_port'' (r ! 6) @ '','' @ json_raw ''threat_type'' (r ! 7) @ '','' @ json_raw ''severity'' (r ! 8) @ '','' @
     json_str ''payload_preview'' (escape_json_str (r ! 9) 512) @ '','' @ json_str ''details'' (escape_json_str (r ! 10) 1024) @ ''}''"

definition db_get_events_json :: "db_env \<Rightarrow> int \<Rightarrow> int \<Rightarrow> string option \<Rightarrow> db_state \<Rightarrow> db_state \<times> string" where
  "db_get_events_json env lim off agent_filter db =
     (case (case agent_filter of
              Some a \<Rightarrow>
                if length a = 36
                then db_exec_params_safe env sql_agent_events [Some a, Some (dec_int lim), Some (dec_int off)] db
                else db_exec_params_safe env sql_events [Some (dec_int lim), Some (dec_int off)] db
            | None \<Rightarrow> db_exec_params_safe env sql_events [Some (dec_int lim), Some (dec_int off)] db) of
        (db, res) \<Rightarrow> (db, json_array event_row res))"

definition agent_row :: "string list \<Rightarrow> string" where
  "agent_row r = ''{'' @ json_str ''uuid'' (r ! 0) @ '','' @ json_str ''hostname'' (r ! 1) @ '','' @ json_str ''ip'' (r ! 2) @ '','' @
     json_raw ''last_seen'' (r ! 3) @ '','' @ json_str ''status'' (r ! 4) @ '','' @
     json_raw ''config'' (if length (r ! 5) > 0 then r ! 5 else ''{}'') @ ''}''"

definition db_get_agents_json :: "db_env \<Rightarrow> db_state \<Rightarrow> db_state \<times> string" where
  "db_get_agents_json env db = (case db_exec_safe env sql_agents db of (db, res) \<Rightarrow> (db, json_array agent_row res))"

text \<open>The rows of a result that may have failed.\<close>

definition tuples :: "pg_result \<Rightarrow> string list list" where
  "tuples res = (case res of PGRES_TUPLES_OK rows \<Rightarrow> rows | _ \<Rightarrow> [])"

definition count_row :: "string list \<Rightarrow> string" where
  "count_row r = json_raw (r ! 0) (r ! 1)"

definition timeline_row :: "string list \<Rightarrow> string" where
  "timeline_row r = ''{'' @ json_raw ''time'' (r ! 0) @ '','' @ json_raw ''count'' (r ! 1) @ ''}''"

definition db_get_stats_json :: "db_env \<Rightarrow> db_state \<Rightarrow> db_state \<times> string" where
  \<open>db_get_stats_json env db =
     (let jb = json_buf_append json_buf_init ''{'';
          (db, res) = db_exec_safe env sql_count_events db;
          total_events = (case tuples res of [] \<Rightarrow> 0 | row # _ \<Rightarrow> atoi (row ! 0));
          jb = json_buf_append jb (''"total_events":'' @ dec_int total_events @ '','');
          jb = json_buf_append jb ''"by_threat":{'';
          (db, res) = db_exec_safe env sql_count_threats db;
          jb = json_buf_append (json_rows count_row True (tuples res) jb) ''},'';
          jb = json_buf_append jb ''"by_severity":{'';
          (db, res) = db_exec_safe env sql_count_severities db;
          jb = json_buf_append (json_rows count_row True (tuples res) jb) ''},'';
          jb = json_buf_append jb ''"timeline":['';
          (db, res) = db_exec_safe env sql_timeline db;
          jb = json_buf_append (json_rows timeline_row True (tuples res) jb) '']''
      in (db, jb_buf (json_buf_append jb ''}'')))\<close>

definition blocklist_row :: "string list \<Rightarrow> string" where
  "blocklist_row r = ''{'' @ json_raw ''id'' (r ! 0) @ '','' @ json_str ''ip_cidr'' (r ! 1) @ '','' @ json_str ''reason'' (r ! 2) @ '','' @
     json_str ''created_at'' (r ! 3) @ ''}''"

definition db_get_blocklist_json :: "db_env \<Rightarrow> string \<Rightarrow> db_state \<Rightarrow> db_state \<times> string" where
  "db_get_blocklist_json env list_type db =
     (case db_exec_params_safe env sql_blocklist [Some list_type] db of (db, res) \<Rightarrow> (db, json_array blocklist_row res))"

definition reputation_row :: "string list \<Rightarrow> string" where
  "reputation_row r = ''{'' @ json_str ''ip'' (r ! 0) @ '','' @ json_raw ''score'' (r ! 1) @ '','' @ json_raw ''local_score'' (r ! 2) @ '','' @
     json_raw ''external_score'' (r ! 3) @ '','' @ json_str ''attack_types'' (r ! 4) @ '','' @ json_str ''updated_at'' (r ! 5) @ ''}''"

definition db_get_reputation_json :: "db_env \<Rightarrow> string option \<Rightarrow> db_state \<Rightarrow> db_state \<times> string" where
  "db_get_reputation_json env ip db =
     (case (case ip of Some a \<Rightarrow> db_exec_params_safe env sql_reputation_of [Some a] db | None \<Rightarrow> db_exec_safe env sql_reputation db) of
        (db, res) \<Rightarrow> (db, json_array reputation_row res))"

definition yara_row :: "string list \<Rightarrow> string" where
  "yara_row r = ''{'' @ json_raw ''id'' (r ! 0) @ '','' @ json_str ''name'' (r ! 1) @ '','' @
     json_str ''content'' (escape_json_str (r ! 2) 4096) @ '','' @
     json_raw ''enabled'' (if r ! 3 = ''t'' then ''true'' else ''false'') @ '','' @ json_raw ''match_count'' (r ! 4) @ '','' @
     json_str ''updated_at'' (r ! 5) @ ''}''"

definition db_get_yara_rules_json :: "db_env \<Rightarrow> db_state \<Rightarrow> db_state \<times> string" where
  "db_get_yara_rules_json env db = (case db_exec_safe env sql_yara db of (db, res) \<Rightarrow> (db, json_array yara_row res))"

definition config_row :: "string list \<Rightarrow> string" where
  \<open>config_row r = ''"'' @ r ! 0 @ ''":{'' @ json_raw ''value'' (r ! 1) @ '','' @ json_str ''category'' (r ! 2) @ '','' @
     json_str ''description'' (r ! 3) @ ''}''\<close>

definition db_get_config_json :: "db_env \<Rightarrow> db_state \<Rightarrow> db_state \<times> string" where
  "db_get_config_json env db =
     (case db_exec_safe env sql_config db of
        (db, res) \<Rightarrow>
          (db, case res of
                 PGRES_TUPLES_OK rows \<Rightarrow>
                   jb_buf (json_buf_append (json_rows config_row True rows (json_buf_append json_buf_init ''{'')) ''}'')
               | _ \<Rightarrow> ''{}''))"

definition intel_row :: "string list \<Rightarrow> string" where
  "intel_row r = ''{'' @ json_raw ''id'' (r ! 0) @ '','' @ json_str ''feed_name'' (r ! 1) @ '','' @ json_str ''indicator_type'' (r ! 2) @ '','' @
     json_str ''indicator_value'' (r ! 3) @ '','' @ json_str ''threat_type'' (r ! 4) @ '','' @ json_raw ''confidence'' (r ! 5) @ '','' @
     json_str ''source_url'' (r ! 6) @ '','' @ json_str ''fetched_at'' (r ! 7) @ ''}''"

definition db_get_threat_intel_json :: "db_env \<Rightarrow> db_state \<Rightarrow> db_state \<times> string" where
  "db_get_threat_intel_json env db = (case db_exec_safe env sql_intel db of (db, res) \<Rightarrow> (db, json_array intel_row res))"

text \<open>Any sequence of calls with any arguments.\<close>

inductive db_reachable :: "db_env \<Rightarrow> db_state \<Rightarrow> bool" for env where
  boot: "db_reachable env \<lparr>db_conn = None, db_log = []\<rparr>"
| init: "db_reachable env db \<Longrightarrow> db_reachable env (fst (db_init env conninfo db))"
| close: "db_reachable env db \<Longrightarrow> db_reachable env (db_close db)"
| register_agent: "db_reachable env db \<Longrightarrow> db_reachable env (fst (db_register_agent env uuid hostname ip db))"
| remove_agent: "db_reachable env db \<Longrightarrow> db_reachable env (fst (db_remove_agent env uuid db))"
| insert_event: "db_reachable env db \<Longrightarrow> db_reachable env (fst (db_insert_event env uuid event db))"
| insert_log: "db_reachable env db \<Longrightarrow> db_reachable env (fst (db_insert_agent_log env uuid' log_type message src_ip db))"
| add_blocklist: "db_reachable env db \<Longrightarrow> db_reachable env (fst (db_add_to_blocklist env cidr list_type reason db))"
| remove_blocklist: "db_reachable env db \<Longrightarrow> db_reachable env (fst (db_remove_from_blocklist env cidr list_type db))"
| reputation: "db_reachable env db \<Longrightarrow> db_reachable env (fst (db_update_ip_reputation env ip a b c types db))"
| add_yara: "db_reachable env db \<Longrightarrow> db_reachable env (fst (db_add_yara_rule env name content db))"
| delete_yara: "db_reachable env db \<Longrightarrow> db_reachable env (fst (db_delete_yara_rule env name db))"
| set_config: "db_reachable env db \<Longrightarrow> db_reachable env (fst (db_set_config env key val cat descr db))"
| save_intel: "db_reachable env db \<Longrightarrow> db_reachable env (fst (db_save_threat_intel env feed ty ind threat conf url db))"
| health: "db_reachable env db \<Longrightarrow> db_reachable env (fst (db_update_agent_health env uuid h db))"
| get_logs: "db_reachable env db \<Longrightarrow> db_reachable env (fst (db_get_agent_logs_json env lim off search db))"
| get_events: "db_reachable env db \<Longrightarrow> db_reachable env (fst (db_get_events_json env lim off agent db))"
| get_agents: "db_reachable env db \<Longrightarrow> db_reachable env (fst (db_get_agents_json env db))"
| get_stats: "db_reachable env db \<Longrightarrow> db_reachable env (fst (db_get_stats_json env db))"
| get_blocklist: "db_reachable env db \<Longrightarrow> db_reachable env (fst (db_get_blocklist_json env list_type db))"
| get_reputation: "db_reachable env db \<Longrightarrow> db_reachable env (fst (db_get_reputation_json env ip' db))"
| get_yara: "db_reachable env db \<Longrightarrow> db_reachable env (fst (db_get_yara_rules_json env db))"
| get_config: "db_reachable env db \<Longrightarrow> db_reachable env (fst (db_get_config_json env db))"
| get_intel: "db_reachable env db \<Longrightarrow> db_reachable env (fst (db_get_threat_intel_json env db))"

subsection \<open>Statements\<close>

lemma db_command_log [simp]: "db_log (fst (db_command env sql params db)) = db_log db @ [(sql, params)]"
  by (simp add: db_command_def db_exec_params_safe_def)

lemma db_exec_log [simp]:
  "db_log (fst (db_exec_params_safe env sql params db)) = db_log db @ [(sql, params)]"
  "db_log (fst (db_exec_safe env sql db)) = db_log db @ [(sql, [])]"
  by (simp_all add: db_exec_params_safe_def db_exec_safe_def)

lemmas db_changes = db_register_agent_def db_remove_agent_def db_insert_event_def db_insert_agent_log_def
  db_add_to_blocklist_def db_remove_from_blocklist_def db_update_ip_reputation_def db_add_yara_rule_def
  db_delete_yara_rule_def db_set_config_def db_save_threat_intel_def db_update_agent_health_def

lemmas db_reads = db_get_agent_logs_json_def db_get_events_json_def db_get_agents_json_def db_get_stats_json_def
  db_get_blocklist_json_def db_get_reputation_json_def db_get_yara_rules_json_def db_get_config_json_def
  db_get_threat_intel_json_def

definition fixed_log :: "db_state \<Rightarrow> bool" where
  "fixed_log db \<longleftrightarrow> fst ` set (db_log db) \<subseteq> set db_statements"

lemma fixed_log_append: "db_log db' = db_log db @ [(sql, params)] \<Longrightarrow> sql \<in> set db_statements \<Longrightarrow> fixed_log db \<Longrightarrow> fixed_log db'"
  by (simp add: fixed_log_def)

lemma fixed_command: "sql \<in> set db_statements \<Longrightarrow> fixed_log db \<Longrightarrow> fixed_log (fst (db_command env sql params db))"
  by (rule fixed_log_append [OF db_command_log])

lemma fixed_exec_params: "sql \<in> set db_statements \<Longrightarrow> fixed_log db \<Longrightarrow> fixed_log (fst (db_exec_params_safe env sql params db))"
  by (rule fixed_log_append [OF db_exec_log(1)])

lemma fixed_exec: "sql \<in> set db_statements \<Longrightarrow> fixed_log db \<Longrightarrow> fixed_log (fst (db_exec_safe env sql db))"
  by (rule fixed_log_append [OF db_exec_log(2)])

lemma fixed_create_tables: "set sqls \<subseteq> set db_statements \<Longrightarrow> fixed_log db \<Longrightarrow> fixed_log (fst (create_tables env sqls db))"
proof (induction sqls arbitrary: db)
  case (Cons sql sqls)
  then show ?case using fixed_exec [of sql db env] by (simp add: case_prod_beta)
qed simp

lemma fixed_fold: "set sqls \<subseteq> set db_statements \<Longrightarrow> fixed_log db \<Longrightarrow> fixed_log (fold (\<lambda>sql db. fst (db_exec_safe env sql db)) sqls db)"
  by (induction sqls arbitrary: db) (simp_all add: fixed_exec)

lemma fixed_init: "fixed_log db \<Longrightarrow> fixed_log (fst (db_init env conninfo db))"
proof -
  assume "fixed_log db"
  then have "fixed_log (db\<lparr>db_conn := c\<rparr>)" for c by (simp add: fixed_log_def)
  moreover have "set db_tables \<subseteq> set db_statements" "set db_indexes \<subseteq> set db_statements" by (auto simp: db_statements_def)
  ultimately show ?thesis
    by (simp add: db_init_def Let_def case_prod_beta fixed_fold fixed_create_tables)
qed

lemma statements_listed: "set [sql_register_agent, sql_remove_agent, sql_insert_event, sql_insert_agent_log,
     sql_search_agent_logs, sql_agent_logs, sql_agent_events, sql_events, sql_agents, sql_count_events, sql_count_threats,
     sql_count_severities, sql_timeline, sql_add_blocklist, sql_remove_blocklist, sql_blocklist, sql_update_reputation,
     sql_reputation_of, sql_reputation, sql_add_yara, sql_delete_yara, sql_yara, sql_set_config, sql_config, sql_save_intel,
     sql_intel, sql_agent_health] \<subseteq> set db_statements"
  unfolding db_statements_def by auto

lemma db_reachable_fixed: "db_reachable env db \<Longrightarrow> fixed_log db"
proof (induction rule: db_reachable.induct)
  case boot
  then show ?case by (simp add: fixed_log_def)
next
  case (close db)
  then show ?case by (simp add: db_close_def fixed_log_def)
next
  case (get_stats db)
  then show ?case using statements_listed by (simp add: db_reads Let_def case_prod_beta fixed_exec)
qed (use statements_listed in
      \<open>simp_all add: fixed_init db_changes db_reads fixed_command fixed_exec_params fixed_exec case_prod_beta split: option.split\<close>)

subsection \<open>JSON\<close>

definition jb_ok :: "json_buf \<Rightarrow> bool" where
  "jb_ok jb \<longleftrightarrow> length (jb_buf jb) < jb_capacity jb"

lemma jb_init_ok [pool_inv]: "jb_ok json_buf_init"
  by (simp add: jb_ok_def json_buf_init_def)

lemma jb_append_ok [pool_inv]: "jb_ok jb \<Longrightarrow> jb_ok (json_buf_append jb s)"
  by (simp add: jb_ok_def json_buf_append_def Let_def)

lemma json_rows_ok [pool_inv]: "jb_ok jb \<Longrightarrow> jb_ok (json_rows f first rows jb)"
  by (induction f first rows jb rule: json_rows.induct) (simp_all add: jb_append_ok)

lemma jb_buf_append [simp]: "jb_buf (json_buf_append jb s) = jb_buf jb @ s"
  by (simp add: json_buf_append_def Let_def)

text \<open>The rows one after the other with commas between them.\<close>

fun comma_sep :: "string list \<Rightarrow> string" where
  "comma_sep [] = []"
| "comma_sep [x] = x"
| "comma_sep (x # xs) = x @ '','' @ comma_sep xs"

lemma comma_sep_Cons: "comma_sep (x # xs) = x @ concat (map (\<lambda>y. '','' @ y) xs)"
  by (induction xs arbitrary: x) simp_all

lemma json_rows_rest: "jb_buf (json_rows f False rows jb) = jb_buf jb @ concat (map (\<lambda>r. '','' @ f r) rows)"
  by (induction rows arbitrary: jb) simp_all

lemma json_array_text: "json_array f (PGRES_TUPLES_OK rows) = ''['' @ comma_sep (map f rows) @ '']''"
  by (cases rows) (simp_all add: json_array_def json_buf_init_def json_rows_rest comma_sep_Cons comp_def)

text \<open>The escaped text is that of whole characters, and at least half of the buffer is used if needed.\<close>

lemma escape_char_length: "length (escape_char c) \<le> 2"
  by (simp add: escape_char_def)

lemma escape_loop_chars:
  "\<exists>k. escape_loop n dest cs = dest @ concat (map escape_char (take k cs)) \<and>
     min (length cs) ((n - 4 - length dest + 1) div 2) \<le> k"
proof (induction cs arbitrary: dest)
  case (Cons c cs)
  show ?case
  proof (cases "length dest < n - 4")
    case True
    obtain k where k: "escape_loop n (dest @ escape_char c) cs = (dest @ escape_char c) @ concat (map escape_char (take k cs))"
      "min (length cs) ((n - 4 - length (dest @ escape_char c) + 1) div 2) \<le> k" using Cons.IH by blast
    have "(n - 4 - length dest + 1) div 2 \<le> Suc ((n - 4 - length (dest @ escape_char c) + 1) div 2)"
      using escape_char_length [of c] by simp
    then have "min (length (c # cs)) ((n - 4 - length dest + 1) div 2) \<le> Suc k"
      using k(2) unfolding min_def by (auto split: if_splits)
    then show ?thesis using True k(1) by (intro exI [of _ "Suc k"]) simp
  qed (auto intro: exI [of _ 0])
qed simp

lemma escape_loop_length: "length dest \<le> n - 3 \<Longrightarrow> 4 < n \<Longrightarrow> length (escape_loop n dest cs) \<le> n - 3"
proof (induction cs arbitrary: dest)
  case (Cons c cs)
  have "length (dest @ escape_char c) \<le> n - 3" if "length dest < n - 4"
    using that escape_char_length [of c] by simp
  then show ?case using Cons by simp
qed simp

text \<open>
  Reference: how a JSON parser reads a string, from behind the opening quote to the closing one; control
  characters inside are an error.
\<close>

definition json_unescape :: "char \<Rightarrow> char" where
  "json_unescape c = (if c = CHR ''n'' then CHR 0x0A else if c = CHR ''r'' then CHR 0x0D else if c = CHR ''t'' then CHR 0x09 else c)"

fun json_string :: "string \<Rightarrow> (string \<times> string) option" where
  "json_string [] = None"
| "json_string (c # s) =
     (if c = CHR 0x22 then Some ([], s)
      else if c = CHR 0x5C then
        (case s of [] \<Rightarrow> None | e # s' \<Rightarrow> map_option (\<lambda>(t, r). (json_unescape e # t, r)) (json_string s'))
      else if ord c < 32 then None
      else map_option (\<lambda>(t, r). (c # t, r)) (json_string s))"

definition json_visible :: "char \<Rightarrow> bool" where
  "json_visible c \<longleftrightarrow> 32 \<le> ord c \<or> c \<in> {CHR 0x0A, CHR 0x0D, CHR 0x09}"

lemma json_string_escape_char:
  "json_string (escape_char c @ s) = map_option (\<lambda>(t, r). (if json_visible c then c # t else t, r)) (json_string s)"
proof -
  have id: "map_option (\<lambda>(t, r). (t, r)) x = x" for x :: "(string \<times> string) option" by (cases x) auto
  consider "c \<in> {CHR 0x22, CHR 0x5C, CHR ''/''}" | "c \<in> {CHR 0x0A, CHR 0x0D, CHR 0x09}"
    | "ord c < 32" "c \<notin> {CHR 0x0A, CHR 0x0D, CHR 0x09}" | "c \<notin> {CHR 0x22, CHR 0x5C, CHR ''/''}" "32 \<le> ord c" by linarith
  then show ?thesis
  proof cases
    case 1
    then show ?thesis by (auto simp: escape_char_def json_unescape_def json_visible_def ord_def)
  next
    case 2
    then show ?thesis by (auto simp: escape_char_def json_unescape_def json_visible_def ord_def)
  next
    case 3
    then have "c \<notin> {CHR 0x22, CHR 0x5C, CHR ''/''}" by (auto simp: ord_def)
    then show ?thesis using 3 id by (simp add: escape_char_def json_visible_def)
  next
    case 4
    then have "c \<notin> {CHR 0x0A, CHR 0x0D, CHR 0x09}" by (auto simp: ord_def)
    then show ?thesis using 4 by (auto simp: escape_char_def json_visible_def)
  qed
qed

lemma json_string_escape:
  "json_string (concat (map escape_char cs) @ CHR 0x22 # rest) = Some (filter json_visible cs, rest)"
  by (induction cs) (simp_all add: json_string_escape_char)

subsection \<open>Properties\<close>

text \<open>No text that comes from outside is ever part of a statement: whatever sequence of database functions is called
  with whatever arguments and results, each executed statement is one of the fixed texts of the source.\<close>

theorem db_statements_fixed:
  assumes "db_reachable env db"
  shows "fst ` set (db_log db) \<subseteq> set db_statements"
  using db_reachable_fixed [OF assms] by (simp add: fixed_log_def)

definition sample_db :: db_env where
  "sample_db = \<lparr>pg_connect = (\<lambda>_. True), pg_getenv = (\<lambda>_. None), pg_exec = (\<lambda>_. PGRES_COMMAND_OK), pg_double = (\<lambda>_. ''0.00'')\<rparr>"

theorem db_statements_fixed_witness:
  "fst ` set (db_log (fst (db_delete_yara_rule sample_db ''x'' \<lparr>db_conn = None, db_log = []\<rparr>))) \<subseteq> set db_statements"
  by (rule db_statements_fixed [OF db_reachable.delete_yara [OF db_reachable.boot]])

text \<open>C28: Escaped text is safe inside a JSON string: a parser reads exactly the printable characters of the text and stops at
  the quote that follows it, whatever the text contains; the text is cut only at whole characters, not
  before half of the buffer is used, and the result with its terminator fits the buffer.\<close>

theorem db_escape_json_exact:
  assumes "4 < n"
  shows "length (escape_json_str src n) < n \<and>
    (\<exists>k. json_string (escape_json_str src n @ [CHR 0x22] @ rest) = Some (filter json_visible (take k (cstr src)), rest) \<and>
       min (length (cstr src)) ((n - 4) div 2) \<le> k)"
proof -
  obtain k where k: "escape_json_str src n = concat (map escape_char (take k (cstr src)))"
    "min (length (cstr src)) ((n - 4 + 1) div 2) \<le> k"
    using escape_loop_chars [of n "[]" "cstr src"] by (auto simp: escape_json_str_def)
  have "length (escape_json_str src n) \<le> n - 3"
    using escape_loop_length [of "[]" n "cstr src"] assms by (simp add: escape_json_str_def)
  moreover have "min (length (cstr src)) ((n - 4) div 2) \<le> k" using k(2) by linarith
  ultimately show ?thesis using k(1) assms json_string_escape [of "take k (cstr src)" rest] by auto
qed

theorem db_escape_json_exact_witness:
  "length (escape_json_str (replicate 40 (CHR 0x22)) 16) < 16"
  using db_escape_json_exact [of 16] by simp

end
