(* ===== verification/Auth.thy ===== *)
theory Auth
  imports Libc_Text Cidr
begin

section \<open>Login and session tokens (auth.c)\<close>

text \<open>
  The whitelist of client networks, the password check and the signed session tokens of the SOC
  server's web API. Outside the model, and parameters of it: the files (their text, or \<^term>\<open>None\<close> when
  they cannot be opened), random bytes, \<^verbatim>\<open>crypt\<close>, and \<^verbatim>\<open>HMAC\<close> with SHA-256, of which the code relies
  only on its giving 32 bytes.
\<close>

subsection \<open>Whitelist\<close>

record whitelist_entry =
  wl_ip :: u32
  wl_mask :: u8

definition MAX_WHITELIST :: nat where
  "MAX_WHITELIST = 256"

definition whitelist_line :: "string \<Rightarrow> whitelist_entry option" where
  "whitelist_line line =
     (case strtok wspace (cstr line) of None \<Rightarrow> None
      | Some (ip_str, _) \<Rightarrow>
          if hd ip_str = CHR ''#'' then None
          else map_option (\<lambda>(ip, m). \<lparr>wl_ip = ip, wl_mask = m\<rparr>) (parse_cidr ip_str))"

fun load_whitelist :: "whitelist_entry list \<Rightarrow> string list \<Rightarrow> whitelist_entry list" where
  "load_whitelist wl [] = wl"
| "load_whitelist wl (line # lines) =
     (if length wl < MAX_WHITELIST
      then load_whitelist (case whitelist_line line of None \<Rightarrow> wl | Some e \<Rightarrow> wl @ [e]) lines
      else wl)"

record auth_state =
  session_secret :: "byte list"
  secret_initialized :: bool
  whitelist :: "whitelist_entry list"

definition auth_init :: "byte list \<Rightarrow> string option \<Rightarrow> auth_state \<Rightarrow> auth_state" where
  "auth_init rand file st =
     (let st = (if \<not> secret_initialized st then st\<lparr>session_secret := rand, secret_initialized := True\<rparr> else st)
      in st\<lparr>whitelist := (case file of
           Some text \<Rightarrow> load_whitelist [] (fgets_lines 128 text)
         | None \<Rightarrow> [\<lparr>wl_ip = inet_addr4 127 0 0 1, wl_mask = 32\<rparr>])\<rparr>)"

fun whitelist_match :: "(u8 \<Rightarrow> u32) \<Rightarrow> u32 \<Rightarrow> whitelist_entry list \<Rightarrow> bool" where
  "whitelist_match ub client [] = False"
| "whitelist_match ub client (e # es) =
     (if cidr_match ub client (wl_ip e) (wl_mask e) then True else whitelist_match ub client es)"

definition auth_check_ip :: "(u8 \<Rightarrow> u32) \<Rightarrow> auth_state \<Rightarrow> string \<Rightarrow> bool" where
  "auth_check_ip ub st ip =
     (case inet_pton ip of None \<Rightarrow> False | Some client \<Rightarrow> whitelist_match ub client (whitelist st))"

subsection \<open>Passwords\<close>

text \<open>The user and hash of a line of the users file.\<close>

definition user_line :: "string \<Rightarrow> (string \<times> string) option" where
  "user_line line =
     (case strtok '':'' (cstr line) of None \<Rightarrow> None
      | Some (user, rest) \<Rightarrow> (case strtok wspace rest of None \<Rightarrow> None | Some (hash, _) \<Rightarrow> Some (user, hash)))"

text \<open>The loop stops at the first line of the user, whether or not the password matches.\<close>

fun login_loop :: "(string \<Rightarrow> string \<Rightarrow> string option) \<Rightarrow> string \<Rightarrow> string \<Rightarrow> string list \<Rightarrow> bool" where
  "login_loop crypt username password [] = False"
| "login_loop crypt username password (line # lines) =
     (case user_line line of
        Some (user, hash) \<Rightarrow>
          if user = username then crypt password hash = Some hash
          else login_loop crypt username password lines
      | None \<Rightarrow> login_loop crypt username password lines)"

definition auth_verify_login :: "(string \<Rightarrow> string \<Rightarrow> string option) \<Rightarrow> string option \<Rightarrow> string \<Rightarrow> string \<Rightarrow> bool" where
  "auth_verify_login crypt file username password =
     (case file of None \<Rightarrow> False | Some text \<Rightarrow> login_loop crypt username password (fgets_lines 256 text))"

subsection \<open>Session tokens\<close>

definition hmac_hex :: "(byte list \<Rightarrow> string \<Rightarrow> byte list) \<Rightarrow> byte list \<Rightarrow> string \<Rightarrow> string" where
  "hmac_hex hmac secret message = hex_bytes (take 32 (hmac secret message))"

definition token_message :: "string \<Rightarrow> int \<Rightarrow> string" where
  "token_message username expiry = snprintf_buf 256 (username @ '':'' @ dec_int expiry)"

definition auth_generate_session_token ::
    "(byte list \<Rightarrow> string \<Rightarrow> byte list) \<Rightarrow> auth_state \<Rightarrow> nat \<Rightarrow> string \<Rightarrow> nat \<Rightarrow> string" where
  "auth_generate_session_token hmac st now username max_len =
     (let expiry = int now + 8 * 3600
      in snprintf_buf max_len (username @ '':'' @ dec_int expiry @ '':'' @
           hmac_hex hmac (session_secret st) (token_message username expiry)))"

text \<open>\<^term>\<open>None\<close> is the return value -1, otherwise the user name copied out.\<close>

definition auth_verify_session_token ::
    "(byte list \<Rightarrow> string \<Rightarrow> byte list) \<Rightarrow> auth_state \<Rightarrow> nat \<Rightarrow> string \<Rightarrow> nat \<Rightarrow> string option" where
  "auth_verify_session_token hmac st now token max_len =
     (case strtok '':'' (take 511 token) of None \<Rightarrow> None
      | Some (username, rest) \<Rightarrow>
          (case strtok '':'' rest of None \<Rightarrow> None
           | Some (expiry_str, rest) \<Rightarrow>
               (case strtok wspace rest of None \<Rightarrow> None
                | Some (token_hmac, _) \<Rightarrow>
                    (let expiry = atoll expiry_str in
                     if int now \<ge> expiry then None
                     else if hmac_hex hmac (session_secret st) (token_message username expiry) \<noteq> token_hmac then None
                     else Some (take (max_len - 1) username)))))"

subsection \<open>Lemmas\<close>

lemma whitelist_match_iff:
  "whitelist_match ub client es \<longleftrightarrow> (\<exists>e\<in>set es. cidr_match ub client (wl_ip e) (wl_mask e))"
  by (induction es) auto

interpretation whitelist: cidr_list ub "\<lambda>es. (\<lambda>e. (wl_ip e, wl_mask e)) ` set es" "\<lambda>es client. whitelist_match ub client es" for ub
  by unfold_locales (auto simp: whitelist_match_iff)

lemma load_whitelist_bound: "length wl \<le> MAX_WHITELIST \<Longrightarrow> length (load_whitelist wl lines) \<le> MAX_WHITELIST"
  by (induction lines arbitrary: wl) (auto split: option.split)

lemma hmac_hex_token:
  assumes "length (hmac secret m) = 32"
  shows "length (hmac_hex hmac secret m) = 64" and "set (hmac_hex hmac secret m) \<inter> set wspace = {}"
proof -
  show "length (hmac_hex hmac secret m) = 64" using assms by (simp add: hmac_hex_def length_hex_bytes)
  show "set (hmac_hex hmac secret m) \<inter> set wspace = {}"
    using hex_byte_chars by (fastforce simp: hmac_hex_def hex_bytes_def)
qed

text \<open>What \<^verbatim>\<open>auth_verify_session_token\<close> makes of a token in the format of \<^verbatim>\<open>auth_generate_session_token\<close>.\<close>

definition session_token :: "string \<Rightarrow> nat \<Rightarrow> string \<Rightarrow> string" where
  "session_token username expiry mac = username @ '':'' @ dec_nat expiry @ '':'' @ mac"

lemma dec_int_nat: "dec_int (int n) = dec_nat n"
  by (simp add: dec_int_def)

lemma dec_nat_no_colon: "set (dec_nat n) \<inter> set '':'' = {}"
  using isdigit_not_special by (auto dest: set_dec_nat)

lemma verify_session_token:
  assumes "username \<noteq> []" and "CHR '':'' \<notin> set username" and "mac \<noteq> []" and "set mac \<inter> set wspace = {}"
    and "length (session_token username expiry mac) < 512"
  shows "auth_verify_session_token hmac st now (session_token username expiry mac) max_len =
    (if int now < min (int expiry) LLONG_MAX \<and>
        mac = hmac_hex hmac (session_secret st) (token_message username (min (int expiry) LLONG_MAX))
     then Some (take (max_len - 1) username) else None)"
proof -
  have cut: "take 511 (session_token username expiry mac) = username @ CHR '':'' # dec_nat expiry @ CHR '':'' # mac"
    using assms(5) by (simp add: session_token_def)
  have 1: "strtok '':'' (username @ CHR '':'' # dec_nat expiry @ CHR '':'' # mac) =
      Some (username, dec_nat expiry @ CHR '':'' # mac)"
    using assms(1,2) by (intro strtok_prefix) auto
  have 2: "strtok '':'' (dec_nat expiry @ CHR '':'' # mac) = Some (dec_nat expiry, mac)"
    using dec_nat_no_colon by (intro strtok_prefix) auto
  have 3: "strtok wspace mac = Some (mac, [])" using assms(3,4) by (rule strtok_all)
  have "atoll (dec_nat expiry) = min (int expiry) LLONG_MAX" using atoll_dec_nat [of "[]" expiry] by simp
  then show ?thesis by (auto simp add: auth_verify_session_token_def cut 1 2 3 Let_def not_le)
qed

lemma generate_session_token:
  assumes "length (session_token username (now + 28800) (hmac_hex hmac (session_secret st) (token_message username (int (now + 28800))))) < max_len"
  shows "auth_generate_session_token hmac st now username max_len =
    session_token username (now + 28800) (hmac_hex hmac (session_secret st) (token_message username (int (now + 28800))))"
proof -
  have "int now + 8 * 3600 = int (now + 28800)" by simp
  then show ?thesis
    using assms unfolding auth_generate_session_token_def Let_def snprintf_buf_def session_token_def
    by (simp only: dec_int_nat) simp
qed

text \<open>The token of a user who has just logged in.\<close>

lemma session_lifetime:
  assumes "username \<noteq> []" and "CHR '':'' \<notin> set username" and "\<And>m. length (hmac (session_secret st) m) = 32"
    and "length username + length (dec_nat (now + 28800)) + 66 < max_len" and "max_len \<le> 512" and "length username < out_len"
    and "now + 28800 < 2 ^ 63"
  shows "auth_verify_session_token hmac st later (auth_generate_session_token hmac st now username max_len) out_len =
    (if later < now + 28800 then Some username else None)"
proof -
  let ?mac = "hmac_hex hmac (session_secret st) (token_message username (int (now + 28800)))"
  have mac: "length ?mac = 64" "set ?mac \<inter> set wspace = {}" using assms(3) by (rule hmac_hex_token)+
  then have len: "length (session_token username (now + 28800) ?mac) < max_len"
    using assms(4) by (simp add: session_token_def)
  have "int (now + 28800) < 2 ^ 63" using assms(7) by (metis of_nat_less_iff of_nat_numeral of_nat_power)
  then have exp: "min (int (now + 28800)) LLONG_MAX = int (now + 28800)" by (simp add: LLONG_MAX_def)
  have "?mac \<noteq> []" "length (session_token username (now + 28800) ?mac) < 512" using mac(1) len assms(5) by auto
  from verify_session_token [OF assms(1,2) this(1) mac(2) this(2), of hmac st later out_len]
  have "auth_verify_session_token hmac st later (auth_generate_session_token hmac st now username max_len) out_len =
      (if later < now + 28800 then Some (take (out_len - 1) username) else None)"
    unfolding exp generate_session_token [OF len] by (simp del: of_nat_add)
  then show ?thesis using assms(6) by simp
qed

subsection \<open>Properties\<close>

text \<open>C15: A token in the server's format is accepted if and only if it has not expired and carries the MAC of its
  user and expiry under the secret of this run; the user name handed out is the one the MAC covers. Any
  other user, expiry or MAC in the token, a token of another secret included, is refused. The expiry may be any decimal number:
  one that does not fit \<^verbatim>\<open>long long\<close> counts, for the clock and for the MAC, as the largest value of the type.\<close>

theorem auth_token_exact:
  assumes "username \<noteq> []" and "CHR '':'' \<notin> set username" and "mac \<noteq> []" and "set mac \<inter> set wspace = {}"
    and "length (username @ '':'' @ dec_nat expiry @ '':'' @ mac) < 512"
  shows "auth_verify_session_token hmac st now (username @ '':'' @ dec_nat expiry @ '':'' @ mac) max_len =
    (let e = min (int expiry) (2 ^ 63 - 1) in
     if int now < e \<and> mac = hmac_hex hmac (session_secret st) (token_message username e)
     then Some (take (max_len - 1) username) else None)"
  unfolding Let_def LLONG_MAX_def [symmetric] using verify_session_token [OF assms(1-4), unfolded session_token_def, OF assms(5)] .

theorem auth_token_exact_witness:
  "auth_verify_session_token (\<lambda>_ _. replicate 32 NUL) \<lparr>session_secret = [], secret_initialized = True, whitelist = []\<rparr> 5
     (''eve'' @ '':'' @ dec_nat 9 @ '':'' @ ''beef'') 64 = None"
proof -
  have "hmac_hex (\<lambda>_ _. replicate 32 NUL) [] m \<noteq> ''beef''" for m
    using hmac_hex_token(1) [of "\<lambda>_ _. replicate 32 NUL" "[]" m] by auto
  then have "''beef'' \<noteq> hmac_hex (\<lambda>_ _. replicate 32 NUL) [] m" for m by metis
  then show ?thesis
    using auth_token_exact [of "''eve''" "''beef''" 9 "\<lambda>_ _. replicate 32 NUL"
        "\<lparr>session_secret = [], secret_initialized = True, whitelist = []\<rparr>" 5 64]
    by (simp add: wspace_def dec_nat_small Let_def)
qed

text \<open>A session lasts eight hours: the token issued for a user without a colon in the name is accepted, for
  exactly that user, by the server that issued it at every time before eight hours have passed, and
  refused from then on. HMAC-SHA256 is only assumed to give 32 bytes; the times fit \<^verbatim>\<open>time_t\<close>.\<close>

theorem auth_session_lifetime:
  assumes "username \<noteq> []" and "CHR '':'' \<notin> set username" and "\<And>m. length (hmac (session_secret st) m) = 32"
    and "length username + length (dec_nat (now + 28800)) + 66 < max_len" and "max_len \<le> 512" and "length username < out_len"
    and "now + 28800 < 2 ^ 63"
  shows "auth_verify_session_token hmac st later (auth_generate_session_token hmac st now username max_len) out_len =
    (if later < now + 28800 then Some username else None)"
  using assms by (rule session_lifetime)

theorem auth_session_lifetime_witness:
  "(let st = \<lparr>session_secret = ''k'', secret_initialized = True, whitelist = []\<rparr>; hmac = (\<lambda>k m. replicate 32 (CHR ''x''))
    in auth_verify_session_token hmac st 200 (auth_generate_session_token hmac st 100 ''admin'' 512) 64) = Some ''admin''"
  using auth_session_lifetime [of "''admin''" "\<lambda>k m. replicate 32 (CHR ''x'')" "\<lparr>session_secret = ''k'', secret_initialized = True, whitelist = []\<rparr>"
      100 512 64 200]
  by (simp add: dec_nat_step dec_nat_small)

text \<open>C29: With masks up to 32 in the file, a client may use the web API exactly if its address is written
  correctly and its leading mask bits agree with one of the whitelisted networks; the whitelist never
  holds more than 256 entries. Without the file only 127.0.0.1 may.\<close>

theorem auth_whitelist_exact:
  assumes "wl = whitelist (auth_init rand (Some text) st)" and "list_all (\<lambda>e. unat (wl_mask e) \<le> 32) wl"
  shows "auth_check_ip ub (auth_init rand (Some text) st) ip =
      (case inet_pton ip of None \<Rightarrow> False | Some client \<Rightarrow> list_ex (\<lambda>e. same_network client (wl_ip e) (wl_mask e)) wl) \<and>
    length wl \<le> 256 \<and>
    auth_check_ip ub (auth_init rand None st) (inet_ntop addr) = (addr = inet_addr4 127 0 0 1)"
proof -
  have masks: "snd ` (\<lambda>e. (wl_ip e, wl_mask e)) ` set wl \<subseteq> {m. unat m \<le> 32}"
    using assms(2) by (auto simp: list_all_iff)
  have "whitelist_match ub client wl = list_ex (\<lambda>e. same_network client (wl_ip e) (wl_mask e)) wl" for client
    unfolding whitelist.check_networks [OF masks] by (auto simp: list_ex_iff)
  then have 1: "auth_check_ip ub (auth_init rand (Some text) st) ip =
      (case inet_pton ip of None \<Rightarrow> False | Some client \<Rightarrow> list_ex (\<lambda>e. same_network client (wl_ip e) (wl_mask e)) wl)"
    using assms(1) by (simp add: auth_check_ip_def split: option.split)
  have 2: "length wl \<le> 256"
    using load_whitelist_bound [of "[]"] assms(1) by (simp add: auth_init_def Let_def MAX_WHITELIST_def)
  have "auth_check_ip ub (auth_init rand None st) (inet_ntop addr) = (addr = inet_addr4 127 0 0 1)"
    by (auto simp: auth_check_ip_def auth_init_def Let_def inet_pton_ntop cidr_match_def)
  with 1 2 show ?thesis by blast
qed

text \<open>The state before \<^verbatim>\<open>auth_init\<close>.\<close>

definition no_auth :: auth_state where
  "no_auth = \<lparr>session_secret = replicate 32 NUL, secret_initialized = False, whitelist = []\<rparr>"

theorem auth_whitelist_exact_witness:
  "auth_check_ip (\<lambda>_. 0) (auth_init [] (Some ''192.168.0.0/16'') no_auth) ''192.168.7.9''"
proof -
  let ?wl = "[\<lparr>wl_ip = inet_addr4 192 168 0 0, wl_mask = 16\<rparr>]"
  have wl: "?wl = whitelist (auth_init [] (Some ''192.168.0.0/16'') no_auth)"
    by (simp add: auth_init_def Let_def fgets_lines.simps fgets_line_def whitelist_line_def parse_cidr_def inet_pton_def
        MAX_WHITELIST_def cstr_simps)
  show ?thesis
    using auth_whitelist_exact [OF wl, of "\<lambda>_. 0" "''192.168.7.9''"]
    by (simp add: inet_pton_def cstr_simps same_network_def inet_addr4_def byte_swap32_def)
qed

end
