(* ===== verification/Soc_Receiver.thy ===== *)
theory Soc_Receiver
  imports Soc_Db Auth Posix_Io
begin

section \<open>The server's agent connections (soc\_receiver.c)\<close>

text \<open>
  The event loop of the SOC server as far as agents are concerned: accepting them, collecting their
  messages from non-blocking sockets, storing what they report, and sending commands down to them. Each
  handler of the loop is a function on \<open>soc_state\<close>.

  \<^item> Connections are structs shared between epoll and the table \<^verbatim>\<open>connected_agents\<close>; they are kept in
    \<open>srv_conns\<close>, addressed by their descriptor, and the 128 slots of the table hold descriptors.
  \<^item> \<open>srv_out\<close> is what was written to which socket, \<open>srv_forwarded\<close> the requests to the dashboard backend.
  \<^item> Every handler performs at most one encryption or decryption, so the environment of a step has one
    \<open>evp_env\<close>.
\<close>

subsection \<open>State and environment\<close>

definition MAX_SSE_CLIENTS :: nat where "MAX_SSE_CLIENTS = 32"
definition BUFFER_SIZE :: nat where "BUFFER_SIZE = 65536"
definition MAX_CONNECTED_AGENTS :: nat where "MAX_CONNECTED_AGENTS = 128"

record agent_connection =
  ac_fd :: int
  ac_client_ip :: string
  ac_buf :: "byte list"
  ac_bytes_read :: nat
  ac_payload_len :: nat
  ac_hdr :: "byte list"
  ac_header_received :: bool

record soc_env =
  sv_db :: db_env
  sv_evp :: evp_env
  sv_writes :: "int \<Rightarrow> write_result list"
  sv_sse_write :: "int \<Rightarrow> bool"
  sv_spring :: bool
  sv_ub_shift :: "u8 \<Rightarrow> u32"
  sv_junk :: "nat \<Rightarrow> nat"

record soc_state =
  srv_conns :: "int \<Rightarrow> agent_connection option"
  srv_agents :: "int option list"
  srv_sse :: "int list"
  srv_db :: db_state
  srv_auth :: auth_state
  srv_out :: "(int \<times> byte list) list"
  srv_forwarded :: "string list"

text \<open>A run of bytes stored at an offset of a buffer.\<close>

definition poke :: "'a list \<Rightarrow> nat \<Rightarrow> 'a list \<Rightarrow> 'a list" where
  "poke buf off bs = take off buf @ bs @ drop (off + length bs) buf"

definition conn_uuid :: "agent_connection \<Rightarrow> byte list" where
  "conn_uuid c = hdr_agent_uuid (parse_hdr (ac_hdr c))"

definition put_conn :: "int \<Rightarrow> agent_connection \<Rightarrow> soc_state \<Rightarrow> soc_state" where
  "put_conn fd c st = st\<lparr>srv_conns := (srv_conns st)(fd := Some c)\<rparr>"

definition log_agent :: "soc_env \<Rightarrow> byte list option \<Rightarrow> string \<Rightarrow> string \<Rightarrow> string \<Rightarrow> soc_state \<Rightarrow> soc_state" where
  "log_agent env uuid log_type message ip st =
     st\<lparr>srv_db := fst (db_insert_agent_log (sv_db env) uuid log_type message (Some ip) (srv_db st))\<rparr>"

subsection \<open>Live clients of the dashboard\<close>

definition sse_init :: "int list" where
  "sse_init = replicate MAX_SSE_CLIENTS (- 1)"

text \<open>Overwrite the first slot that holds a value.\<close>

fun set_first :: "'a \<Rightarrow> 'a \<Rightarrow> 'a list \<Rightarrow> 'a list" where
  "set_first old new [] = []"
| "set_first old new (x # xs) = (if x = old then new # xs else x # set_first old new xs)"

definition sse_add :: "int \<Rightarrow> soc_state \<Rightarrow> soc_state" where
  "sse_add fd st = st\<lparr>srv_sse := set_first (- 1) fd (srv_sse st)\<rparr>"

definition sse_remove :: "int \<Rightarrow> soc_state \<Rightarrow> soc_state" where
  "sse_remove fd st = st\<lparr>srv_sse := set_first fd (- 1) (srv_sse st)\<rparr>"

text \<open>
  The text is cut to the buffer by \<^verbatim>\<open>snprintf\<close>, but written with the length it would have had: bytes past
  the buffer are those found there (none for the JSON texts of this server, which are shorter).
\<close>

definition sse_text :: "string \<Rightarrow> string" where
  "sse_text event_json = ''data: '' @ event_json @ [CHR 0x0A, CHR 0x0A]"

definition sse_broadcast :: "soc_env \<Rightarrow> string \<Rightarrow> soc_state \<Rightarrow> soc_state" where
  "sse_broadcast env event_json st =
     st\<lparr>srv_sse := map (\<lambda>fd. if fd \<noteq> - 1 \<and> \<not> sv_sse_write env fd then - 1 else fd) (srv_sse st),
        srv_out := srv_out st @
          map (\<lambda>fd. (fd, sse_text event_json)) (filter (\<lambda>fd. fd \<noteq> - 1 \<and> sv_sse_write env fd) (srv_sse st))\<rparr>"

definition CRLF :: string where "CRLF = [CHR 0x0D, CHR 0x0A]"

definition spring_request :: "string \<Rightarrow> string" where
  "spring_request event_json =
     ''POST /api/v2/internal/push-event HTTP/1.0'' @ CRLF @ ''Host: 127.0.0.1:8443'' @ CRLF @
     ''Content-Type: application/json'' @ CRLF @ ''Content-Length: '' @ dec_nat (length event_json) @ CRLF @
     ''X-Internal-Key: soc-receiver-forward'' @ CRLF @ ''Connection: close'' @ CRLF @ CRLF @ event_json"

definition forward_to_spring_boot :: "soc_env \<Rightarrow> string \<Rightarrow> soc_state \<Rightarrow> soc_state" where
  "forward_to_spring_boot env event_json st =
     (if \<not> sv_spring env then st
      else if length (spring_request event_json) \<ge> 8192 then st
      else st\<lparr>srv_forwarded := srv_forwarded st @ [spring_request event_json]\<rparr>)"

subsection \<open>The table of agents\<close>

definition register_connected_agent :: "int \<Rightarrow> soc_state \<Rightarrow> soc_state" where
  "register_connected_agent fd st = st\<lparr>srv_agents := set_first None (Some fd) (srv_agents st)\<rparr>"

definition client_ip_of :: "int \<Rightarrow> soc_state \<Rightarrow> string" where
  "client_ip_of fd st = (case srv_conns st fd of Some c \<Rightarrow> ac_client_ip c | None \<Rightarrow> [])"

definition unregister_connected_agent :: "soc_env \<Rightarrow> int \<Rightarrow> soc_state \<Rightarrow> soc_state" where
  "unregister_connected_agent env fd st =
     (if Some fd \<in> set (srv_agents st)
      then log_agent env None ''disconnect'' ''Agent disconnected'' (client_ip_of fd st)
             (st\<lparr>srv_agents := set_first (Some fd) None (srv_agents st)\<rparr>)
      else st)"

text \<open>Unregister, close, free.\<close>

definition drop_conn :: "soc_env \<Rightarrow> int \<Rightarrow> soc_state \<Rightarrow> soc_state" where
  "drop_conn env fd st = (unregister_connected_agent env fd st)\<lparr>srv_conns := (srv_conns st)(fd := None)\<rparr>"

subsection \<open>Commands to agents\<close>

text \<open>The bytes that went out and whether all did; a busy or interrupted socket is tried again.\<close>

fun write_all :: "byte list \<Rightarrow> write_result list \<Rightarrow> byte list \<times> bool \<times> write_result list" where
  "write_all bs [] = (bs, True, [])"
| "write_all bs (w # ws) =
     (if bs = [] then ([], True, w # ws)
      else case w of
        WROTE 0 \<Rightarrow> ([], False, ws)
      | WROTE (Suc k) \<Rightarrow> (case write_all (drop (Suc k) bs) ws of (out, ok, ws') \<Rightarrow> (take (Suc k) bs @ out, ok, ws'))
      | WRITE_RETRY \<Rightarrow> write_all bs ws
      | WRITE_FAILED \<Rightarrow> ([], False, ws))"

text \<open>
  \<^verbatim>\<open>sscanf(s, "%02x", &val)\<close> and the cast to a byte: white space, a sign, at most two characters; without a
  digit \<^verbatim>\<open>val\<close> keeps what was on the stack.
\<close>

definition scan_hex2 :: "nat \<Rightarrow> string \<Rightarrow> byte" where
  "scan_hex2 junk s =
     (let w = take 2 (dropWhile isspace s);
          signed = (w \<noteq> [] \<and> hd w \<in> {CHR ''+'', CHR ''-''});
          ds = takeWhile isxdigit (if signed then tl w else w);
          v = strtol16 ds
      in char_of (if ds = [] then junk mod 256 else if signed \<and> hd w = CHR ''-'' then (256 - v) mod 256 else v))"

definition parse_uuid_hex :: "(nat \<Rightarrow> nat) \<Rightarrow> string \<Rightarrow> byte list" where
  "parse_uuid_hex junk uuid_hex = map (\<lambda>i. scan_hex2 (junk i) (drop (2 * i) uuid_hex)) [0..<16]"

fun find_agent :: "byte list \<Rightarrow> (int \<Rightarrow> agent_connection option) \<Rightarrow> int option list \<Rightarrow> int option" where
  "find_agent uuid conns [] = None"
| "find_agent uuid conns (s # ss) =
     (case s of
        Some fd \<Rightarrow> (case conns fd of
                     Some c \<Rightarrow> if conn_uuid c = uuid then Some fd else find_agent uuid conns ss
                   | None \<Rightarrow> find_agent uuid conns ss)
      | None \<Rightarrow> find_agent uuid conns ss)"

definition send_command_to_agent :: "soc_env \<Rightarrow> string \<Rightarrow> u8 \<Rightarrow> byte list \<Rightarrow> soc_state \<Rightarrow> soc_state \<times> int" where
  "send_command_to_agent env uuid_hex command_type data st =
     (if length uuid_hex \<noteq> 32 then (st, - 1)
      else
        let target_uuid = parse_uuid_hex (sv_junk env) uuid_hex in
        (case find_agent target_uuid (srv_conns st) (srv_agents st) of
           None \<Rightarrow> (st, - 1)
         | Some fd \<Rightarrow>
             (case aes_encrypt (sv_evp env) data of
                None \<Rightarrow> (st, - 1)
              | Some encrypted \<Rightarrow>
                  (let hdr = encode_hdr (make_hdr target_uuid command_type (length encrypted));
                       (out1, ok1, ws) = write_all hdr (sv_writes env fd);
                       st = st\<lparr>srv_out := srv_out st @ [(fd, out1)]\<rparr>
                   in if \<not> ok1 then (st, - 1)
                      else let (out2, ok2, _) = write_all encrypted ws; st = st\<lparr>srv_out := srv_out st @ [(fd, out2)]\<rparr>
                           in if \<not> ok2 then (st, - 1) else (st, 0)))))"

subsection \<open>Messages of agents\<close>

text \<open>The connections other than this one that carry the same identity.\<close>

definition stale :: "int \<Rightarrow> byte list \<Rightarrow> soc_state \<Rightarrow> int \<Rightarrow> bool" where
  "stale fd uuid st f \<longleftrightarrow> f \<noteq> fd \<and> Some f \<in> set (srv_agents st) \<and>
     (case srv_conns st f of Some c \<Rightarrow> conn_uuid c = uuid | None \<Rightarrow> False)"

definition clean_stale :: "int \<Rightarrow> byte list \<Rightarrow> soc_state \<Rightarrow> soc_state" where
  "clean_stale fd uuid st =
     st\<lparr>srv_agents := map (\<lambda>s. case s of Some f \<Rightarrow> if stale fd uuid st f then None else s | None \<Rightarrow> None) (srv_agents st),
        srv_conns := (\<lambda>f. if stale fd uuid st f then None else srv_conns st f)\<rparr>"

definition alert_json :: "byte list \<Rightarrow> raw_event \<Rightarrow> string" where
  \<open>alert_json uuid ev = snprintf_buf 2048
     (''{'' @ json_str ''agent_uuid'' (hex_bytes uuid) @ '','' @ json_raw ''timestamp'' (dec_int (sint (raw_timestamp ev))) @ '','' @
      json_str ''src_ip'' (inet_ntop (raw_src_ip ev)) @ '','' @ json_str ''dest_ip'' (inet_ntop (raw_dest_ip ev)) @ '','' @
      json_raw ''src_port'' (dec_nat (unat (ntohs (raw_src_port ev)))) @ '','' @
      json_raw ''dest_port'' (dec_nat (unat (ntohs (raw_dest_port ev)))) @ '','' @
      json_raw ''threat_type'' (dec_nat (unat (raw_threat_type ev))) @ '','' @ json_raw ''severity'' (dec_nat (unat (raw_severity ev))) @ '','' @
      json_str ''payload_preview'' (raw_payload_preview ev) @ '','' @ json_str ''details'' (raw_details ev) @ ''}'')\<close>

definition alert_log :: "raw_event \<Rightarrow> string" where
  "alert_log ev = snprintf_buf 256
     (''ALERT threat_type='' @ dec_nat (unat (raw_threat_type ev)) @ '' severity='' @ dec_nat (unat (raw_severity ev)) @
      '' src='' @ inet_ntop (raw_src_ip ev) @ '' -> '' @ inet_ntop (raw_dest_ip ev))"

definition store_alert :: "soc_env \<Rightarrow> byte list \<Rightarrow> string \<Rightarrow> raw_event \<Rightarrow> soc_state \<Rightarrow> soc_state" where
  "store_alert env uuid ip ev st =
     (let st = st\<lparr>srv_db := fst (db_insert_event (sv_db env) uuid ev (srv_db st))\<rparr>;
          st = forward_to_spring_boot env (alert_json uuid ev) (sse_broadcast env (alert_json uuid ev) st)
      in log_agent env (Some uuid) ''alert'' (alert_log ev) ip st)"

text \<open>\<^verbatim>\<open>events[i]\<close> of a decrypted batch.\<close>

definition batch_event :: "byte list \<Rightarrow> nat \<Rightarrow> raw_event" where
  "batch_event d i = take EVENT_SIZE (drop (EVENT_SIZE * i) d)"

definition store_batch :: "soc_env \<Rightarrow> byte list \<Rightarrow> string \<Rightarrow> byte list \<Rightarrow> soc_state \<Rightarrow> soc_state" where
  "store_batch env uuid ip d st =
     (let num_events = length d div EVENT_SIZE;
          db = fold (\<lambda>i db. fst (db_insert_event (sv_db env) uuid (batch_event d i) db)) [0..<num_events] (srv_db st)
      in log_agent env (Some uuid) ''batch'' (snprintf_buf 128 (''BATCH received, '' @ dec_nat num_events @ '' events processed'')) ip
           (st\<lparr>srv_db := db\<rparr>))"

definition process_payload :: "soc_env \<Rightarrow> u8 \<Rightarrow> byte list \<Rightarrow> string \<Rightarrow> byte list \<Rightarrow> soc_state \<Rightarrow> soc_state" where
  "process_payload env msg_type uuid ip d st =
     (if msg_type = MSG_TYPE_ALERT then (if length d = EVENT_SIZE then store_alert env uuid ip d st else st)
      else if msg_type = MSG_TYPE_BATCH then store_batch env uuid ip d st
      else if msg_type = MSG_TYPE_PING then
        (if length d = HEALTH_SIZE then st\<lparr>srv_db := fst (db_update_agent_health (sv_db env) uuid d (srv_db st))\<rparr> else st)
      else st)"

definition process_agent_message :: "soc_env \<Rightarrow> int \<Rightarrow> soc_state \<Rightarrow> soc_state" where
  "process_agent_message env fd st =
     (case srv_conns st fd of None \<Rightarrow> st
      | Some conn \<Rightarrow>
          (let uuid = conn_uuid conn; ip = ac_client_ip conn; st = clean_stale fd uuid st;
               st = st\<lparr>srv_db := fst (db_update_agent_last_seen (sv_db env) uuid ip (srv_db st))\<rparr>
           in if ac_payload_len conn > 0 then
                (case aes_decrypt (sv_evp env) (take (ac_payload_len conn) (ac_buf conn)) of
                   None \<Rightarrow> log_agent env (Some uuid) ''error'' ''AES decryption failed'' ip st
                 | Some d \<Rightarrow> process_payload env (hdr_msg_type (parse_hdr (ac_hdr conn))) uuid ip d st)
              else log_agent env (Some uuid) ''heartbeat'' ''Heartbeat ping received'' ip st))"

subsection \<open>Events of the loop\<close>

definition new_conn :: "int \<Rightarrow> string \<Rightarrow> agent_connection" where
  "new_conn fd ip = \<lparr>ac_fd = fd, ac_client_ip = ip, ac_buf = replicate BUFFER_SIZE NUL, ac_bytes_read = 0, ac_payload_len = 0,
     ac_hdr = replicate HDR_SIZE NUL, ac_header_received = False\<rparr>"

definition accept_agent :: "soc_env \<Rightarrow> int \<Rightarrow> u32 \<Rightarrow> soc_state \<Rightarrow> soc_state" where
  "accept_agent env client_fd addr st =
     (if client_fd < 0 then st
      else let client_ip = inet_ntop addr in
        if \<not> auth_check_ip (sv_ub_shift env) (srv_auth st) client_ip then st
        else log_agent env None ''connect'' ''Agent connected'' client_ip
               (register_connected_agent client_fd (put_conn client_fd (new_conn client_fd client_ip) st)))"

text \<open>\<^verbatim>\<open>EPOLLRDHUP\<close>, \<^verbatim>\<open>EPOLLHUP\<close> or \<^verbatim>\<open>EPOLLERR\<close>.\<close>

definition agent_hangup :: "soc_env \<Rightarrow> int \<Rightarrow> soc_state \<Rightarrow> soc_state" where
  "agent_hangup env fd st = sse_remove fd (drop_conn env fd st)"

definition finish_message :: "soc_env \<Rightarrow> int \<Rightarrow> soc_state \<Rightarrow> soc_state" where
  "finish_message env fd st =
     (let st = process_agent_message env fd st in
      case srv_conns st fd of None \<Rightarrow> st
      | Some c \<Rightarrow> put_conn fd (c\<lparr>ac_header_received := False, ac_bytes_read := 0\<rparr>) st)"

text \<open>The part of the handler that reads the payload of \<^term>\<open>conn\<close>.\<close>

definition read_body ::
    "soc_env \<Rightarrow> read_result list \<Rightarrow> int \<Rightarrow> agent_connection \<Rightarrow> soc_state \<Rightarrow> soc_state \<times> read_result list" where
  "read_body env rs fd conn st =
     (if ac_payload_len conn = 0 then (finish_message env fd (put_conn fd conn st), rs)
      else (case sock_read (ac_payload_len conn - ac_bytes_read conn) rs of
              (GOT bs, rs) \<Rightarrow>
                (let conn = conn\<lparr>ac_buf := poke (ac_buf conn) (ac_bytes_read conn) bs,
                                 ac_bytes_read := ac_bytes_read conn + length bs\<rparr>;
                     st = put_conn fd conn st
                 in (if ac_bytes_read conn = ac_payload_len conn then finish_message env fd st else st, rs))
            | (AGAIN, rs) \<Rightarrow> (put_conn fd conn st, rs)
            | (_, rs) \<Rightarrow> (drop_conn env fd (put_conn fd conn st), rs)))"

definition agent_readable :: "soc_env \<Rightarrow> read_result list \<Rightarrow> int \<Rightarrow> soc_state \<Rightarrow> soc_state \<times> read_result list" where
  "agent_readable env rs fd st =
     (case srv_conns st fd of None \<Rightarrow> (st, rs)
      | Some conn \<Rightarrow>
          if ac_header_received conn then read_body env rs fd conn st
          else (case sock_read (HDR_SIZE - ac_bytes_read conn) rs of
              (GOT bs, rs) \<Rightarrow>
                (let conn = conn\<lparr>ac_hdr := poke (ac_hdr conn) (ac_bytes_read conn) bs,
                                 ac_bytes_read := ac_bytes_read conn + length bs\<rparr> in
                 if ac_bytes_read conn = HDR_SIZE then
                   (let hdr = parse_hdr (ac_hdr conn);
                        conn = conn\<lparr>ac_header_received := True, ac_payload_len := body_len hdr, ac_bytes_read := 0\<rparr>
                    in if ntohl (hdr_magic hdr) \<noteq> MAGIC_HEADER then (drop_conn env fd (put_conn fd conn st), rs)
                       else if ac_payload_len conn \<ge> BUFFER_SIZE then (drop_conn env fd (put_conn fd conn st), rs)
                       else read_body env rs fd conn st)
                 else (put_conn fd conn st, rs))
            | (AGAIN, rs) \<Rightarrow> (st, rs)
            | (_, rs) \<Rightarrow> (drop_conn env fd st, rs)))"

text \<open>\<^term>\<open>n\<close> readiness events of one connection in a row.\<close>

fun agent_serve :: "nat \<Rightarrow> soc_env \<Rightarrow> read_result list \<Rightarrow> int \<Rightarrow> soc_state \<Rightarrow> soc_state \<times> read_result list" where
  "agent_serve 0 env rs fd st = (st, rs)"
| "agent_serve (Suc n) env rs fd st =
     (if rs = [] then (st, rs) else case agent_readable env rs fd st of (st, rs) \<Rightarrow> agent_serve n env rs fd st)"

text \<open>
  A command of the local controller: 38 packed bytes, a hexadecimal identity of 33 bytes (the last made
  NUL), the command and an address. \<^term>\<open>bs\<close> is what the reading loop collected.
\<close>

definition local_command :: "soc_env \<Rightarrow> byte list \<Rightarrow> soc_state \<Rightarrow> soc_state" where
  "local_command env bs st =
     (if length bs = 38
      then fst (send_command_to_agent env (cstr (take 32 bs)) (of_char (bs ! 33)) (take 4 (drop 34 bs)) st)
      else st)"

text \<open>The handlers of the loop in any order.\<close>

inductive soc_reachable :: "soc_state \<Rightarrow> bool" where
  start: "soc_reachable \<lparr>srv_conns = (\<lambda>_. None), srv_agents = replicate MAX_CONNECTED_AGENTS None, srv_sse = sse_init,
      srv_db = db, srv_auth = auth, srv_out = [], srv_forwarded = []\<rparr>"
| accept: "soc_reachable st \<Longrightarrow> soc_reachable (accept_agent env fd addr st)"
| readable: "soc_reachable st \<Longrightarrow> soc_reachable (fst (agent_readable env rs fd st))"
| hangup: "soc_reachable st \<Longrightarrow> soc_reachable (agent_hangup env fd st)"
| command: "soc_reachable st \<Longrightarrow> soc_reachable (local_command env bs st)"
| live: "soc_reachable st \<Longrightarrow> soc_reachable (sse_add fd st)"

subsection \<open>Buffers and tables\<close>

lemma length_poke [simp]: "off + length bs \<le> length buf \<Longrightarrow> length (poke buf off bs) = length buf"
  by (simp add: poke_def)

lemma poke_Nil [simp]: "poke buf off [] = buf"
  by (simp add: poke_def)

lemma poke_poke:
  assumes "length xs + length ys \<le> length buf"
  shows "poke (poke buf 0 xs) (length xs) ys = poke buf 0 (xs @ ys)"
  using assms by (simp add: poke_def add.commute)

lemma poke_all: "length bs = length buf \<Longrightarrow> poke buf 0 bs = bs"
  by (simp add: poke_def)

lemma take_poke: "take (length bs) (poke buf 0 bs) = bs"
  by (simp add: poke_def)

lemma length_set_first [simp]: "length (set_first a b xs) = length xs"
  by (induction xs) auto

lemma set_set_first: "set (set_first a b xs) \<subseteq> insert b (set xs)"
  by (induction xs) auto

definition conn_ok :: "agent_connection \<Rightarrow> bool" where
  "conn_ok c \<longleftrightarrow> length (ac_buf c) = BUFFER_SIZE \<and> length (ac_hdr c) = HDR_SIZE \<and> ac_payload_len c < BUFFER_SIZE \<and>
     (if ac_header_received c then ac_bytes_read c < ac_payload_len c else ac_bytes_read c < HDR_SIZE)"

definition soc_ok :: "soc_state \<Rightarrow> bool" where
  "soc_ok st \<longleftrightarrow> length (srv_agents st) = MAX_CONNECTED_AGENTS \<and> length (srv_sse st) = MAX_SSE_CLIENTS \<and>
     (\<forall>fd c. srv_conns st fd = Some c \<longrightarrow> conn_ok c)"

lemma soc_ok_cong: "srv_agents st' = srv_agents st \<Longrightarrow> length (srv_sse st') = length (srv_sse st) \<Longrightarrow> srv_conns st' = srv_conns st \<Longrightarrow>
    soc_ok st \<Longrightarrow> soc_ok st'"
  by (simp add: soc_ok_def)

lemma log_agent_simps [simp]:
  "srv_conns (log_agent env u t m ip st) = srv_conns st" "srv_agents (log_agent env u t m ip st) = srv_agents st"
  "srv_sse (log_agent env u t m ip st) = srv_sse st" "srv_auth (log_agent env u t m ip st) = srv_auth st"
  "srv_out (log_agent env u t m ip st) = srv_out st"
  by (simp_all add: log_agent_def)

lemma put_conn_simps [simp]:
  "srv_conns (put_conn fd c st) fd = Some c" "srv_agents (put_conn fd c st) = srv_agents st" "srv_sse (put_conn fd c st) = srv_sse st"
  "srv_db (put_conn fd c st) = srv_db st" "put_conn fd c' (put_conn fd c st) = put_conn fd c' st"
  by (simp_all add: put_conn_def)

lemma put_conn_id: "srv_conns st fd = Some c \<Longrightarrow> put_conn fd c st = st"
  by (cases st) (simp add: put_conn_def fun_upd_idem)

lemma put_conn_ok [pool_inv]: "soc_ok st \<Longrightarrow> conn_ok c \<Longrightarrow> soc_ok (put_conn fd c st)"
  by (simp add: soc_ok_def put_conn_def)

lemma unregister_simps [simp]:
  "srv_conns (unregister_connected_agent env fd st) = srv_conns st" "srv_sse (unregister_connected_agent env fd st) = srv_sse st"
  "length (srv_agents (unregister_connected_agent env fd st)) = length (srv_agents st)"
  by (simp_all add: unregister_connected_agent_def)

lemma drop_conn_simps [simp]:
  "srv_conns (drop_conn env fd st) = (srv_conns st)(fd := None)" "srv_sse (drop_conn env fd st) = srv_sse st"
  "length (srv_agents (drop_conn env fd st)) = length (srv_agents st)"
  by (simp_all add: drop_conn_def unregister_connected_agent_def)

text \<open>Dropping a connection frees its struct, so it need not be well formed.\<close>

lemma drop_put_ok [pool_inv]: "soc_ok st \<Longrightarrow> soc_ok (drop_conn env fd (put_conn fd c st))"
  by (simp add: soc_ok_def put_conn_def)

lemma drop_ok [pool_inv]: "soc_ok st \<Longrightarrow> soc_ok (drop_conn env fd st)"
  by (simp add: soc_ok_def)

text \<open>Processing a message removes stale connections and touches no other.\<close>

lemma broadcast_simps [simp]:
  "srv_conns (sse_broadcast env j st) = srv_conns st" "srv_agents (sse_broadcast env j st) = srv_agents st"
  "length (srv_sse (sse_broadcast env j st)) = length (srv_sse st)" "srv_db (sse_broadcast env j st) = srv_db st"
  by (simp_all add: sse_broadcast_def)

lemma forward_simps [simp]:
  "srv_conns (forward_to_spring_boot env j st) = srv_conns st" "srv_agents (forward_to_spring_boot env j st) = srv_agents st"
  "srv_sse (forward_to_spring_boot env j st) = srv_sse st" "srv_db (forward_to_spring_boot env j st) = srv_db st"
  by (simp_all add: forward_to_spring_boot_def)

lemma process_payload_simps [simp]:
  "srv_conns (process_payload env ty u ip d st) = srv_conns st" "srv_agents (process_payload env ty u ip d st) = srv_agents st"
  "length (srv_sse (process_payload env ty u ip d st)) = length (srv_sse st)"
  by (simp_all add: process_payload_def store_alert_def store_batch_def Let_def)

lemma clean_stale_own: "srv_conns (clean_stale fd u st) fd = srv_conns st fd"
  by (simp add: clean_stale_def stale_def)

lemma process_conns:
  assumes "srv_conns st fd = Some c"
  shows "srv_conns (process_agent_message env fd st) = srv_conns (clean_stale fd (conn_uuid c) st)"
    "srv_agents (process_agent_message env fd st) = srv_agents (clean_stale fd (conn_uuid c) st)"
    "length (srv_sse (process_agent_message env fd st)) = length (srv_sse st)"
  using assms by (simp_all add: process_agent_message_def Let_def clean_stale_def split: option.split)

lemma finish_conn:
  assumes "srv_conns st fd = Some c"
  shows "srv_conns (finish_message env fd st) fd = Some (c\<lparr>ac_header_received := False, ac_bytes_read := 0\<rparr>)"
  using assms process_conns(1) [OF assms, of env] clean_stale_own [of fd "conn_uuid c" st]
  by (simp add: finish_message_def Let_def)

definition conn_full :: "agent_connection \<Rightarrow> bool" where
  "conn_full c \<longleftrightarrow> length (ac_buf c) = BUFFER_SIZE \<and> length (ac_hdr c) = HDR_SIZE \<and> ac_payload_len c < BUFFER_SIZE"

lemma finish_ok:
  assumes "soc_ok st" and "conn_full c"
  shows "soc_ok (finish_message env fd (put_conn fd c st))"
proof -
  let ?st = "put_conn fd c st"
  have own: "srv_conns ?st fd = Some c" by simp
  let ?p = "process_agent_message env fd ?st"
  have p: "srv_conns ?p fd = Some c" using process_conns(1) [OF own, of env] clean_stale_own [of fd _ ?st] by simp
  have "conn_ok (c\<lparr>ac_header_received := False, ac_bytes_read := 0\<rparr>)"
    using assms(2) by (simp add: conn_ok_def conn_full_def HDR_SIZE_def)
  moreover have "conn_ok x" if "srv_conns ?p f = Some x" "f \<noteq> fd" for f x
  proof -
    have "srv_conns ?st f = Some x"
      using that process_conns(1) [OF own, of env] by (auto simp: clean_stale_def split: if_splits)
    then show ?thesis using that(2) assms(1) by (auto simp: soc_ok_def put_conn_def)
  qed
  moreover have "length (srv_agents ?p) = MAX_CONNECTED_AGENTS" "length (srv_sse ?p) = MAX_SSE_CLIENTS"
    using process_conns(2,3) [OF own, of env] assms(1) by (simp_all add: soc_ok_def clean_stale_def)
  ultimately show ?thesis using p by (auto simp: finish_message_def Let_def soc_ok_def put_conn_def)
qed

lemma read_body_ok:
  assumes "soc_ok st" and "conn_full conn" and "ac_header_received conn"
    and "ac_bytes_read conn < ac_payload_len conn \<or> ac_payload_len conn = 0"
  shows "soc_ok (fst (read_body env rs fd conn st))"
proof (cases "ac_payload_len conn = 0")
  case True
  then show ?thesis using finish_ok [OF assms(1,2)] by (simp add: read_body_def)
next
  case False
  let ?n = "ac_payload_len conn - ac_bytes_read conn"
  have ok: "conn_ok conn" using assms(2-4) False by (simp add: conn_ok_def conn_full_def)
  obtain r rs' where r: "sock_read ?n rs = (r, rs')" by (cases "sock_read ?n rs")
  show ?thesis
  proof (cases r)
    case (GOT bs)
    let ?c = "conn\<lparr>ac_buf := poke (ac_buf conn) (ac_bytes_read conn) bs, ac_bytes_read := ac_bytes_read conn + length bs\<rparr>"
    have len: "length bs \<le> ?n" using sock_read_GOT [of ?n rs bs rs'] r GOT assms(4) False by simp
    then have "ac_bytes_read conn + length bs \<le> length (ac_buf conn)" using assms(2,4) False by (auto simp: conn_full_def)
    then have full: "conn_full ?c" using assms(2) by (simp add: conn_full_def)
    have "conn_ok ?c" if "ac_bytes_read ?c \<noteq> ac_payload_len ?c"
      using that full len assms(3,4) False by (simp add: conn_ok_def conn_full_def)
    then show ?thesis
      using False r GOT finish_ok [OF assms(1) full, of env fd] put_conn_ok [OF assms(1), of ?c fd]
      by (cases "ac_bytes_read conn + length bs = ac_payload_len conn") (simp_all add: read_body_def Let_def)
  qed (use False r assms(1) ok in \<open>simp_all add: read_body_def put_conn_ok drop_put_ok\<close>)
qed

lemma agent_readable_ok [pool_inv]:
  assumes "soc_ok st"
  shows "soc_ok (fst (agent_readable env rs fd st))"
proof (cases "srv_conns st fd")
  case (Some conn)
  then have ok: "conn_ok conn" using assms by (simp add: soc_ok_def)
  show ?thesis
  proof (cases "ac_header_received conn")
    case True
    then show ?thesis using read_body_ok [OF assms, of conn env rs fd] ok Some by (simp add: agent_readable_def conn_ok_def conn_full_def)
  next
    case False
    let ?n = "HDR_SIZE - ac_bytes_read conn"
    have pos: "0 < ?n" using ok False by (simp add: conn_ok_def)
    obtain r rs' where r: "sock_read ?n rs = (r, rs')" by (cases "sock_read ?n rs")
    show ?thesis
    proof (cases r)
      case (GOT bs)
      let ?c = "conn\<lparr>ac_hdr := poke (ac_hdr conn) (ac_bytes_read conn) bs, ac_bytes_read := ac_bytes_read conn + length bs\<rparr>"
      let ?h = "parse_hdr (ac_hdr ?c)"
      let ?d = "?c\<lparr>ac_header_received := True, ac_payload_len := body_len ?h, ac_bytes_read := 0\<rparr>"
      have len: "length bs \<le> ?n" using sock_read_GOT [of ?n rs bs rs'] r GOT pos by simp
      then have "ac_bytes_read conn + length bs \<le> length (ac_hdr conn)" using ok pos by (auto simp: conn_ok_def)
      then have hdr: "length (ac_hdr ?c) = HDR_SIZE" using ok by (simp add: conn_ok_def)
      then have "conn_ok ?c" if "ac_bytes_read ?c \<noteq> HDR_SIZE" using that ok False len pos by (auto simp: conn_ok_def)
      moreover have "soc_ok (fst (read_body env rs' fd ?d st))" if "body_len ?h < BUFFER_SIZE"
        using that ok hdr by (intro read_body_ok [OF assms]) (auto simp: conn_full_def conn_ok_def)
      ultimately show ?thesis
        using Some False r GOT assms
        by (simp add: agent_readable_def Let_def put_conn_ok drop_put_ok not_le [symmetric])
    qed (use Some False r assms in \<open>simp_all add: agent_readable_def drop_ok\<close>)
  qed
qed (use assms in \<open>simp add: agent_readable_def\<close>)

lemma new_conn_ok: "conn_ok (new_conn fd ip)"
  by (simp add: conn_ok_def new_conn_def BUFFER_SIZE_def HDR_SIZE_def)

lemma accept_ok [pool_inv]: "soc_ok st \<Longrightarrow> soc_ok (accept_agent env fd addr st)"
proof -
  assume ok: "soc_ok st"
  have "soc_ok (register_connected_agent fd (put_conn fd (new_conn fd ip) st))" for ip
    using put_conn_ok [OF ok new_conn_ok, of fd fd ip] by (simp add: soc_ok_def register_connected_agent_def)
  then have "soc_ok (log_agent env u t m ip' (register_connected_agent fd (put_conn fd (new_conn fd ip) st)))" for u t m ip' ip
    by (rule soc_ok_cong [rotated 3]) simp_all
  then show ?thesis using ok by (simp add: accept_agent_def Let_def)
qed

lemma send_command_simps [simp]:
  "srv_conns (fst (send_command_to_agent env u ty d st)) = srv_conns st"
  "srv_agents (fst (send_command_to_agent env u ty d st)) = srv_agents st"
  "srv_sse (fst (send_command_to_agent env u ty d st)) = srv_sse st"
  "srv_db (fst (send_command_to_agent env u ty d st)) = srv_db st"
  by (simp_all add: send_command_to_agent_def Let_def split: option.split prod.split)

lemma soc_reachable_ok: "soc_reachable st \<Longrightarrow> soc_ok st"
proof (induction rule: soc_reachable.induct)
  case (start db auth)
  then show ?case by (simp add: soc_ok_def sse_init_def)
next
  case (hangup st env fd)
  then show ?case by (simp add: agent_hangup_def sse_remove_def soc_ok_def)
next
  case (command st env bs)
  then show ?case by (auto simp: local_command_def intro: soc_ok_cong [of _ st])
next
  case (live st fd)
  then show ?case by (simp add: sse_add_def soc_ok_def)
qed (simp_all add: accept_ok agent_readable_ok)

subsection \<open>Messages put together from the stream\<close>

text \<open>Non-blocking streams that deliver data and sometimes have none.\<close>

definition polite :: "read_result list \<Rightarrow> bool" where
  "polite rs \<longleftrightarrow> list_all (\<lambda>r. case r of GOT bs \<Rightarrow> bs \<noteq> [] | AGAIN \<Rightarrow> True | _ \<Rightarrow> False) rs"

definition stream_size :: "read_result list \<Rightarrow> nat" where
  "stream_size rs = length rs + length (pending rs)"

lemma sock_read_polite:
  assumes "polite rs" and "rs \<noteq> []" and "0 < n"
  obtains bs rs' where "sock_read n rs = (GOT bs, rs')" "bs \<noteq> []" "length bs \<le> n" "pending rs = bs @ pending rs'"
      "polite rs'" "stream_size rs' < stream_size rs"
    | rs' where "sock_read n rs = (AGAIN, rs')" "pending rs' = pending rs" "polite rs'" "stream_size rs' < stream_size rs"
proof -
  obtain r rs0 where rs: "rs = r # rs0" using assms(2) by (cases rs) auto
  have pol: "polite rs0" using assms(1) rs by (simp add: polite_def)
  show thesis
  proof (cases r)
    case (GOT bs)
    have ne: "bs \<noteq> []" using assms(1) rs GOT by (simp add: polite_def)
    show ?thesis
    proof (cases "length bs \<le> n")
      case True
      then show ?thesis using that(1) [of bs rs0] rs GOT ne pol by (simp add: stream_size_def)
    next
      case False
      then show ?thesis
        using that(1) [of "take n bs" "GOT (drop n bs) # rs0"] rs GOT ne pol assms(3) by (simp add: stream_size_def polite_def)
    qed
  next
    case AGAIN
    then show ?thesis using that(2) [of rs0] rs pol by (simp add: stream_size_def)
  qed (use assms(1) rs in \<open>simp_all add: polite_def\<close>)
qed

text \<open>The connection after the first \<^term>\<open>k\<close> bytes of a message with header bytes \<^term>\<open>H\<close> and body \<^term>\<open>c\<close>.\<close>

definition part :: "agent_connection \<Rightarrow> byte list \<Rightarrow> byte list \<Rightarrow> nat \<Rightarrow> agent_connection" where
  "part c0 H c k =
     (if k < HDR_SIZE then c0\<lparr>ac_hdr := poke (ac_hdr c0) 0 (take k H), ac_bytes_read := k\<rparr>
      else c0\<lparr>ac_hdr := H, ac_header_received := True, ac_payload_len := length c,
              ac_buf := poke (ac_buf c0) 0 (take (k - HDR_SIZE) c), ac_bytes_read := k - HDR_SIZE\<rparr>)"

definition idle :: "agent_connection \<Rightarrow> bool" where
  "idle c \<longleftrightarrow> conn_ok c \<and> \<not> ac_header_received c \<and> ac_bytes_read c = 0"

text \<open>What one complete message does to the server.\<close>

definition receive_message :: "soc_env \<Rightarrow> int \<Rightarrow> soc_state \<Rightarrow> byte list \<times> byte list \<Rightarrow> soc_state" where
  "receive_message env fd st m =
     (case srv_conns st fd of None \<Rightarrow> st
      | Some c0 \<Rightarrow> finish_message env fd (put_conn fd (part c0 (fst m) (snd m) (HDR_SIZE + length (snd m))) st))"

definition message_ok :: "byte list \<times> byte list \<Rightarrow> bool" where
  "message_ok m \<longleftrightarrow> length (fst m) = HDR_SIZE \<and> ntohl (hdr_magic (parse_hdr (fst m))) = MAGIC_HEADER \<and>
     body_len (parse_hdr (fst m)) = length (snd m) \<and> length (snd m) < BUFFER_SIZE"

lemma part_0: "idle c0 \<Longrightarrow> part c0 H c 0 = c0"
  by (simp add: part_def idle_def HDR_SIZE_def)

lemma receive_idle:
  assumes "srv_conns st fd = Some c0" "idle c0" "message_ok m"
  shows "\<exists>c. srv_conns (receive_message env fd st m) fd = Some c \<and> idle c"
proof -
  let ?c = "part c0 (fst m) (snd m) (HDR_SIZE + length (snd m))"
  have "idle (?c\<lparr>ac_header_received := False, ac_bytes_read := 0\<rparr>)"
    using assms(2,3) by (simp add: idle_def conn_ok_def part_def message_ok_def HDR_SIZE_def)
  then show ?thesis
    using finish_conn [of "put_conn fd ?c st" fd ?c env] assms(1) by (simp add: receive_message_def)
qed

lemma read_body_part:
  assumes "idle c0" "HDR_SIZE \<le> k" "k < HDR_SIZE + length c" "length c < BUFFER_SIZE"
    and "sock_read (HDR_SIZE + length c - k) rs = (GOT bs, rs')" "pending rs = drop (k - HDR_SIZE) c @ rest"
    and "length bs \<le> HDR_SIZE + length c - k" "pending rs = bs @ pending rs'"
  shows "read_body env rs fd (part c0 H c k) st =
      (if k + length bs = HDR_SIZE + length c
       then finish_message env fd (put_conn fd (part c0 H c (k + length bs)) st)
       else put_conn fd (part c0 H c (k + length bs)) st, rs')"
    and "pending rs' = drop (k + length bs - HDR_SIZE) c @ rest"
proof -
  let ?j = "k - HDR_SIZE"
  have n: "length c - ?j = HDR_SIZE + length c - k" using assms(2) by simp
  have app: "bs @ pending rs' = drop ?j c @ rest" using assms(6,8) by simp
  have "bs = take (length bs) (drop ?j c @ rest)" unfolding app [symmetric] by simp
  then have bs: "bs = take (length bs) (drop ?j c)" using assms(7) n by simp
  then have tk: "take (?j + length bs) c = take ?j c @ bs" by (metis take_add)
  have pk: "poke (poke (ac_buf c0) 0 (take ?j c)) ?j bs = poke (ac_buf c0) 0 (take (?j + length bs) c)"
    using poke_poke [of "take ?j c" bs "ac_buf c0"] assms(1,2,3,4,7) tk by (simp add: idle_def conn_ok_def)
  have j: "k + length bs - HDR_SIZE = ?j + length bs" using assms(2) by simp
  have ge: "(k < HDR_SIZE) = False" "(k + length bs < HDR_SIZE) = False" using assms(2) by simp_all
  have P: "(part c0 H c k)\<lparr>ac_buf := poke (ac_buf (part c0 H c k)) ?j bs, ac_bytes_read := ?j + length bs\<rparr> =
      part c0 H c (k + length bs)"
    by (simp only: part_def ge j if_False) (simp add: pk)
  have f: "ac_payload_len (part c0 H c k) = length c" "ac_bytes_read (part c0 H c k) = ?j"
    "ac_payload_len (part c0 H c (k + length bs)) = length c" "ac_bytes_read (part c0 H c (k + length bs)) = ?j + length bs"
    by (simp_all only: part_def ge j if_False) simp_all
  have c: "(length c = 0) = False" "(?j + length bs = length c) = (k + length bs = HDR_SIZE + length c)" using assms(2,3) by auto
  show "read_body env rs fd (part c0 H c k) st =
      (if k + length bs = HDR_SIZE + length c
       then finish_message env fd (put_conn fd (part c0 H c (k + length bs)) st)
       else put_conn fd (part c0 H c (k + length bs)) st, rs')"
    by (simp only: read_body_def Let_def f c n assms(5) P if_False prod.case read_result.case)
  have "pending rs' = drop (length bs) (drop ?j c @ rest)" unfolding app [symmetric] by simp
  moreover have "length bs + ?j = k + length bs - HDR_SIZE" using assms(2) by simp
  ultimately show "pending rs' = drop (k + length bs - HDR_SIZE) c @ rest"
    using assms(7) n by (simp add: drop_drop)
qed

text \<open>One readiness event brings the connection to a later position in the message.\<close>

definition message_bytes :: "byte list \<times> byte list \<Rightarrow> byte list" where
  "message_bytes m = fst m @ snd m"

definition arrived :: "soc_env \<Rightarrow> int \<Rightarrow> soc_state \<Rightarrow> agent_connection \<Rightarrow> byte list \<times> byte list \<Rightarrow> nat \<Rightarrow> soc_state" where
  "arrived env fd st c0 m k =
     (if k = length (message_bytes m) then finish_message env fd (put_conn fd (part c0 (fst m) (snd m) k) st)
      else put_conn fd (part c0 (fst m) (snd m) k) st)"

lemma body_step:
  assumes "idle c0" "message_ok m" "HDR_SIZE \<le> k" "k < length (message_bytes m) \<or> snd m = []"
    and "k \<le> length (message_bytes m)" "polite rs" "pending rs = drop k (message_bytes m) @ rest"
  obtains j rs' where "read_body env rs fd (part c0 (fst m) (snd m) k) st = (arrived env fd st c0 m j, rs')"
    "j \<le> length (message_bytes m)" "pending rs' = drop j (message_bytes m) @ rest" "polite rs'"
    "stream_size rs' \<le> stream_size rs" "rs \<noteq> [] \<Longrightarrow> snd m \<noteq> [] \<Longrightarrow> stream_size rs' < stream_size rs"
proof -
  let ?H = "fst m" and ?c = "snd m"
  have len: "length ?H = HDR_SIZE" "length ?c < BUFFER_SIZE" using assms(2) by (simp_all add: message_ok_def)
  have tot: "length (message_bytes m) = HDR_SIZE + length ?c" using len by (simp add: message_bytes_def)
  have f: "ac_payload_len (part c0 ?H ?c k) = length ?c" "ac_bytes_read (part c0 ?H ?c k) = k - HDR_SIZE"
    using assms(3) by (simp_all add: part_def)
  show thesis
  proof (cases "?c = []")
    case True
    then have "k = length (message_bytes m)" using assms(3,5) tot by simp
    then show ?thesis using that [of k rs] assms(6,7) f True by (simp add: read_body_def arrived_def)
  next
    case False
    then have k: "k < HDR_SIZE + length ?c" using assms(4) tot by simp
    have n: "length ?c - (k - HDR_SIZE) = HDR_SIZE + length ?c - k" using assms(3) by simp
    have "pending rs \<noteq> []" using assms(7) k tot by simp
    then have ne: "rs \<noteq> []" by auto
    have pos: "0 < HDR_SIZE + length ?c - k" using k by simp
    show ?thesis
    proof (rule sock_read_polite [OF assms(6) ne pos])
      fix bs rs'
      assume r: "sock_read (HDR_SIZE + length ?c - k) rs = (GOT bs, rs')" "length bs \<le> HDR_SIZE + length ?c - k"
        "pending rs = bs @ pending rs'" "polite rs'" "stream_size rs' < stream_size rs"
      have p: "pending rs = drop (k - HDR_SIZE) ?c @ rest" using assms(3,7) len(1) by (simp add: message_bytes_def)
      note body = read_body_part [OF assms(1,3) k len(2) r(1) p r(2,3)]
      have "pending rs' = drop (k + length bs) (message_bytes m) @ rest"
        using body(2) assms(3) len(1) by (simp add: message_bytes_def)
      then show thesis using that [of "k + length bs" rs'] body(1) [of env fd ?H st] r(2,4,5) tot k by (simp add: arrived_def)
    next
      fix rs'
      assume r: "sock_read (HDR_SIZE + length ?c - k) rs = (AGAIN, rs')" "pending rs' = pending rs" "polite rs'"
        "stream_size rs' < stream_size rs"
      have "read_body env rs fd (part c0 ?H ?c k) st = (put_conn fd (part c0 ?H ?c k) st, rs')"
        using False by (simp add: read_body_def f n r(1))
      then show thesis using that [of k rs'] r(2-4) assms(7) tot k by (simp add: arrived_def)
    qed
  qed
qed

lemma read_body_absorb: "read_body env rs fd c (put_conn fd c' st) = read_body env rs fd c st"
  by (simp add: read_body_def Let_def split: prod.split read_result.split)

text \<open>The header buffer, and what is left of the stream, after some more bytes of a header.\<close>

lemma header_bytes:
  assumes "idle c0" "message_ok m" "k < HDR_SIZE" "length bs \<le> HDR_SIZE - k" "bs @ unread = drop k (message_bytes m) @ rest"
  shows "poke (ac_hdr (part c0 (fst m) (snd m) k)) k bs = poke (ac_hdr c0) 0 (take (k + length bs) (fst m))"
    and "unread = drop (k + length bs) (message_bytes m) @ rest"
proof -
  let ?H = "fst m" and ?k = "k + length bs"
  have len: "length ?H = HDR_SIZE" using assms(2) by (simp add: message_ok_def)
  have c0: "length (ac_hdr c0) = HDR_SIZE" using assms(1) by (simp add: idle_def conn_ok_def)
  have kle: "?k \<le> HDR_SIZE" using assms(3,4) by simp
  have app: "bs @ unread = drop k ?H @ snd m @ rest" using assms(3,5) len by (simp add: message_bytes_def)
  have "bs = take (length bs) (bs @ unread)" by simp
  then have "bs = take (length bs) (drop k ?H)" unfolding app using assms(4) len by simp
  then have "take ?k ?H = take k ?H @ bs" by (metis take_add)
  then show "poke (ac_hdr (part c0 ?H (snd m) k)) k bs = poke (ac_hdr c0) 0 (take ?k ?H)"
    using poke_poke [of "take k ?H" bs "ac_hdr c0"] c0 kle len assms(3) by (simp add: part_def)
  have "unread = drop (length bs) (bs @ unread)" by simp
  then show "unread = drop ?k (message_bytes m) @ rest" unfolding app using kle len by (simp add: message_bytes_def add.commute)
qed

lemma header_step:
  assumes "idle c0" "message_ok m" "k < HDR_SIZE" "rs \<noteq> []" "polite rs" "pending rs = drop k (message_bytes m) @ rest"
  obtains j rs' where
    "agent_readable env rs fd (put_conn fd (part c0 (fst m) (snd m) k) st) = (arrived env fd st c0 m j, rs')"
    "j \<le> length (message_bytes m)" "pending rs' = drop j (message_bytes m) @ rest" "polite rs'" "stream_size rs' < stream_size rs"
proof -
  let ?H = "fst m" and ?c = "snd m"
  let ?P = "part c0 ?H ?c k"
  have len: "length ?H = HDR_SIZE" and small: "\<not> BUFFER_SIZE \<le> length ?c" and bl: "body_len (parse_hdr ?H) = length ?c"
    and magic: "ntohl (hdr_magic (parse_hdr ?H)) = MAGIC_HEADER" using assms(2) by (simp_all add: message_ok_def)
  have tot: "length (message_bytes m) = HDR_SIZE + length ?c" using len by (simp add: message_bytes_def)
  have c0: "\<not> ac_header_received c0" "length (ac_hdr c0) = HDR_SIZE" using assms(1) by (simp_all add: idle_def conn_ok_def)
  have P: "\<not> ac_header_received ?P" "ac_bytes_read ?P = k" using assms(3) c0 by (simp_all add: part_def)
  show thesis
  proof (rule sock_read_polite [OF assms(5,4), of "HDR_SIZE - k"])
    fix bs rs'
    assume r: "sock_read (HDR_SIZE - k) rs = (GOT bs, rs')" "length bs \<le> HDR_SIZE - k" "pending rs = bs @ pending rs'"
      "polite rs'" "stream_size rs' < stream_size rs"
    let ?k = "k + length bs"
    have kle: "?k \<le> HDR_SIZE" using r(2) assms(3) by simp
    have "bs @ pending rs' = drop k (message_bytes m) @ rest" using assms(6) r(3) by simp
    note hdr = header_bytes(1) [OF assms(1-3) r(2) this] and rest = header_bytes(2) [OF assms(1-3) r(2) this]
    show thesis
    proof (cases "?k = HDR_SIZE")
      case True
      then have H: "poke (ac_hdr ?P) k bs = ?H" using hdr poke_all [of ?H "ac_hdr c0"] len c0 by simp
      have "?P\<lparr>ac_hdr := ?H, ac_header_received := True, ac_payload_len := length ?c, ac_bytes_read := 0\<rparr> = part c0 ?H ?c HDR_SIZE"
        using assms(3) by (simp add: part_def)
      moreover have pl: "ac_payload_len (part c0 ?H ?c HDR_SIZE) = length ?c" by (simp add: part_def)
      ultimately have "agent_readable env rs fd (put_conn fd ?P st) = read_body env rs' fd (part c0 ?H ?c HDR_SIZE) st"
        using P r(1) True H magic bl small pl by (simp add: agent_readable_def Let_def read_body_absorb)
      then show ?thesis
        using body_step [OF assms(1,2) order_refl _ _ r(4) rest [unfolded True], of env fd st] that r(5) tot
        by (metis le_add1 length_greater_0_conv less_add_same_cancel1 order_le_less_trans)
    next
      case False
      then have lt: "?k < HDR_SIZE" using kle by simp
      have "?P\<lparr>ac_hdr := poke (ac_hdr ?P) k bs, ac_bytes_read := ?k\<rparr> = part c0 ?H ?c ?k"
        unfolding hdr using assms(3) lt by (simp add: part_def)
      moreover have "ac_bytes_read (part c0 ?H ?c ?k) = ?k" using lt by (simp add: part_def)
      ultimately have "agent_readable env rs fd (put_conn fd ?P st) = (put_conn fd (part c0 ?H ?c ?k) st, rs')"
        using P r(1) False by (simp add: agent_readable_def Let_def)
      then show ?thesis using that [of ?k rs'] lt rest r(4,5) tot by (simp add: arrived_def)
    qed
  next
    fix rs'
    assume r: "sock_read (HDR_SIZE - k) rs = (AGAIN, rs')" "pending rs' = pending rs" "polite rs'" "stream_size rs' < stream_size rs"
    have "agent_readable env rs fd (put_conn fd ?P st) = (put_conn fd ?P st, rs')"
      using P r(1) by (simp add: agent_readable_def)
    then show thesis using that [of k rs'] r(2-4) assms(3,6) tot by (simp add: arrived_def)
  qed (use assms(3) in simp)
qed

lemma message_bytes_pos: "message_ok m \<Longrightarrow> 0 < length (message_bytes m)"
  by (auto simp: message_bytes_def message_ok_def HDR_SIZE_def)

lemma agent_step:
  assumes "idle c0" "message_ok m" "k < length (message_bytes m)" "rs \<noteq> []" "polite rs"
    and "pending rs = drop k (message_bytes m) @ rest"
  obtains j rs' where
    "agent_readable env rs fd (put_conn fd (part c0 (fst m) (snd m) k) st) = (arrived env fd st c0 m j, rs')"
    "j \<le> length (message_bytes m)" "pending rs' = drop j (message_bytes m) @ rest" "polite rs'" "stream_size rs' < stream_size rs"
proof (cases "k < HDR_SIZE")
  case True
  then show ?thesis using header_step [OF assms(1,2) _ assms(4-6)] that by blast
next
  case False
  then have "agent_readable env rs fd (put_conn fd (part c0 (fst m) (snd m) k) st) = read_body env rs fd (part c0 (fst m) (snd m) k) st"
    by (simp add: agent_readable_def part_def read_body_absorb)
  moreover have "snd m \<noteq> []" using False assms(2,3) by (auto simp: message_bytes_def message_ok_def)
  ultimately show ?thesis
    using body_step [OF assms(1,2) _ _ _ assms(5,6), of env fd st] False assms(3,4) that by (metis leI less_imp_le)
qed

lemma serve_quiet:
  assumes "srv_conns st fd = Some c0" "idle c0" "polite rs" "pending rs = []" "stream_size rs \<le> n"
  shows "agent_serve n env rs fd st = (st, [])"
  using assms(3-5)
proof (induction n arbitrary: rs)
  case 0
  then show ?case by (simp add: stream_size_def)
next
  case (Suc n)
  show ?case
  proof (cases rs)
    case (Cons r rs0)
    then have "r = AGAIN" "polite rs0" "pending rs0 = []" using Suc.prems by (auto simp: polite_def split: read_result.splits)
    moreover from this have "agent_readable env rs fd st = (st, rs0)"
      using assms(1,2) Cons by (simp add: agent_readable_def idle_def)
    ultimately show ?thesis using Suc Cons by (simp add: stream_size_def)
  qed simp
qed

lemma serve_messages:
  assumes "srv_conns st fd = Some c0" "idle c0" "list_all message_ok (m # ms)" "k < length (message_bytes m)" "polite rs"
    and "pending rs = drop k (message_bytes m) @ concat (map message_bytes ms)" "stream_size rs \<le> n"
  shows "agent_serve n env rs fd (put_conn fd (part c0 (fst m) (snd m) k) st) = (foldl (receive_message env fd) st (m # ms), [])"
  using assms
proof (induction n arbitrary: st c0 m ms k rs)
  case 0
  then show ?case by (simp add: stream_size_def)
next
  case (Suc n)
  have ne: "rs \<noteq> []" using Suc.prems(4,6) by auto
  have m: "message_ok m" using Suc.prems(3) by simp
  obtain j rs' where
    step: "agent_readable env rs fd (put_conn fd (part c0 (fst m) (snd m) k) st) = (arrived env fd st c0 m j, rs')"
    and j: "j \<le> length (message_bytes m)" and rs': "pending rs' = drop j (message_bytes m) @ concat (map message_bytes ms)" "polite rs'"
    and n: "stream_size rs' \<le> n"
  proof (rule agent_step [OF Suc.prems(2) m Suc.prems(4) ne Suc.prems(5,6), of env fd st])
    fix i rs1
    assume "agent_readable env rs fd (put_conn fd (part c0 (fst m) (snd m) k) st) = (arrived env fd st c0 m i, rs1)"
      "i \<le> length (message_bytes m)" "pending rs1 = drop i (message_bytes m) @ concat (map message_bytes ms)" "polite rs1"
      "stream_size rs1 < stream_size rs"
    then show thesis using that [of i rs1] Suc.prems(7) by simp
  qed
  have serve: "agent_serve (Suc n) env rs fd (put_conn fd (part c0 (fst m) (snd m) k) st) =
      agent_serve n env rs' fd (arrived env fd st c0 m j)" using ne step by simp
  show ?case
  proof (cases "j = length (message_bytes m)")
    case False
    then show ?thesis using serve Suc.IH [OF Suc.prems(1-3) _ rs'(2,1) n] j by (simp add: arrived_def)
  next
    case True
    let ?st = "receive_message env fd st m"
    have at: "arrived env fd st c0 m j = ?st"
      using True Suc.prems(1) m by (simp add: arrived_def receive_message_def message_bytes_def message_ok_def)
    obtain c where c: "srv_conns ?st fd = Some c" "idle c" using receive_idle [OF Suc.prems(1,2) m] by blast
    show ?thesis
    proof (cases ms)
      case Nil
      then show ?thesis using serve at serve_quiet [OF c rs'(2) _ n] rs'(1) True by simp
    next
      case (Cons m' ms')
      then have "0 < length (message_bytes m')" using message_bytes_pos Suc.prems(3) by simp
      then show ?thesis
        using Suc.IH [OF c, of m' ms' 0 rs'] Suc.prems(3) Cons rs' True n serve at
        by (simp add: part_0 [OF c(2)] put_conn_id [OF c(1)])
    qed
  qed
qed

lemma serve_stream:
  assumes "srv_conns st fd = Some c0" "idle c0" "list_all message_ok ms" "polite rs"
    and "pending rs = concat (map message_bytes ms)" "stream_size rs \<le> n"
  shows "agent_serve n env rs fd st = (foldl (receive_message env fd) st ms, [])"
proof (cases ms)
  case Nil
  then show ?thesis using serve_quiet [OF assms(1,2,4) _ assms(6)] assms(5) by simp
next
  case (Cons m ms')
  then have "0 < length (message_bytes m)" using message_bytes_pos assms(3) by simp
  then show ?thesis
    using serve_messages [OF assms(1,2), of m ms' 0 rs n env] assms(3-6) Cons
    by (simp add: part_0 [OF assms(2)] put_conn_id [OF assms(1)])
qed

subsection \<open>Addresses and identities\<close>

text \<open>Every connection was there before, with the same address, and the whitelist is the same.\<close>

definition same_peers :: "soc_state \<Rightarrow> soc_state \<Rightarrow> bool" where
  "same_peers st st' \<longleftrightarrow> srv_auth st' = srv_auth st \<and>
     (\<forall>fd c. srv_conns st' fd = Some c \<longrightarrow> (\<exists>c0. srv_conns st fd = Some c0 \<and> ac_client_ip c0 = ac_client_ip c))"

lemma same_peers_refl [simp]: "same_peers st st"
  by (simp add: same_peers_def)

lemma same_peers_trans: "same_peers st st' \<Longrightarrow> same_peers st' st'' \<Longrightarrow> same_peers st st''"
  unfolding same_peers_def by metis

lemma auth_simps [simp]:
  "srv_auth (put_conn fd c st) = srv_auth st" "srv_auth (unregister_connected_agent env fd st) = srv_auth st"
  "srv_auth (drop_conn env fd st) = srv_auth st" "srv_auth (clean_stale fd u st) = srv_auth st"
  "srv_auth (sse_broadcast env j st) = srv_auth st" "srv_auth (forward_to_spring_boot env j st) = srv_auth st"
  "srv_auth (fst (send_command_to_agent env x ty d st)) = srv_auth st"
  by (simp_all add: put_conn_def unregister_connected_agent_def drop_conn_def clean_stale_def sse_broadcast_def
      forward_to_spring_boot_def send_command_to_agent_def Let_def split: option.split prod.split)

lemma same_peers_put: "srv_conns st fd = Some c0 \<Longrightarrow> ac_client_ip c = ac_client_ip c0 \<Longrightarrow> same_peers st (put_conn fd c st)"
  by (simp add: same_peers_def put_conn_def)

lemma same_peers_drop: "same_peers st (drop_conn env fd st)"
  by (simp add: same_peers_def)

lemma process_auth [simp]: "srv_auth (process_agent_message env fd st) = srv_auth st"
  by (simp add: process_agent_message_def process_payload_def store_alert_def store_batch_def Let_def split: option.split)

lemma same_peers_finish: "srv_conns st fd = Some c \<Longrightarrow> same_peers st (finish_message env fd st)"
proof -
  assume c: "srv_conns st fd = Some c"
  have p: "same_peers st (process_agent_message env fd st)"
    using process_conns(1) [OF c, of env] by (auto simp: same_peers_def clean_stale_def split: if_splits)
  have "srv_conns (process_agent_message env fd st) fd = Some c"
    using process_conns(1) [OF c, of env] clean_stale_own [of fd "conn_uuid c" st] c by simp
  then show ?thesis
    using same_peers_trans [OF p same_peers_put] by (simp add: finish_message_def Let_def)
qed

lemma same_peers_body:
  assumes "srv_conns st fd = Some c0" "ac_client_ip c = ac_client_ip c0"
  shows "same_peers st (fst (read_body env rs fd c st))"
proof -
  have put: "same_peers st (put_conn fd c' st)" if "ac_client_ip c' = ac_client_ip c" for c'
    using same_peers_put [OF assms(1)] assms(2) that by simp
  moreover have "same_peers st (finish_message env fd (put_conn fd c' st))" "same_peers st (drop_conn env fd (put_conn fd c' st))"
    if "ac_client_ip c' = ac_client_ip c" for c'
    using same_peers_trans [OF put [OF that]] same_peers_finish [of "put_conn fd c' st" fd c'] same_peers_drop by simp_all
  ultimately show ?thesis by (simp add: read_body_def Let_def split: prod.split read_result.split)
qed

lemma same_peers_readable: "same_peers st (fst (agent_readable env rs fd st))"
proof (cases "srv_conns st fd")
  case (Some c0)
  have put: "same_peers st (put_conn fd c' st)" if "ac_client_ip c' = ac_client_ip c0" for c'
    using same_peers_put [OF Some that] .
  have drop: "same_peers st (drop_conn env fd (put_conn fd c' st))" if "ac_client_ip c' = ac_client_ip c0" for c'
    using same_peers_trans [OF put [OF that] same_peers_drop] .
  show ?thesis
    using Some put drop same_peers_body [OF Some] same_peers_drop
    by (simp add: agent_readable_def Let_def split: prod.split read_result.split)
qed (simp add: agent_readable_def)

lemma accept_conns: "srv_conns (accept_agent env fd addr st) f = Some c \<Longrightarrow>
    srv_conns st f = Some c \<or> ac_client_ip c = inet_ntop addr \<and> auth_check_ip (sv_ub_shift env) (srv_auth st) (inet_ntop addr)"
  by (auto simp: accept_agent_def register_connected_agent_def put_conn_def new_conn_def Let_def split: if_splits)

lemma accept_auth [simp]: "srv_auth (accept_agent env fd addr st) = srv_auth st"
  by (simp add: accept_agent_def register_connected_agent_def Let_def)

text \<open>A lookup of an identity that only one connection of the table carries.\<close>

lemma find_agent_unique:
  assumes "Some fd \<in> set ss" "conns fd = Some c" "conn_uuid c = u"
    and "\<And>f c'. Some f \<in> set ss \<Longrightarrow> conns f = Some c' \<Longrightarrow> conn_uuid c' = u \<Longrightarrow> f = fd"
  shows "find_agent u conns ss = Some fd"
  using assms(1,4)
proof (induction ss)
  case (Cons s ss)
  show ?case
  proof (cases s)
    case None
    then show ?thesis using Cons by simp
  next
    case (Some f)
    have "f = fd" if "conns f = Some c'" "conn_uuid c' = u" for c' using Cons.prems(2) [of f c'] that Some by simp
    moreover have "find_agent u conns ss = Some fd" if "f \<noteq> fd" using that Cons Some by simp
    ultimately show ?thesis using Some assms(2,3) by (cases "f = fd") (auto split: option.split)
  qed
qed simp

lemma receive_unique:
  assumes "srv_conns st fd = Some c0" "Some fd \<in> set (srv_agents st)" "message_ok m"
  shows "find_agent (hdr_agent_uuid (parse_hdr (fst m))) (srv_conns (receive_message env fd st m)) (srv_agents (receive_message env fd st m)) =
    Some fd"
proof -
  let ?c = "part c0 (fst m) (snd m) (HDR_SIZE + length (snd m))" and ?u = "hdr_agent_uuid (parse_hdr (fst m))"
  let ?s = "put_conn fd ?c st"
  let ?p = "process_agent_message env fd ?s"
  have u: "conn_uuid ?c = ?u" by (simp add: part_def conn_uuid_def)
  have u': "conn_uuid (?c\<lparr>ac_header_received := False, ac_bytes_read := 0\<rparr>) = conn_uuid ?c" by (simp add: conn_uuid_def)
  have c: "srv_conns ?s fd = Some ?c" by simp
  have p: "srv_conns ?p = srv_conns (clean_stale fd ?u ?s)" "srv_agents ?p = srv_agents (clean_stale fd ?u ?s)"
    using process_conns [OF c, of env] u by simp_all
  have own: "srv_conns ?p fd = Some ?c" using p(1) by (simp add: clean_stale_own)
  have r: "receive_message env fd st m = put_conn fd (?c\<lparr>ac_header_received := False, ac_bytes_read := 0\<rparr>) ?p"
    using assms(1) own by (simp add: receive_message_def finish_message_def Let_def)
  show ?thesis unfolding r
  proof (rule find_agent_unique [where c = "?c\<lparr>ac_header_received := False, ac_bytes_read := 0\<rparr>"])
    show "Some fd \<in> set (srv_agents (put_conn fd (?c\<lparr>ac_header_received := False, ac_bytes_read := 0\<rparr>) ?p))"
      using assms(2) p(2) by (force simp: clean_stale_def stale_def image_iff)
    fix f c'
    assume f: "Some f \<in> set (srv_agents (put_conn fd (?c\<lparr>ac_header_received := False, ac_bytes_read := 0\<rparr>) ?p))"
      "srv_conns (put_conn fd (?c\<lparr>ac_header_received := False, ac_bytes_read := 0\<rparr>) ?p) f = Some c'" "conn_uuid c' = ?u"
    show "f = fd"
    proof (rule ccontr)
      assume ne: "f \<noteq> fd"
      then have "srv_conns (clean_stale fd ?u ?s) f = Some c'" using f(2) p(1) by (simp add: put_conn_def)
      then have "\<not> stale fd ?u ?s f" "srv_conns ?s f = Some c'" by (simp_all add: clean_stale_def split: if_splits)
      moreover have "Some f \<in> set (srv_agents ?s)"
        using f(1) p(2) by (auto simp: clean_stale_def split: option.splits if_splits)
      ultimately show False using ne f(3) by (simp add: stale_def)
    qed
  qed (simp_all add: u' u)
qed

lemma bad_header_drop:
  assumes "srv_conns st fd = Some c0" "idle c0" "length H = HDR_SIZE"
    and "ntohl (hdr_magic (parse_hdr H)) \<noteq> MAGIC_HEADER \<or> BUFFER_SIZE \<le> body_len (parse_hdr H)"
  shows "let st' = fst (agent_readable env (GOT (H @ extra) # rs) fd st) in
    srv_conns st' = (srv_conns st)(fd := None) \<and> srv_sse st' = srv_sse st \<and> srv_forwarded st' = srv_forwarded st \<and>
    srv_db st' = (if Some fd \<in> set (srv_agents st)
                  then fst (db_insert_agent_log (sv_db env) None ''disconnect'' ''Agent disconnected'' (Some (ac_client_ip c0)) (srv_db st))
                  else srv_db st)"
proof -
  let ?rs = "if extra = [] then rs else GOT extra # rs"
  have c0: "\<not> ac_header_received c0" "ac_bytes_read c0 = 0" "length (ac_hdr c0) = HDR_SIZE"
    using assms(2) by (simp_all add: idle_def conn_ok_def)
  have ne: "H \<noteq> []" using assms(3) by (auto simp: HDR_SIZE_def)
  have read: "sock_read HDR_SIZE (GOT (H @ extra) # rs) = (GOT H, ?rs)" using assms(3) ne by simp
  let ?c = "c0\<lparr>ac_hdr := H, ac_header_received := True, ac_payload_len := body_len (parse_hdr H), ac_bytes_read := 0\<rparr>"
  have "poke (ac_hdr c0) 0 H = H" using poke_all [of H "ac_hdr c0"] assms(3) c0(3) by simp
  then have "agent_readable env (GOT (H @ extra) # rs) fd st = (drop_conn env fd (put_conn fd ?c st), ?rs)"
    using assms(1,4) c0 read assms(3) by (auto simp: agent_readable_def Let_def)
  then show ?thesis
    by (simp add: drop_conn_def unregister_connected_agent_def client_ip_of_def log_agent_def put_conn_def)
qed

lemma accept_fresh:
  assumes "auth_check_ip (sv_ub_shift env) (srv_auth st) (inet_ntop addr)" "0 \<le> fd"
  shows "srv_conns (accept_agent env fd addr st) fd = Some (new_conn fd (inet_ntop addr))" "idle (new_conn fd ip)"
    "None \<in> set (srv_agents st) \<Longrightarrow> Some fd \<in> set (srv_agents (accept_agent env fd addr st))"
proof -
  show "idle (new_conn fd ip)" using new_conn_ok [of fd ip] by (simp add: idle_def new_conn_def)
  have "Some fd \<in> set (set_first None (Some fd) ss)" if "None \<in> set ss" for ss using that by (induction ss) auto
  then show "None \<in> set (srv_agents st) \<Longrightarrow> Some fd \<in> set (srv_agents (accept_agent env fd addr st))"
    using assms by (simp add: accept_agent_def Let_def register_connected_agent_def)
  show "srv_conns (accept_agent env fd addr st) fd = Some (new_conn fd (inet_ntop addr))"
    using assms by (simp add: accept_agent_def Let_def register_connected_agent_def put_conn_def)
qed

subsection \<open>Properties\<close>

text \<open>C6: Messages do not depend on how the network cuts the stream: on an idle connection of an agent, whatever pieces the
  bytes of a sequence of well-formed messages arrive in, and however often the socket has nothing to read, the server
  handles exactly those messages, in order, and is ready for the next one. It needs no more readiness events than
  results and bytes of the stream.\<close>

theorem soc_receives_messages:
  assumes "srv_conns st fd = Some c0" "idle c0" "list_all message_ok ms" "polite rs"
    and "pending rs = concat (map message_bytes ms)" "stream_size rs \<le> n"
  shows "agent_serve n env rs fd st = (foldl (receive_message env fd) st ms, [])"
  by (rule serve_stream [OF assms])

definition sample_soc_env :: soc_env where
  "sample_soc_env = \<lparr>sv_db = sample_db, sv_evp = plain_evp, sv_writes = (\<lambda>_. []), sv_sse_write = (\<lambda>_. True), sv_spring = False,
     sv_ub_shift = (\<lambda>_. 0), sv_junk = (\<lambda>_. 0)\<rparr>"

definition sample_soc :: soc_state where
  "sample_soc = \<lparr>srv_conns = (\<lambda>_. None), srv_agents = replicate MAX_CONNECTED_AGENTS None, srv_sse = sse_init,
     srv_db = \<lparr>db_conn = None, db_log = []\<rparr>, srv_auth = \<lparr>session_secret = [], secret_initialized = True, whitelist = [\<lparr>wl_ip = 0, wl_mask = 0\<rparr>]\<rparr>,
     srv_out = [], srv_forwarded = []\<rparr>"

lemma sample_addr_ok: "auth_check_ip (sv_ub_shift sample_soc_env) (srv_auth sample_soc) (inet_ntop 0x0100007F)"
  by code_simp

definition sample_hello :: "byte list \<times> byte list" where
  "sample_hello = (encode_hdr (make_hdr (replicate 16 (CHR ''u'')) MSG_TYPE_PING 0), [])"

lemma sample_hello_ok: "message_ok sample_hello"
  using parse_encode_hdr [of "make_hdr (replicate 16 (CHR ''u'')) MSG_TYPE_PING 0" "[]"]
  by (simp add: sample_hello_def message_ok_def BUFFER_SIZE_def)

theorem soc_receives_messages_witness:
  "agent_serve 100 sample_soc_env [GOT (take 7 (fst sample_hello)), AGAIN, GOT (drop 7 (fst sample_hello))] 4
      (accept_agent sample_soc_env 4 0x0100007F sample_soc) =
    (receive_message sample_soc_env 4 (accept_agent sample_soc_env 4 0x0100007F sample_soc) sample_hello, [])"
proof -
  have len: "length (fst sample_hello) = HDR_SIZE" using sample_hello_ok by (simp add: message_ok_def)
  then have "fst sample_hello \<noteq> []" by (auto simp: HDR_SIZE_def)
  moreover have "snd sample_hello = []" by (simp add: sample_hello_def)
  ultimately show ?thesis
    using soc_receives_messages [OF accept_fresh(1,2) [OF sample_addr_ok], of 4 "[sample_hello]"
        "[GOT (take 7 (fst sample_hello)), AGAIN, GOT (drop 7 (fst sample_hello))]" 100 sample_soc_env] sample_hello_ok len
    by (simp add: polite_def message_bytes_def stream_size_def HDR_SIZE_def)
qed

text \<open>In every state the event loop reaches, the header and payload of each connection are collected inside their
  fixed buffers: what was read so far is shorter than the header while the header is collected, and shorter than the
  announced payload afterwards, which itself is smaller than the buffer; and the tables of agents and live clients keep
  their 128 and 32 slots.\<close>

theorem soc_buffers_bounded:
  assumes "soc_reachable st" "srv_conns st fd = Some c"
  shows "length (ac_buf c) = 65536 \<and> length (ac_hdr c) = HDR_SIZE \<and> ac_payload_len c < 65536 \<and>
    ac_bytes_read c < (if ac_header_received c then ac_payload_len c else HDR_SIZE) \<and>
    length (srv_agents st) = 128 \<and> length (srv_sse st) = 32"
  using soc_reachable_ok [OF assms(1)] assms(2)
  by (auto simp: soc_ok_def conn_ok_def BUFFER_SIZE_def MAX_CONNECTED_AGENTS_def MAX_SSE_CLIENTS_def)

lemma sample_soc_reachable: "soc_reachable sample_soc"
  unfolding sample_soc_def by (rule soc_reachable.start)

theorem soc_buffers_bounded_witness:
  "ac_payload_len (new_conn 4 ''127.0.0.1'') < 65536"
proof -
  have "srv_conns (accept_agent sample_soc_env 4 0x0100007F sample_soc) 4 = Some (new_conn 4 (inet_ntop 0x0100007F))"
    by (rule accept_fresh(1) [OF sample_addr_ok]) simp
  moreover have "inet_ntop 0x0100007F = ''127.0.0.1''" by code_simp
  ultimately show ?thesis
    using soc_buffers_bounded [OF soc_reachable.accept [OF sample_soc_reachable]] by metis
qed

text \<open>The server talks only to whitelisted agents: whatever handlers run, every open agent connection has an address that
  the whitelist of \<^verbatim>\<open>auth.c\<close> admits.\<close>

theorem soc_connections_whitelisted:
  assumes "soc_reachable st" "srv_conns st fd = Some c"
  shows "\<exists>ub. auth_check_ip ub (srv_auth st) (ac_client_ip c)"
  using assms
proof (induction arbitrary: fd c rule: soc_reachable.induct)
  case (accept st env f addr)
  then show ?case using accept_conns [of env f addr st fd c] by auto
next
  case (readable st env rs f)
  obtain c0 where "srv_conns st fd = Some c0" "ac_client_ip c0 = ac_client_ip c" "srv_auth (fst (agent_readable env rs f st)) = srv_auth st"
    using same_peers_readable [of st env rs f] readable.prems unfolding same_peers_def by blast
  then show ?case using readable.IH [of fd c0] by simp
next
  case (hangup st env f)
  then show ?case by (auto simp: agent_hangup_def sse_remove_def split: if_splits)
next
  case (command st env bs)
  then show ?case by (auto simp: local_command_def split: if_splits)
qed (auto simp: sse_add_def)

theorem soc_connections_whitelisted_witness:
  "\<exists>ub. auth_check_ip ub (srv_auth (accept_agent sample_soc_env 4 0x0100007F sample_soc)) ''127.0.0.1''"
proof -
  have "inet_ntop 0x0100007F = ''127.0.0.1''" by code_simp
  then show ?thesis
    using soc_connections_whitelisted [OF soc_reachable.accept [OF sample_soc_reachable] accept_fresh(1) [OF sample_addr_ok], of 4]
    by (simp add: new_conn_def)
qed

text \<open>C25: A header with a foreign magic, or one that announces a payload of 65536 bytes or more, costs the sender its
  connection: nothing of the message is stored, the connection is freed, and the only trace in the database is the
  disconnect entry of the log.\<close>

theorem soc_bad_header_dropped:
  assumes "srv_conns st fd = Some c0" "idle c0" "length H = HDR_SIZE"
    and "ntohl (hdr_magic (parse_hdr H)) \<noteq> MAGIC_HEADER \<or> BUFFER_SIZE \<le> body_len (parse_hdr H)"
  shows "let st' = fst (agent_readable env (GOT (H @ extra) # rs) fd st) in
    srv_conns st' = (srv_conns st)(fd := None) \<and> srv_sse st' = srv_sse st \<and> srv_forwarded st' = srv_forwarded st \<and>
    srv_db st' = (if Some fd \<in> set (srv_agents st)
                  then fst (db_insert_agent_log (sv_db env) None ''disconnect'' ''Agent disconnected'' (Some (ac_client_ip c0)) (srv_db st))
                  else srv_db st)"
  by (rule bad_header_drop [OF assms])

theorem soc_bad_header_dropped_witness:
  "srv_conns (fst (agent_readable sample_soc_env [GOT (replicate HDR_SIZE (CHR ''G''))] 4
      (accept_agent sample_soc_env 4 0x0100007F sample_soc))) 4 = None"
proof -
  have "ntohl (hdr_magic (parse_hdr (replicate HDR_SIZE (CHR ''G'')))) \<noteq> MAGIC_HEADER" by code_simp
  then show ?thesis
    using soc_bad_header_dropped [OF accept_fresh(1,2) [OF sample_addr_ok], of 4 "replicate HDR_SIZE (CHR ''G'')" sample_soc_env "[]" "[]"]
    by (simp add: Let_def)
qed

text \<open>C26: A reconnected agent is reached on its newest connection: once a message has arrived on a registered connection,
  every other connection with the same identity is gone from the table, and a command for that identity is sent down the
  connection the message came from.\<close>

theorem soc_command_reaches_latest:
  assumes "srv_conns st fd = Some c0" "Some fd \<in> set (srv_agents st)" "message_ok m"
  shows "find_agent (hdr_agent_uuid (parse_hdr (fst m))) (srv_conns (receive_message env fd st m))
      (srv_agents (receive_message env fd st m)) = Some fd"
  by (rule receive_unique [OF assms])

theorem soc_command_reaches_latest_witness:
  "let st = receive_message sample_soc_env 4 (accept_agent sample_soc_env 4 0x0100007F sample_soc) sample_hello in
   find_agent (replicate 16 (CHR ''u'')) (srv_conns st) (srv_agents st) = Some 4"
proof -
  have "Some 4 \<in> set (srv_agents (accept_agent sample_soc_env 4 0x0100007F sample_soc))"
    by (rule accept_fresh(3) [OF sample_addr_ok]) (simp_all add: sample_soc_def MAX_CONNECTED_AGENTS_def)
  moreover have "hdr_agent_uuid (parse_hdr (fst sample_hello)) = replicate 16 (CHR ''u'')"
    using parse_encode_hdr [of "make_hdr (replicate 16 (CHR ''u'')) MSG_TYPE_PING 0" "[]"] by (simp add: sample_hello_def)
  ultimately show ?thesis
    using soc_command_reaches_latest [OF accept_fresh(1) [OF sample_addr_ok], of 4 sample_hello sample_soc_env] sample_hello_ok
    by (simp add: Let_def)
qed

end
