(* ===== verification/Soc_Channel.thy ===== *)
theory Soc_Channel
  imports Agent Soc_Receiver Fw_Events
begin

section \<open>The channel between agent and server\<close>

text \<open>
  What crosses the TCP connection: a message the agent reports as sent, as the server takes it from the stream
  and stores it, and a command of the server, as the agent takes it from the stream. The lemmas join
  \<open>soc_transmit\<close> with \<open>receive_message\<close> and \<open>send_command_to_agent\<close> with \<open>soc_input\<close>; the
  theorems that follow from them are those of the root theory.
\<close>

text \<open>
  Sizes of AES-256-CBC with PKCS\#7 padding behind a 16-byte IV: the envelope is longer than the plaintext, by at most
  the IV and one block.
\<close>

definition cbc_sizes :: "evp_env \<Rightarrow> bool" where
  "cbc_sizes e \<longleftrightarrow> (\<forall>p c. aes_encrypt e p = Some c \<longrightarrow> length p \<le> length c \<and> length c \<le> length p + 32)"

lemma cbc_sizesD: "cbc_sizes e \<Longrightarrow> aes_encrypt e p = Some c \<Longrightarrow> length p \<le> length c \<and> length c \<le> length p + 32"
  by (simp add: cbc_sizes_def)

lemma plain_sizes: "cbc_sizes plain_evp"
  by (simp add: cbc_sizes_def plain_evp_encrypt)

subsection \<open>From the agent to the server\<close>

text \<open>The statement log of the database: every command is one entry, whether it succeeds or not.\<close>

lemma fold_insert_log:
  "db_log (fold (\<lambda>e db. fst (db_insert_event env uuid e db)) es db) = db_log db @ map (\<lambda>e. (sql_insert_event, event_params uuid e)) es"
  by (induction es arbitrary: db) (simp_all add: db_insert_event_def)

lemma batch_event_nth:
  assumes "list_all (\<lambda>e. length e = EVENT_SIZE) es" "i < length es"
  shows "batch_event (concat es) i = es ! i"
  using assms
proof (induction es arbitrary: i)
  case (Cons e es)
  show ?case
  proof (cases i)
    case (Suc j)
    then show ?thesis using Cons by (simp add: batch_event_def)
  qed (use Cons in \<open>simp add: batch_event_def\<close>)
qed simp

lemma length_batch: "list_all (\<lambda>e. length e = EVENT_SIZE) es \<Longrightarrow> length (concat es) = EVENT_SIZE * length es"
  by (induction es) simp_all

lemma fold_batch:
  assumes "list_all (\<lambda>e. length e = EVENT_SIZE) es"
  shows "fold (\<lambda>i db. fst (db_insert_event env uuid (batch_event (concat es) i) db)) [0..<length (concat es) div EVENT_SIZE] db =
    fold (\<lambda>e db. fst (db_insert_event env uuid e db)) es db"
proof -
  let ?f = "\<lambda>e db. fst (db_insert_event env uuid e db)"
  have n: "length (concat es) div EVENT_SIZE = length es" unfolding length_batch [OF assms] by (simp add: EVENT_SIZE_def)
  have "map (batch_event (concat es)) [0..<length es] = es"
    by (rule nth_equalityI) (simp_all add: batch_event_nth [OF assms])
  then have "fold ?f es db = fold ?f (map (batch_event (concat es)) [0..<length es]) db" by simp
  then show ?thesis unfolding n by (simp only: fold_map comp_def)
qed

text \<open>A message framed by a sender, as the server sees it.\<close>

lemma framed_message_ok:
  assumes "length uuid = 16" "length c < BUFFER_SIZE"
  shows "message_ok (encode_hdr (make_hdr uuid ty (length c)), c)"
  using assms parse_encode_hdr [of "make_hdr uuid ty (length c)" "[]"] by (simp add: message_ok_def BUFFER_SIZE_def)

lemma receive_payload:
  assumes "srv_conns st fd = Some c0" "idle c0" "length uuid = 16" "c \<noteq> []" "aes_decrypt (sv_evp env) c = Some p" "length c < BUFFER_SIZE"
  shows "\<exists>st1. srv_db st1 = fst (db_update_agent_last_seen (sv_db env) uuid (ac_client_ip c0) (srv_db st)) \<and>
    srv_db (receive_message env fd st (encode_hdr (make_hdr uuid ty (length c)), c)) =
      srv_db (process_payload env ty uuid (ac_client_ip c0) p st1)"
proof -
  let ?H = "encode_hdr (make_hdr uuid ty (length c))"
  let ?c = "part c0 ?H c (HDR_SIZE + length c)"
  let ?s = "put_conn fd ?c st"
  let ?st1 = "(clean_stale fd uuid ?s)\<lparr>srv_db := fst (db_update_agent_last_seen (sv_db env) uuid (ac_client_ip c0) (srv_db st))\<rparr>"
  have hdr: "parse_hdr ?H = make_hdr uuid ty (length c)" using parse_encode_hdr [of "make_hdr uuid ty (length c)" "[]"] assms(3) by simp
  have len: "length (ac_buf c0) = BUFFER_SIZE" using assms(2) by (simp add: idle_def conn_ok_def)
  have c: "ac_hdr ?c = ?H" "ac_client_ip ?c = ac_client_ip c0" "ac_payload_len ?c = length c" "take (length c) (ac_buf ?c) = c"
    by (simp_all add: part_def take_poke)
  then have u: "conn_uuid ?c = uuid" by (simp add: conn_uuid_def hdr)
  have db: "srv_db (clean_stale fd uuid ?s) = srv_db st" by (simp add: clean_stale_def)
  have p: "process_agent_message env fd ?s = process_payload env ty uuid (ac_client_ip c0) p ?st1"
    using assms(4,5) by (simp add: process_agent_message_def Let_def c u db hdr)
  have "srv_db (receive_message env fd st (?H, c)) = srv_db (process_agent_message env fd ?s)"
    using assms(1) by (simp add: receive_message_def finish_message_def Let_def split: option.split)
  then show ?thesis using p by (intro exI [of _ ?st1]) simp
qed

lemma receive_batch:
  assumes "srv_conns st fd = Some c0" "idle c0" "length uuid = 16" "c \<noteq> []" "aes_decrypt (sv_evp env) c = Some (concat es)"
    and "length c < BUFFER_SIZE" "list_all (\<lambda>e. length e = EVENT_SIZE) es"
  shows "\<exists>first last. db_log (srv_db (receive_message env fd st (encode_hdr (make_hdr uuid MSG_TYPE_BATCH (length c)), c))) =
    db_log (srv_db st) @ (sql_register_agent, first) # map (\<lambda>e. (sql_insert_event, event_params uuid e)) es @ [(sql_insert_agent_log, last)]"
proof -
  obtain st1 where st1: "srv_db st1 = fst (db_update_agent_last_seen (sv_db env) uuid (ac_client_ip c0) (srv_db st))"
    and r: "srv_db (receive_message env fd st (encode_hdr (make_hdr uuid MSG_TYPE_BATCH (length c)), c)) =
      srv_db (process_payload env MSG_TYPE_BATCH uuid (ac_client_ip c0) (concat es) st1)"
    using receive_payload [OF assms(1-6)] by blast
  show ?thesis
    unfolding r by (simp add: process_payload_def msg_types store_batch_def Let_def log_agent_def fold_batch [OF assms(7)])
      (simp add: db_insert_agent_log_def fold_insert_log st1 db_update_agent_last_seen_def db_register_agent_def)
qed

lemma receive_alert:
  assumes "srv_conns st fd = Some c0" "idle c0" "length uuid = 16" "c \<noteq> []" "aes_decrypt (sv_evp env) c = Some e"
    and "length c < BUFFER_SIZE" "length e = EVENT_SIZE"
  shows "\<exists>first last. db_log (srv_db (receive_message env fd st (encode_hdr (make_hdr uuid MSG_TYPE_ALERT (length c)), c))) =
    db_log (srv_db st) @ [(sql_register_agent, first), (sql_insert_event, event_params uuid e), (sql_insert_agent_log, last)]"
proof -
  obtain st1 where st1: "srv_db st1 = fst (db_update_agent_last_seen (sv_db env) uuid (ac_client_ip c0) (srv_db st))"
    and r: "srv_db (receive_message env fd st (encode_hdr (make_hdr uuid MSG_TYPE_ALERT (length c)), c)) =
      srv_db (process_payload env MSG_TYPE_ALERT uuid (ac_client_ip c0) e st1)"
    using receive_payload [OF assms(1-6)] by blast
  show ?thesis
    unfolding r using assms(7) by (simp add: process_payload_def msg_types store_alert_def Let_def log_agent_def)
      (simp add: db_insert_agent_log_def db_insert_event_def st1 db_update_agent_last_seen_def db_register_agent_def)
qed

text \<open>A message on an idle connection, in whatever pieces it arrives, is taken whole.\<close>

lemma sent_message_served:
  assumes "aes_encrypt e p = Some c" "evp_ok e (sv_evp senv)" "length c < BUFFER_SIZE" "length uuid = 16"
    and "srv_conns sst fd = Some c0" "idle c0" "polite rs" "stream_size rs \<le> n"
    and "pending rs = encode_hdr (make_hdr uuid ty (length c)) @ c"
  shows "fst (agent_serve n senv rs fd sst) = receive_message senv fd sst (encode_hdr (make_hdr uuid ty (length c)), c)"
    and "c \<noteq> []" and "aes_decrypt (sv_evp senv) c = Some p"
proof -
  let ?m = "(encode_hdr (make_hdr uuid ty (length c)), c)"
  have "pending rs = concat (map message_bytes [?m])" using assms(9) by (simp add: message_bytes_def)
  from serve_stream [OF assms(5,6) _ assms(7) this assms(8)] framed_message_ok [OF assms(4,3)]
  show "fst (agent_serve n senv rs fd sst) = receive_message senv fd sst ?m" by simp
  have "AES_BLOCK_SIZE \<le> length c" using aes.seal_length [OF assms(2,1)] .
  then show "c \<noteq> []" by (auto simp: AES_BLOCK_SIZE_def)
  show "aes_decrypt (sv_evp senv) c = Some p" using aes.unseal_seal [OF assms(2,1)] .
qed

text \<open>A message that the agent reports as sent, and a batch.\<close>

lemma send_bytes:
  assumes "0 \<le> ag_soc_fd st" "snd (send_to_soc env ty p st) = 0" "p \<noteq> []"
  obtains c where "aes_encrypt (ae_evp env (ag_calls st)) p = Some c"
    "ag_soc_out (fst (send_to_soc env ty p st)) = ag_soc_out st @ encode_hdr (make_hdr (ag_uuid st) ty (length c)) @ c"
proof -
  obtain st' where "soc_transmit env ty p st = (st', 0)" "send_to_soc env ty p st = (st', 0)"
    using assms(1,2) by (cases "soc_transmit env ty p st") (simp add: send_to_soc_def)
  then show thesis using transmit_bytes [of env ty p st st'] assms(3) that by auto
qed

lemma flush_bytes:
  assumes "agent_ok st" "0 \<le> ag_soc_fd st" "ag_last_flush st + 10 \<le> ae_time_late env" "ag_event_buffer st \<noteq> []"
    and "snd (send_to_soc env MSG_TYPE_BATCH (concat (ag_event_buffer st)) st) = 0"
  obtains c where "aes_encrypt (ae_evp env (ag_calls st)) (concat (ag_event_buffer st)) = Some c"
    "ag_soc_out (flush_events env st) = ag_soc_out st @ encode_hdr (make_hdr (ag_uuid st) MSG_TYPE_BATCH (length c)) @ c"
    "ag_event_buffer (flush_events env st) = []"
proof -
  let ?p = "concat (ag_event_buffer st)"
  have len: "length ?p = EVENT_SIZE * length (ag_event_buffer st)" using assms(1) length_batch by (auto simp: agent_ok_def)
  then have "0 < length ?p" using assms(4) by (simp add: EVENT_SIZE_def del: length_concat)
  then have ne: "?p \<noteq> []" unfolding length_greater_0_conv .
  let ?s = "fst (send_to_soc env MSG_TYPE_BATCH ?p st)"
  have "flush_events env st = ?s\<lparr>ag_event_buffer := [], ag_last_flush := ae_time_late env\<rparr>"
    using assms(3-5) by (simp add: flush_events_def case_prod_beta)
  then show thesis using send_bytes [OF assms(2,5) ne] that by auto
qed

text \<open>An alert of the firewall that is no duplicate, as the agent takes it from the socket of the daemon.\<close>

lemma fw_input_alert:
  assumes "ag_userspace_mode st" "ae_fw_read env = GOT e" "length e = EVENT_SIZE" "raw_severity e \<in> {1, 2}"
    and "is_duplicate_alert e (ag_dedup st) = (d, False)"
  shows "fst (fw_input env st) = fst (send_to_soc env MSG_TYPE_ALERT e (st\<lparr>ag_dedup := d\<rparr>))"
proof -
  have "fst (sock_read EVENT_SIZE [GOT e]) = GOT e" using assms(3) by (auto simp: EVENT_SIZE_def)
  then show ?thesis using assms by (auto simp: fw_input_def handle_event_def)
qed

lemma alert_bytes:
  assumes "ag_userspace_mode st" "ae_fw_read env = GOT e" "length e = EVENT_SIZE" "raw_severity e \<in> {1, 2}"
    and "is_duplicate_alert e (ag_dedup st) = (d, False)" "0 \<le> ag_soc_fd st"
    and "snd (send_to_soc env MSG_TYPE_ALERT e (st\<lparr>ag_dedup := d\<rparr>)) = 0"
  obtains c where "aes_encrypt (ae_evp env (ag_calls st)) e = Some c"
    "ag_soc_out (fst (fw_input env st)) = ag_soc_out st @ encode_hdr (make_hdr (ag_uuid st) MSG_TYPE_ALERT (length c)) @ c"
proof -
  have "0 \<le> ag_soc_fd (st\<lparr>ag_dedup := d\<rparr>)" "e \<noteq> []" using assms(3,6) by (auto simp: EVENT_SIZE_def)
  then show thesis
    using send_bytes [of "st\<lparr>ag_dedup := d\<rparr>" env MSG_TYPE_ALERT e] assms(7) that fw_input_alert [OF assms(1-5)] by auto
qed

lemma raw_severity_alert: "ev_severity ev \<noteq> SEVERITY_INFO \<Longrightarrow> raw_severity (encode_event ev) \<in> {1, 2}"
  by (cases "ev_severity ev") (simp_all add: raw_encode_event)

subsection \<open>From the server to the agent\<close>

lemma write_all_done: "write_all bs ws = (out, True, ws') \<Longrightarrow> out = bs"
proof (induction ws arbitrary: bs out)
  case (Cons w ws)
  show ?case
  proof (cases "bs = []")
    case False
    then show ?thesis
      using Cons.prems Cons.IH by (auto split: write_result.splits nat.splits prod.splits) (metis append_take_drop_id)
  qed (use Cons.prems in simp)
qed simp

lemma send_command_bytes:
  assumes "send_command_to_agent env hex ty d st = (st', 0)"
  obtains fd c where "aes_encrypt (sv_evp env) d = Some c"
    "find_agent (parse_uuid_hex (sv_junk env) hex) (srv_conns st) (srv_agents st) = Some fd"
    "srv_out st' = srv_out st @ [(fd, encode_hdr (make_hdr (parse_uuid_hex (sv_junk env) hex) ty (length c))), (fd, c)]"
  using assms
  by (auto simp: send_command_to_agent_def Let_def dest!: write_all_done split: option.splits prod.splits if_splits)

lemma length_parse_uuid [simp]: "length (parse_uuid_hex junk s) = 16"
  by (simp add: parse_uuid_hex_def)

text \<open>The bytes a step of the server has written.\<close>

definition written :: "soc_state \<Rightarrow> soc_state \<Rightarrow> byte list" where
  "written st st' = concat (map snd (drop (length (srv_out st)) (srv_out st')))"

lemma command_executed:
  assumes "send_command_to_agent senv hex ty d sst = (sst', 0)" "flowing (ag_soc_in st)" "pending (ag_soc_in st) = written sst sst' @ rest"
    and "evp_ok (sv_evp senv) (ae_evp env (ag_calls st))" "cbc_sizes (sv_evp senv)" "length d \<le> 65536" "ae_malloc env"
  obtains rs where "soc_input env st = (soc_command env ty d (st\<lparr>ag_soc_in := rs\<rparr>), False)" "pending rs = rest" "flowing rs"
proof -
  let ?u = "parse_uuid_hex (sv_junk senv) hex"
  obtain fd c where c: "aes_encrypt (sv_evp senv) d = Some c"
      "srv_out sst' = srv_out sst @ [(fd, encode_hdr (make_hdr ?u ty (length c))), (fd, c)]"
    using send_command_bytes [OF assms(1)] by blast
  have bytes: "pending (ag_soc_in st) = encode_hdr (make_hdr ?u ty (length c)) @ c @ rest"
    using assms(3) c(2) by (simp add: written_def)
  have "length c < 16777216" using cbc_sizesD [OF assms(5) c(1)] assms(6) by simp
  then show thesis using that by (rule soc_input_frame [OF assms(2) bytes length_parse_uuid c(1) assms(4) _ assms(7)])
qed

subsection \<open>From the agent to the firewall daemon\<close>

lemma read_blocklist_wf: "payload_wf (read_blocklist content)"
  using read_blocklist_filling [of content] by (simp add: filling_def)

lemma payload_entry_loaded: "filling p \<Longrightarrow> i < unat (bp_count p) \<Longrightarrow> payload_entry oob p i \<in> set (loaded p)"
  by (auto simp: payload_entry_def loaded_def filling_def payload_wf_def in_set_conv_nth)

lemma update_entry_blocks:
  assumes "e \<in> set (loaded p)" "filling p" "bl_ok bl"
  shows "inspect_ip_blocklist ub (snd (update_ip_blocklist (\<lambda>_. True) oob rep bl p)) (be_ip e)"
proof -
  obtain i where i: "i < unat (bp_count p)" "bp_entries p ! i = e" "unat (bp_count p) \<le> MAX_BLOCKLIST_IPS"
    using assms(1,2) by (auto simp: loaded_def in_set_conv_nth filling_def)
  then have "payload_entry oob p i = e" "i < load_count p"
    using assms(2) by (auto simp: payload_entry_def filling_def payload_wf_def load_count_def)
  then have "(be_ip e, be_mask e) \<in> bl_nodes (bl_hash (snd (update_ip_blocklist (\<lambda>_. True) oob rep bl p)))"
    unfolding update_bl_nodes [OF assms(3)] by force
  then show ?thesis unfolding inspect_iff by (rule rev_bexI) simp
qed

end
