(* ===== verification/Threat_Intel.thy ===== *)
theory Threat_Intel
  imports Soc_Db
begin

section \<open>Threat intelligence feeds (threat\_intel.c)\<close>

text \<open>
  A thread of the server downloads three public lists of addresses, at start, every six hours and when the
  dashboard asks for it, and enters every address into the database.

  \<^item> libcurl is the parameter \<open>ie_curl\<close>: for a URL the pieces it passes to the write callback, each with whether
    \<^verbatim>\<open>realloc\<close> succeeds, and whether the transfer is reported as complete. \<open>ie_stale\<close> is what the one byte that
    \<^verbatim>\<open>malloc(1)\<close> returns holds, as a C string, when no piece arrives.
  \<^item> The thread is a state machine whose steps are the stretches between two points where it can be
    interrupted: a round of downloads, and a return of \<^verbatim>\<open>pthread_cond_timedwait\<close>. \<open>ti_rounds\<close> counts the rounds
    started.
\<close>

subsection \<open>Downloads\<close>

record intel_env =
  ie_db :: db_env
  ie_curl :: "string \<Rightarrow> (byte list \<times> bool) list \<times> bool"
  ie_stale :: string

text \<open>The callback appends the piece; its failure makes the transfer fail.\<close>

definition curl_write_cb :: "byte list \<times> bool \<Rightarrow> byte list \<Rightarrow> byte list option" where
  "curl_write_cb piece mem = (if snd piece then Some (mem @ fst piece) else None)"

fun curl_perform :: "(byte list \<times> bool) list \<Rightarrow> byte list \<Rightarrow> byte list option" where
  "curl_perform [] mem = Some mem"
| "curl_perform (p # ps) mem = (case curl_write_cb p mem of None \<Rightarrow> None | Some mem \<Rightarrow> curl_perform ps mem)"

definition download_url :: "intel_env \<Rightarrow> string \<Rightarrow> string option" where
  "download_url env url =
     (case ie_curl env url of (pieces, ok) \<Rightarrow>
        (case curl_perform pieces [] of
           None \<Rightarrow> None
         | Some data \<Rightarrow> if \<not> ok then None else if pieces = [] then Some (ie_stale env) else Some (cstr data)))"

subsection \<open>Feeds\<close>

text \<open>The lines: \<^verbatim>\<open>strtok\<close> with carriage return and line feed.\<close>

definition line_ends :: string where "line_ends = [CHR 0x0D, CHR 0x0A]"

lemma strtok_shorter: "strtok delims s = Some (t, rest) \<Longrightarrow> length rest < length s"
proof -
  assume a: "strtok delims s = Some (t, rest)"
  let ?s = "dropWhile (\<lambda>c. c \<in> set delims) s"
  have t: "t = takeWhile (\<lambda>c. c \<notin> set delims) ?s" "t \<noteq> []" "rest = drop (length t + 1) ?s"
    using a by (auto simp: strtok_def Let_def split: if_splits)
  then have "?s \<noteq> []" by (metis takeWhile.simps(1))
  moreover have "length ?s \<le> length s" by (rule length_dropWhile_le)
  moreover have "0 < length t" using t(2) by simp
  ultimately show ?thesis using t(3) by (cases ?s) auto
qed

function feed_lines :: "string \<Rightarrow> string list" where
  "feed_lines s = (case strtok line_ends s of None \<Rightarrow> [] | Some (line, rest) \<Rightarrow> line # feed_lines rest)"
  by pat_completeness auto
termination by (relation "measure length") (auto dest: strtok_shorter)

declare feed_lines.simps [simp del]

text \<open>\<^verbatim>\<open>sscanf(s, "%<n>s", buf)\<close> into a cleared buffer.\<close>

definition scan_buf :: "nat \<Rightarrow> string \<Rightarrow> string" where
  "scan_buf n s = (case scan_word n s of None \<Rightarrow> [] | Some (w, _) \<Rightarrow> w)"

record feed =
  fd_url :: string
  fd_name :: string
  fd_threat :: string
  fd_confidence :: int
  fd_source :: string
  fd_score :: int

definition import_line :: "intel_env \<Rightarrow> feed \<Rightarrow> string \<Rightarrow> db_state \<Rightarrow> db_state" where
  "import_line env f line db =
     (if hd line \<noteq> CHR ''#'' \<and> length line > 6 then
        (let ip = scan_buf 63 line in
         if length ip > 0 then
           (let db = fst (db_save_threat_intel (ie_db env) (fd_name f) ''ip'' ip (fd_threat f) (fd_confidence f) (fd_source f) db)
            in fst (db_update_ip_reputation (ie_db env) ip (fd_score f) 100 (fd_score f) (fd_threat f) db))
         else db)
      else db)"

definition fetch_feed :: "intel_env \<Rightarrow> feed \<Rightarrow> db_state \<Rightarrow> db_state" where
  "fetch_feed env f db =
     (case download_url env (fd_url f) of None \<Rightarrow> db
      | Some data \<Rightarrow> fold (import_line env f) (feed_lines data) db)"

definition feodo_tracker :: feed where
  "feodo_tracker = \<lparr>fd_url = ''https://feodotracker.abuse.ch/downloads/ipblocklist.txt'', fd_name = ''Feodo_Tracker'',
     fd_threat = ''botnet_c2'', fd_confidence = 90, fd_source = ''https://feodotracker.abuse.ch/'', fd_score = 15\<rparr>"

definition binary_defense :: feed where
  "binary_defense = \<lparr>fd_url = ''https://www.binarydefense.com/banlist.txt'', fd_name = ''Binary_Defense'',
     fd_threat = ''malicious_ip'', fd_confidence = 80, fd_source = ''https://www.binarydefense.com/'', fd_score = 20\<rparr>"

definition ci_army :: feed where
  "ci_army = \<lparr>fd_url = ''http://cinsscore.com/list/ci-badguys.txt'', fd_name = ''CI_Army'',
     fd_threat = ''scanner'', fd_confidence = 75, fd_source = ''http://cinsscore.com/'', fd_score = 25\<rparr>"

definition fetch_feodo_tracker :: "intel_env \<Rightarrow> db_state \<Rightarrow> db_state" where
  "fetch_feodo_tracker env = fetch_feed env feodo_tracker"

definition fetch_binary_defense :: "intel_env \<Rightarrow> db_state \<Rightarrow> db_state" where
  "fetch_binary_defense env = fetch_feed env binary_defense"

definition fetch_ci_army :: "intel_env \<Rightarrow> db_state \<Rightarrow> db_state" where
  "fetch_ci_army env = fetch_feed env ci_army"

definition run_all_fetches :: "intel_env \<Rightarrow> db_state \<Rightarrow> db_state" where
  "run_all_fetches env db = fetch_ci_army env (fetch_binary_defense env (fetch_feodo_tracker env db))"

subsection \<open>The thread\<close>

datatype intel_phase = NO_THREAD | FETCHING | WAITING | FINISHED

record intel_state =
  ti_running :: bool
  ti_requested :: bool
  ti_phase :: intel_phase
  ti_rounds :: nat

definition intel_boot :: intel_state where
  "intel_boot = \<lparr>ti_running = False, ti_requested = False, ti_phase = NO_THREAD, ti_rounds = 0\<rparr>"

definition init_threat_intel :: "bool \<Rightarrow> intel_state \<Rightarrow> intel_state \<times> int" where
  "init_threat_intel create_ok st =
     (if ti_running st then (st, 0)
      else if \<not> create_ok then (st\<lparr>ti_running := False\<rparr>, - 1)
      else (st\<lparr>ti_running := True, ti_phase := FETCHING, ti_rounds := ti_rounds st + 1\<rparr>, 0))"

definition trigger_feed_fetch :: "intel_state \<Rightarrow> intel_state" where
  "trigger_feed_fetch st = st\<lparr>ti_requested := True\<rparr>"

text \<open>\<^verbatim>\<open>cleanup_threat_intel\<close> up to \<^verbatim>\<open>pthread_join\<close>, which returns once the thread has finished.\<close>

definition cleanup_threat_intel :: "intel_state \<Rightarrow> intel_state" where
  "cleanup_threat_intel st = (if \<not> ti_running st then st else st\<lparr>ti_running := False\<rparr>)"

text \<open>One stretch of \<^verbatim>\<open>intel_aggregator_thread\<close>; \<^term>\<open>timeout\<close> tells whether the wait ended by \<^verbatim>\<open>ETIMEDOUT\<close>.\<close>

definition intel_thread_step :: "intel_env \<times> bool \<Rightarrow> intel_state \<times> db_state \<Rightarrow> intel_state \<times> db_state" where
  "intel_thread_step e s =
     (case (e, s) of ((env, timeout), (st, db)) \<Rightarrow>
        (case ti_phase st of
           FETCHING \<Rightarrow> (st\<lparr>ti_phase := (if ti_running st then WAITING else FINISHED)\<rparr>, run_all_fetches env db)
         | WAITING \<Rightarrow>
             if ti_requested st \<or> \<not> ti_running st \<or> timeout
             then (if ti_running st then st\<lparr>ti_requested := False, ti_phase := FETCHING, ti_rounds := ti_rounds st + 1\<rparr>
                   else st\<lparr>ti_requested := False, ti_phase := FINISHED\<rparr>, db)
             else (st, db)
         | _ \<Rightarrow> (st, db)))"

text \<open>Start, requests, shutdown and steps of the thread in any order.\<close>

inductive intel_reachable :: "intel_state \<Rightarrow> bool" where
  boot: "intel_reachable intel_boot"
| start: "intel_reachable st \<Longrightarrow> ti_phase st = NO_THREAD \<Longrightarrow> intel_reachable (fst (init_threat_intel ok st))"
| trigger: "intel_reachable st \<Longrightarrow> intel_reachable (trigger_feed_fetch st)"
| cleanup: "intel_reachable st \<Longrightarrow> intel_reachable (cleanup_threat_intel st)"
| thread: "intel_reachable st \<Longrightarrow> intel_reachable (fst (intel_thread_step e (st, db)))"

subsection \<open>Lemmas\<close>

lemma intel_running_phase: "intel_reachable st \<Longrightarrow> ti_running st \<Longrightarrow> ti_phase st = FETCHING \<or> ti_phase st = WAITING"
  by (induction rule: intel_reachable.induct)
    (auto simp: intel_boot_def init_threat_intel_def trigger_feed_fetch_def cleanup_threat_intel_def intel_thread_step_def
      split: prod.splits intel_phase.splits if_splits)

definition feed_ips :: "string \<Rightarrow> string list" where
  "feed_ips s = filter (\<lambda>ip. ip \<noteq> []) (map (scan_buf 63) (filter (\<lambda>l. hd l \<noteq> CHR ''#'' \<and> length l > 6) (feed_lines s)))"

definition feed_statements :: "feed \<Rightarrow> string \<Rightarrow> (string \<times> string option list) list" where
  "feed_statements f ip =
     [(sql_save_intel, [Some (fd_name f), Some ''ip'', Some ip, Some (fd_threat f), Some (dec_int (fd_confidence f)), Some (fd_source f)]),
      (sql_update_reputation, [Some ip, Some (dec_int (fd_score f)), Some (dec_int 100), Some (dec_int (fd_score f)), Some (fd_threat f)])]"

lemma import_lines_log:
  "db_log (fold (import_line env f) ls db) = db_log db @ concat (map (feed_statements f)
     (filter (\<lambda>ip. ip \<noteq> []) (map (scan_buf 63) (filter (\<lambda>l. hd l \<noteq> CHR ''#'' \<and> length l > 6) ls))))"
  by (induction ls arbitrary: db)
    (simp_all add: import_line_def Let_def feed_statements_def db_save_threat_intel_def db_update_ip_reputation_def)

lemma fetch_feed_log:
  assumes "download_url env (fd_url f) = Some data"
  shows "db_log (fetch_feed env f db) = db_log db @ concat (map (feed_statements f) (feed_ips data))"
  using assms by (simp add: fetch_feed_def import_lines_log feed_ips_def)

text \<open>A list with one plain address per line is read completely.\<close>

lemma feed_lines_line: "l \<noteq> [] \<Longrightarrow> set l \<inter> set line_ends = {} \<Longrightarrow> feed_lines (l @ CHR 0x0A # rest) = l # feed_lines rest"
  by (subst feed_lines.simps) (simp add: strtok_prefix line_ends_def)

lemma feed_ips_plain:
  assumes "list_all (\<lambda>ip. 6 < length ip \<and> length ip \<le> 63 \<and> hd ip \<noteq> CHR ''#'' \<and> list_all (\<lambda>c. \<not> isspace c) ip) ips"
  shows "feed_ips (concat (map (\<lambda>ip. ip @ [CHR 0x0A]) ips)) = ips"
  using assms
proof (induction ips)
  case Nil
  then show ?case by (simp add: feed_ips_def feed_lines.simps [of "[]"] strtok_def)
next
  case (Cons ip ips)
  have ns: "\<forall>c\<in>set ip. \<not> isspace c" and len: "6 < length ip" "length ip \<le> 63" using Cons.prems by (auto simp: list_all_iff)
  have "isspace (CHR 0x0D)" "isspace (CHR 0x0A)" by code_simp+
  then have "set ip \<inter> set line_ends = {}" using ns by (auto simp: line_ends_def)
  moreover have "ip \<noteq> []" using len by auto
  ultimately have "feed_lines (ip @ CHR 0x0A # concat (map (\<lambda>ip. ip @ [CHR 0x0A]) ips)) =
      ip # feed_lines (concat (map (\<lambda>ip. ip @ [CHR 0x0A]) ips))" by (rule feed_lines_line [rotated])
  moreover have "scan_buf 63 ip = ip"
  proof -
    have t: "takeWhile (\<lambda>c. \<not> isspace c) ip = ip" using ns by (simp add: takeWhile_eq_all_conv)
    have d: "dropWhile isspace ip = ip" using ns \<open>ip \<noteq> []\<close> by (simp add: dropWhile_eq_self_iff)
    show ?thesis by (simp only: scan_buf_def scan_word_def Let_def d t) (use len \<open>ip \<noteq> []\<close> in simp)
  qed
  ultimately show ?case using Cons len \<open>ip \<noteq> []\<close> by (simp add: feed_ips_def)
qed

subsection \<open>Properties\<close>

text \<open>A feed of plain addresses is imported completely: each address, in order, is saved as an indicator of the feed and
  entered into the reputation table with the score of the feed; other lists of the database are not touched.\<close>

theorem intel_feed_imported:
  assumes "download_url env (fd_url f) = Some (concat (map (\<lambda>ip. ip @ [CHR 0x0A]) ips))"
    and "list_all (\<lambda>ip. 6 < length ip \<and> length ip \<le> 63 \<and> hd ip \<noteq> CHR ''#'' \<and> list_all (\<lambda>c. \<not> isspace c) ip) ips"
  shows "db_log (fetch_feed env f db) = db_log db @ concat (map (feed_statements f) ips)"
  using fetch_feed_log [OF assms(1)] feed_ips_plain [OF assms(2)] by simp

text \<open>C40: Requests are served and shutdown ends: while the thread runs, a request for a fetch, at whatever moment it comes, is
  followed by a new round of downloads within two steps of the thread, even if one was under way; and after shutdown was
  requested instead, the thread is finished after its next step, so that \<^verbatim>\<open>pthread_join\<close> returns.\<close>

theorem intel_request_served:
  assumes "intel_reachable st" "ti_running st"
  shows "ti_rounds st < ti_rounds (fst (intel_thread_step e2 (intel_thread_step e1 (trigger_feed_fetch st, db)))) \<and>
    ti_phase (fst (intel_thread_step e1 (cleanup_threat_intel st, db))) = FINISHED"
  using intel_running_phase [OF assms] assms(2)
  by (auto simp: intel_thread_step_def trigger_feed_fetch_def cleanup_threat_intel_def split: prod.split)

definition sample_intel :: intel_env where
  "sample_intel = \<lparr>ie_db = sample_db, ie_curl = (\<lambda>_. ([], False)), ie_stale = []\<rparr>"

theorem intel_request_served_witness:
  "0 < ti_rounds (fst (intel_thread_step (sample_intel, False) (intel_thread_step (sample_intel, False)
      (trigger_feed_fetch (fst (init_threat_intel True intel_boot)), \<lparr>db_conn = None, db_log = []\<rparr>))))"
proof -
  have "intel_reachable (fst (init_threat_intel True intel_boot))"
    by (rule intel_reachable.start [OF intel_reachable.boot]) (simp add: intel_boot_def)
  moreover have "ti_running (fst (init_threat_intel True intel_boot))" by (simp add: init_threat_intel_def intel_boot_def)
  ultimately show ?thesis
    using intel_request_served [of "fst (init_threat_intel True intel_boot)" "(sample_intel, False)" "(sample_intel, False)"
        "\<lparr>db_conn = None, db_log = []\<rparr>"] by linarith
qed

end
