(* ===== verification/Soc_Api.thy ===== *)
theory Soc_Api
  imports Soc_Receiver Threat_Intel
begin

section \<open>The web interface of the server (soc\_receiver.c)\<close>

text \<open>
  The second half of \<^verbatim>\<open>soc_receiver.c\<close>: HTTP connections on the web port, collected in a buffer of 8192 bytes,
  the REST interface with its session check, the stream of live events and the static files.

  \<^item> \<open>as_soc\<close> is the state shared with the agent side, \<open>as_intel\<close> the thread of the feeds, \<open>as_conns\<close> the HTTP
    connections by descriptor.
  \<^item> \<open>as_replies\<close> lists what is handed to \<^verbatim>\<open>write\<close> for each reply, header and body; the code does not look at how
    much of it the socket takes.
  \<^item> Clock, HMAC, \<^verbatim>\<open>crypt\<close>, the users file and the static files are inputs. \<open>ap_stale\<close> is what the uninitialised
    buffer of a token holds when there is nothing to scan.
\<close>

subsection \<open>State\<close>

record http_connection =
  hc_client_ip :: string
  hc_buf :: "byte list"
  hc_bytes_read :: nat

text \<open>A static file: \<^verbatim>\<open>open\<close> fails, \<^verbatim>\<open>read\<close> delivers the content, or \<^verbatim>\<open>read\<close> fails.\<close>

datatype file_read = NO_FILE | CONTENT "byte list" | READ_ERROR

record api_env =
  ap_soc :: soc_env
  ap_now :: nat
  ap_hmac :: "byte list \<Rightarrow> string \<Rightarrow> byte list"
  ap_crypt :: "string \<Rightarrow> string \<Rightarrow> string option"
  ap_users :: "string option"
  ap_files :: "string \<Rightarrow> file_read"
  ap_beyond :: "byte list"
  ap_malloc :: bool
  ap_stale :: string

record api_state =
  as_soc :: soc_state
  as_intel :: intel_state
  as_conns :: "int \<Rightarrow> http_connection option"
  as_replies :: "(int \<times> string \<times> byte list) list"

definition HTTP_BUF :: nat where "HTTP_BUF = 8192"

subsection \<open>Replies\<close>

definition http_header :: "nat \<Rightarrow> string \<Rightarrow> string \<Rightarrow> string \<Rightarrow> nat \<Rightarrow> string" where
  "http_header status_code status_text content_type extra_headers blen =
     ''HTTP/1.1 '' @ dec_nat status_code @ '' '' @ status_text @ CRLF @
     ''Content-Type: '' @ content_type @ CRLF @
     ''Content-Length: '' @ dec_nat blen @ CRLF @
     ''Access-Control-Allow-Origin: *'' @ CRLF @
     ''Access-Control-Allow-Methods: GET, POST, PUT, DELETE, OPTIONS'' @ CRLF @
     ''Access-Control-Allow-Headers: Content-Type, Cookie'' @ CRLF @
     ''Connection: close'' @ CRLF @ extra_headers @ CRLF"

text \<open>The bodies are C strings or buffers, of which \<^term>\<open>blen\<close> bytes are written: a string may include its terminator.\<close>

definition send_http_response ::
    "int \<Rightarrow> nat \<Rightarrow> string \<Rightarrow> string \<Rightarrow> string \<Rightarrow> byte list \<Rightarrow> nat \<Rightarrow> api_state \<Rightarrow> api_state" where
  "send_http_response fd status_code status_text content_type extra_headers body blen st =
     st\<lparr>as_replies := as_replies st @
        [(fd, http_header status_code status_text content_type extra_headers blen, take blen (body @ [NUL]))]\<rparr>"

definition JSON :: string where "JSON = ''application/json''"

definition reply_json :: "int \<Rightarrow> string \<Rightarrow> api_state \<Rightarrow> api_state" where
  "reply_json fd json = send_http_response fd 200 ''OK'' JSON [] json (length json)"

definition reply_ok :: "int \<Rightarrow> string \<Rightarrow> nat \<Rightarrow> api_state \<Rightarrow> api_state" where
  "reply_ok fd body n = send_http_response fd 200 ''OK'' JSON [] body n"

definition reply_bad :: "int \<Rightarrow> string \<Rightarrow> nat \<Rightarrow> api_state \<Rightarrow> api_state" where
  "reply_bad fd body n = send_http_response fd 400 ''Bad Request'' JSON [] body n"

definition dashboard_path :: "string \<Rightarrow> string" where
  "dashboard_path url_path =
     snprintf_buf 512 (''/usr/local/share/soc/dashboard'' @ (if url_path = ''/'' then ''/index.html'' else url_path))"

definition content_type_of :: "string \<Rightarrow> string" where
  "content_type_of file_path =
     (if strstr_found file_path ''.html'' then ''text/html''
      else if strstr_found file_path ''.css'' then ''text/css''
      else if strstr_found file_path ''.js'' then ''application/javascript''
      else if strstr_found file_path ''.png'' then ''image/png''
      else if strstr_found file_path ''.svg'' then ''image/svg+xml''
      else ''text/plain'')"

text \<open>
  A failed \<^verbatim>\<open>read\<close> passes -1 on as the length: the header announces \<open>2 ^ 64 - 1\<close> bytes and \<^verbatim>\<open>write\<close> is asked for as many
  from the buffer, of which it delivers what it can (\<open>ap_beyond\<close>).
\<close>

definition serve_static_file :: "api_env \<Rightarrow> int \<Rightarrow> string \<Rightarrow> api_state \<Rightarrow> api_state" where
  "serve_static_file env fd url_path st =
     (if strstr_found url_path ''..'' then send_http_response fd 403 ''Forbidden'' ''text/plain'' [] ''Access Denied'' 13 st
      else
        let file_path = dashboard_path url_path in
        (case ap_files env file_path of
           NO_FILE \<Rightarrow> send_http_response fd 404 ''Not Found'' ''text/plain'' [] ''File Not Found'' 14 st
         | r \<Rightarrow>
             if \<not> ap_malloc env then send_http_response fd 500 ''Internal Error'' ''text/plain'' [] ''OOM'' 3 st
             else (case r of
                CONTENT content \<Rightarrow> send_http_response fd 200 ''OK'' (content_type_of file_path) [] content (length content) st
              | _ \<Rightarrow> st\<lparr>as_replies := as_replies st @
                      [(fd, http_header 200 ''OK'' (content_type_of file_path) [] (2 ^ 64 - 1), ap_beyond env)]\<rparr>)))"

subsection \<open>Reading requests\<close>

text \<open>The text after the first occurrence of a pattern.\<close>

definition after_text :: "string \<Rightarrow> string \<Rightarrow> string option" where
  "after_text s pat = map_option (\<lambda>i. drop (i + length pat) s) (strstr s pat)"

text \<open>\<^verbatim>\<open>sscanf(ptr, "\"name\":\"%<n>[^\"]\"", buf)\<close> at the first \<^verbatim>\<open>"name":"\<close> of the body.\<close>

definition json_pattern :: "string \<Rightarrow> string" where
  \<open>json_pattern name = ''"'' @ name @ ''":"''\<close>

definition until_quote :: "nat \<Rightarrow> string \<Rightarrow> string" where
  \<open>until_quote n s = take n (takeWhile (\<lambda>c. c \<noteq> CHR ''"'') s)\<close>

definition json_field :: "string \<Rightarrow> nat \<Rightarrow> string \<Rightarrow> string" where
  "json_field name n body = (case after_text body (json_pattern name) of None \<Rightarrow> [] | Some s \<Rightarrow> until_quote n s)"

definition cookie_token :: "string \<Rightarrow> string option" where
  "cookie_token cookie = map_option (\<lambda>t. take 511 (takeWhile (\<lambda>c. c \<noteq> CHR '';'') t)) (after_text cookie ''session_token='')"

text \<open>Whether the cookie carries a session; \<^verbatim>\<open>auth_ok == 0\<close>.\<close>

definition session_ok :: "api_env \<Rightarrow> string \<Rightarrow> api_state \<Rightarrow> bool" where
  "session_ok env token st \<longleftrightarrow> auth_verify_session_token (ap_hmac env) (srv_auth (as_soc st)) (ap_now env) token 128 \<noteq> None"

definition cookie_ok :: "api_env \<Rightarrow> string option \<Rightarrow> api_state \<Rightarrow> bool" where
  "cookie_ok env cookie st =
     (case cookie of None \<Rightarrow> False
      | Some c \<Rightarrow> (case cookie_token c of None \<Rightarrow> False | Some t \<Rightarrow> session_ok env t st))"

subsection \<open>Requests\<close>

definition on_db :: "(db_state \<Rightarrow> db_state \<times> 'a) \<Rightarrow> api_state \<Rightarrow> api_state \<times> 'a" where
  "on_db f st = (case f (srv_db (as_soc st)) of (db, r) \<Rightarrow> (st\<lparr>as_soc := (as_soc st)\<lparr>srv_db := db\<rparr>\<rparr>, r))"

definition api_login :: "api_env \<Rightarrow> int \<Rightarrow> string \<Rightarrow> api_state \<Rightarrow> api_state" where
  \<open>api_login env fd body st =
     (let both = (strstr_found body (json_pattern ''username'') \<and> strstr_found body (json_pattern ''password''));
          user = (if both then json_field ''username'' 63 body else []);
          pass = (if both then json_field ''password'' 63 body else []) in
      if length user > 0 \<and> length pass > 0 \<and> auth_verify_login (ap_crypt env) (ap_users env) user pass then
        (let session_token = auth_generate_session_token (ap_hmac env) (srv_auth (as_soc st)) (ap_now env) user 512;
             cookie_header = snprintf_buf 1024 (''Set-Cookie: session_token='' @ session_token @
               ''; Path=/; HttpOnly; SameSite=Strict; Max-Age=28800'' @ CRLF)
         in send_http_response fd 200 ''OK'' JSON cookie_header ''{"status":"success"}'' 20 st)
      else send_http_response fd 401 ''Unauthorized'' JSON [] ''{"status":"failed"}'' 19 st)\<close>

text \<open>A byte of the identity in \<^verbatim>\<open>DELETE /api/v2/agents/\<close>: \<^verbatim>\<open>sscanf("%2x")\<close> of two characters of a cleared buffer.\<close>

definition hex_part :: "string \<Rightarrow> nat \<Rightarrow> string" where
  "hex_part uuid_str i = cstr (take 2 (drop (2 * i) (uuid_str @ replicate 64 NUL)))"

definition hex_scanned :: "string \<Rightarrow> bool" where
  "hex_scanned s =
     (let w = take 2 (dropWhile isspace s);
          d = (if w \<noteq> [] \<and> hd w \<in> {CHR ''+'', CHR ''-''} then tl w else w)
      in d \<noteq> [] \<and> isxdigit (hd d))"

definition parse_api_uuid :: "string \<Rightarrow> byte list option" where
  "parse_api_uuid uuid_str =
     (if list_all (\<lambda>i. hex_scanned (hex_part uuid_str i)) [0..<16]
      then Some (map (\<lambda>i. scan_hex2 0 (hex_part uuid_str i)) [0..<16]) else None)"

definition api_remove_agent :: "api_env \<Rightarrow> int \<Rightarrow> string \<Rightarrow> api_state \<Rightarrow> api_state" where
  \<open>api_remove_agent env fd path st =
     (case parse_api_uuid (scan_buf 63 (drop 15 path)) of
        None \<Rightarrow> reply_bad fd ''{"error":"invalid_uuid"}'' 24 st
      | Some target_uuid \<Rightarrow>
          (case on_db (db_remove_agent (sv_db (ap_soc env)) target_uuid) st of (st, rc) \<Rightarrow>
             if rc = 0 then reply_ok fd ''{"status":"removed"}'' 20 st
             else reply_bad fd ''{"error":"invalid_uuid"}'' 24 st))\<close>

definition api_block_ip :: "api_env \<Rightarrow> int \<Rightarrow> string \<Rightarrow> string \<Rightarrow> api_state \<Rightarrow> api_state" where
  \<open>api_block_ip env fd path body st =
     (let uuid_str = take 63 (takeWhile (\<lambda>c. c \<noteq> CHR ''/'') (drop 15 path)); ip_to_block = json_field ''ip'' 63 body in
      case (if length ip_to_block > 0 then inet_pton ip_to_block else None) of
        None \<Rightarrow> reply_bad fd ''{"error":"invalid_ip"}'' 22 st
      | Some net_ip \<Rightarrow>
          (let st = fst (on_db (db_add_to_blocklist (sv_db (ap_soc env)) ip_to_block ''block'' ''Dashboard manual block'') st);
               (soc, rc) = send_command_to_agent (ap_soc env) uuid_str MSG_TYPE_BLOCK_IP (encode_u32 net_ip) (as_soc st);
               st = st\<lparr>as_soc := soc\<rparr>
           in if rc = 0 then reply_ok fd ''{"status":"blocked"}'' 20 st
              else send_http_response fd 404 ''Not Found'' JSON [] ''{"error":"agent_offline"}'' 25 st))\<close>

text \<open>The common end of the routes that change a table.\<close>

definition api_change :: "bool \<Rightarrow> (db_state \<Rightarrow> db_state \<times> int) \<Rightarrow> int \<Rightarrow> string \<Rightarrow> nat \<Rightarrow> api_state \<Rightarrow> api_state" where
  \<open>api_change ok f fd body n st =
     (if ok then (case on_db f st of (st, rc) \<Rightarrow>
          if rc = 0 then reply_ok fd body n st else reply_bad fd ''{"error":"invalid_input"}'' 25 st)
      else reply_bad fd ''{"error":"invalid_input"}'' 25 st)\<close>

definition api_query :: "(db_state \<Rightarrow> db_state \<times> string) \<Rightarrow> int \<Rightarrow> api_state \<Rightarrow> api_state" where
  "api_query f fd st = (case on_db f st of (st, json) \<Rightarrow> reply_json fd json st)"

definition config_value :: "string \<Rightarrow> string" where
  \<open>config_value body = (case after_text body ''"value":'' of None \<Rightarrow> []
     | Some s \<Rightarrow> take 255 (takeWhile (\<lambda>c. c \<noteq> CHR ''}'' \<and> c \<noteq> CHR '','') s))\<close>

definition api_set_config :: "api_env \<Rightarrow> int \<Rightarrow> string \<Rightarrow> api_state \<Rightarrow> api_state" where
  \<open>api_set_config env fd body st =
     (let key = json_field ''key'' 63 body; cat = json_field ''category'' 63 body
      in api_change (length key > 0) (db_set_config (sv_db (ap_soc env)) key (config_value body) cat ''Updated via dashboard'') fd
           ''{"status":"saved"}'' 18 st)\<close>

definition query_int :: "string \<Rightarrow> string \<Rightarrow> int \<Rightarrow> int" where
  "query_int path name dflt = (case after_text path name of None \<Rightarrow> dflt | Some s \<Rightarrow> atoi s)"

definition api_events :: "api_env \<Rightarrow> int \<Rightarrow> string \<Rightarrow> api_state \<Rightarrow> api_state" where
  "api_events env fd path st =
     (let agent_filter = (case after_text path ''agent='' of None \<Rightarrow> [] | Some s \<Rightarrow> scan_buf 63 s)
      in api_query (db_get_events_json (sv_db (ap_soc env)) (query_int path ''limit='' 50) (query_int path ''offset='' 0)
           (if length agent_filter > 0 then Some agent_filter else None)) fd st)"

definition live_header :: string where
  "live_header = ''HTTP/1.1 200 OK'' @ CRLF @ ''Content-Type: text/event-stream'' @ CRLF @ ''Cache-Control: no-cache'' @ CRLF @
     ''Connection: keep-alive'' @ CRLF @ ''Access-Control-Allow-Origin: *'' @ CRLF @ CRLF"

text \<open>The token in the query of the live stream.\<close>

definition live_token :: "api_env \<Rightarrow> string \<Rightarrow> string option" where
  "live_token env path = map_option (\<lambda>s. case scan_word 511 s of None \<Rightarrow> ap_stale env | Some (w, _) \<Rightarrow> w) (after_text path ''token='')"

definition live_ok :: "api_env \<Rightarrow> string \<Rightarrow> api_state \<Rightarrow> bool" where
  "live_ok env path st = (case live_token env path of None \<Rightarrow> False | Some t \<Rightarrow> session_ok env t st)"

definition api_live :: "api_env \<Rightarrow> bool \<Rightarrow> int \<Rightarrow> string \<Rightarrow> api_state \<Rightarrow> api_state" where
  "api_live env auth_ok fd path st =
     (if \<not> auth_ok \<and> \<not> live_ok env path st then send_http_response fd 401 ''Unauthorized'' ''text/plain'' [] ''Unauthorized'' 12 st
      else st\<lparr>as_replies := as_replies st @ [(fd, live_header, [])], as_soc := sse_add fd (as_soc st)\<rparr>)"

definition api_route :: "api_env \<Rightarrow> bool \<Rightarrow> int \<Rightarrow> string \<Rightarrow> string \<Rightarrow> string \<Rightarrow> api_state \<Rightarrow> api_state" where
  \<open>api_route env auth_ok fd method path body st =
     (let db = sv_db (ap_soc env); get = (method = ''GET''); post = (method = ''POST''); del = (method = ''DELETE'') in
      if get \<and> path \<in> {''/api/stats'', ''/api/v2/dashboard/stats''} then api_query (db_get_stats_json db) fd st
      else if get \<and> path \<in> {''/api/agents'', ''/api/v2/agents''} then api_query (db_get_agents_json db) fd st
      else if del \<and> take 15 path = ''/api/v2/agents/'' then api_remove_agent env fd path st
      else if post \<and> take 15 path = ''/api/v2/agents/'' \<and> strstr_found path ''/block-ip'' then api_block_ip env fd path body st
      else if get \<and> path = ''/api/v2/blocklist'' then api_query (db_get_blocklist_json db ''block'') fd st
      else if post \<and> path = ''/api/v2/blocklist'' then
        (let ip_cidr = json_field ''ip_cidr'' 63 body; reason = json_field ''reason'' 127 body
         in api_change (length ip_cidr > 0) (db_add_to_blocklist db ip_cidr ''block'' reason) fd ''{"status":"added"}'' 18 st)
      else if del \<and> take 18 path = ''/api/v2/blocklist/'' then
        (let ip_cidr = scan_buf 63 (drop 18 path)
         in api_change (length ip_cidr > 0) (db_remove_from_blocklist db ip_cidr ''block'') fd ''{"status":"removed"}'' 20 st)
      else if get \<and> path = ''/api/v2/reputation'' then api_query (db_get_reputation_json db None) fd st
      else if get \<and> path = ''/api/v2/yara/rules'' then api_query (db_get_yara_rules_json db) fd st
      else if post \<and> path = ''/api/v2/yara/rules'' then
        (let name = json_field ''name'' 127 body; content = json_field ''content'' 4095 body
         in api_change (length name > 0) (db_add_yara_rule db name content) fd ''{"status":"added"}'' 18 st)
      else if del \<and> take 19 path = ''/api/v2/yara/rules/'' then
        (let name = scan_buf 127 (drop 19 path)
         in api_change (length name > 0) (db_delete_yara_rule db name) fd ''{"status":"removed"}'' 20 st)
      else if get \<and> path = ''/api/v2/config'' then api_query (db_get_config_json db) fd st
      else if post \<and> path = ''/api/v2/config'' then api_set_config env fd body st
      else if get \<and> path = ''/api/v2/threat-intel'' then api_query (db_get_threat_intel_json db) fd st
      else if post \<and> path = ''/api/v2/threat-intel/fetch'' then
        reply_ok fd ''{"status":"fetching"}'' 21 (st\<lparr>as_intel := trigger_feed_fetch (as_intel st)\<rparr>)
      else if get \<and> take 11 path = ''/api/events'' \<and> take 16 path \<noteq> ''/api/events/live'' then api_events env fd path st
      else if get \<and> take 16 path = ''/api/events/live'' then api_live env auth_ok fd path st
      else send_http_response fd 404 ''Not Found'' JSON [] ''{"error":"not_found"}'' 22 st)\<close>

definition handle_api_request ::
    "api_env \<Rightarrow> int \<Rightarrow> string \<Rightarrow> string \<Rightarrow> string \<Rightarrow> string option \<Rightarrow> api_state \<Rightarrow> api_state" where
  \<open>handle_api_request env fd method path body cookie st =
     (if method = ''OPTIONS'' then send_http_response fd 204 ''No Content'' ''text/plain'' [] [] 0 st
      else
        let auth_ok = cookie_ok env cookie st in
        if method = ''POST'' \<and> path = ''/auth'' then api_login env fd body st
        else if \<not> auth_ok \<and> take 16 path \<noteq> ''/api/events/live''
        then send_http_response fd 401 ''Unauthorized'' JSON [] ''{"error":"unauthenticated"}'' 27 st
        else api_route env auth_ok fd method path body st)\<close>

subsection \<open>Connections\<close>

definition accept_web :: "api_env \<Rightarrow> int \<Rightarrow> u32 \<Rightarrow> api_state \<Rightarrow> api_state" where
  "accept_web env client_fd addr st =
     (if client_fd < 0 then st
      else if \<not> auth_check_ip (sv_ub_shift (ap_soc env)) (srv_auth (as_soc st)) (inet_ntop addr) then st
      else st\<lparr>as_conns := (as_conns st)(client_fd :=
             Some \<lparr>hc_client_ip = inet_ntop addr, hc_buf = replicate HTTP_BUF NUL, hc_bytes_read = 0\<rparr>)\<rparr>)"

definition close_web :: "int \<Rightarrow> api_state \<Rightarrow> api_state" where
  "close_web fd st = st\<lparr>as_conns := (as_conns st)(fd := None)\<rparr>"

text \<open>\<^verbatim>\<open>strcasestr\<close>: the text from the first occurrence, ignoring case.\<close>

fun strcasestr :: "string \<Rightarrow> string \<Rightarrow> string option" where
  "strcasestr [] n = (if n = [] then Some [] else None)"
| "strcasestr (c # cs) n =
     (if map tolower (take (length n) (c # cs)) = map tolower n then Some (c # cs) else strcasestr cs n)"

text \<open>The literal of \<^verbatim>\<open>sscanf\<close> is compared exactly, so only the spelling \<^verbatim>\<open>Cookie:\<close> yields a value.\<close>

definition cookie_value :: "string \<Rightarrow> string" where
  "cookie_value buf =
     (case strcasestr buf ''Cookie:'' of None \<Rightarrow> []
      | Some h \<Rightarrow> if take 7 h = ''Cookie:''
                  then take 511 (takeWhile (\<lambda>c. c \<noteq> CHR 0x0D \<and> c \<noteq> CHR 0x0A) (dropWhile isspace (drop 7 h))) else [])"

definition content_length :: "string \<Rightarrow> int" where
  "content_length buf = (case strcasestr buf ''Content-Length:'' of None \<Rightarrow> 0 | Some h \<Rightarrow> atoi (drop 15 h))"

definition request_line :: "string \<Rightarrow> string \<times> string" where
  "request_line buf =
     (case scan_word 15 buf of None \<Rightarrow> ([], [])
      | Some (method, rest) \<Rightarrow> (method, case scan_word 511 rest of None \<Rightarrow> [] | Some (path, _) \<Rightarrow> path))"

text \<open>A request in the buffer of a connection whose headers end at \<^term>\<open>i\<close>.\<close>

definition serve_request :: "api_env \<Rightarrow> int \<Rightarrow> string \<Rightarrow> nat \<Rightarrow> nat \<Rightarrow> api_state \<Rightarrow> api_state" where
  "serve_request env fd buf bytes_read i st =
     (let (method, path) = request_line buf; cookie_val = cookie_value buf;
          body = drop (i + 4) buf; body_read = int bytes_read - int (i + 4) in
      if method = ''POST'' \<and> body_read < content_length buf then st
      else
        let st = (if take 5 path = ''/api/'' \<or> path = ''/auth''
                  then handle_api_request env fd method path body (if length cookie_val > 0 then Some cookie_val else None) st
                  else serve_static_file env fd path st)
        in if path \<noteq> ''/api/events/live'' then close_web fd st else st)"

definition web_readable :: "api_env \<Rightarrow> read_result list \<Rightarrow> int \<Rightarrow> api_state \<Rightarrow> api_state \<times> read_result list" where
  "web_readable env rs fd st =
     (case as_conns st fd of None \<Rightarrow> (st, rs)
      | Some conn \<Rightarrow>
          (let room = HTTP_BUF - hc_bytes_read conn - 1 in
           if room = 0 then (close_web fd st, rs)
           else (case sock_read room rs of
              (GOT bs, rs) \<Rightarrow>
                (let n = hc_bytes_read conn + length bs;
                     conn = conn\<lparr>hc_buf := poke (poke (hc_buf conn) (hc_bytes_read conn) bs) n [NUL], hc_bytes_read := n\<rparr>;
                     st = st\<lparr>as_conns := (as_conns st)(fd := Some conn)\<rparr>;
                     buf = cstr (hc_buf conn)
                 in case strstr buf (CRLF @ CRLF) of
                      None \<Rightarrow> (st, rs)
                    | Some i \<Rightarrow> (serve_request env fd buf n i st, rs))
            | (AGAIN, rs) \<Rightarrow> (st, rs)
            | (_, rs) \<Rightarrow> (close_web fd st, rs))))"

subsection \<open>Lemmas\<close>

lemma response_simps [simp]:
  "as_soc (send_http_response fd c t ct ex b n st) = as_soc st" "as_intel (send_http_response fd c t ct ex b n st) = as_intel st"
  "as_conns (send_http_response fd c t ct ex b n st) = as_conns st"
  by (simp_all add: send_http_response_def)

lemma login_simps [simp]:
  "as_soc (api_login env fd body st) = as_soc st" "as_intel (api_login env fd body st) = as_intel st"
  "as_conns (api_login env fd body st) = as_conns st"
  by (simp_all add: api_login_def Let_def)

lemma static_simps [simp]:
  "as_soc (serve_static_file env fd p st) = as_soc st" "as_intel (serve_static_file env fd p st) = as_intel st"
  "as_conns (serve_static_file env fd p st) = as_conns st"
  by (simp_all add: serve_static_file_def Let_def split: file_read.split)

text \<open>The only route behind the prefix of the live stream.\<close>

lemma route_live:
  assumes "take 16 path = ''/api/events/live''"
  shows "api_route env a fd method path body st =
    (if method = ''GET'' then api_live env a fd path st
     else send_http_response fd 404 ''Not Found'' JSON [] (''{'' @ json_str ''error'' ''not_found'' @ ''}'') 22 st)"
proof -
  have pre: "take n path = take n ''/api/events/live''" if "n \<le> 16" for n
    using that assms by (metis min.absorb_iff1 take_take)
  have longer: "take n path \<noteq> l" if "take 16 l \<noteq> ''/api/events/live''" "16 \<le> n" for n l
    using that assms by (metis min.absorb_iff1 take_take)
  have other: "path \<noteq> l" if "take 16 l \<noteq> ''/api/events/live''" for l using that assms by blast
  have "take 15 path \<noteq> ''/api/v2/agents/''" using pre [of 15] by simp
  moreover have "take 18 path \<noteq> ''/api/v2/blocklist/''" "take 19 path \<noteq> ''/api/v2/yara/rules/''" by (simp_all add: longer)
  moreover have "path \<noteq> ''/api/stats''" "path \<noteq> ''/api/v2/dashboard/stats''" "path \<noteq> ''/api/agents''" "path \<noteq> ''/api/v2/agents''"
    "path \<noteq> ''/api/v2/blocklist''" "path \<noteq> ''/api/v2/reputation''" "path \<noteq> ''/api/v2/yara/rules''" "path \<noteq> ''/api/v2/config''"
    "path \<noteq> ''/api/v2/threat-intel''" "path \<noteq> ''/api/v2/threat-intel/fetch''"
    by (simp_all add: other)
  ultimately show ?thesis using assms unfolding api_route_def Let_def by (simp add: json_str_def)
qed

lemma handle_frame:
  assumes "\<not> cookie_ok env cookie st" "\<not> live_ok env path st"
  shows "as_soc (handle_api_request env fd method path body cookie st) = as_soc st \<and>
    as_intel (handle_api_request env fd method path body cookie st) = as_intel st"
  using assms by (simp add: handle_api_request_def Let_def route_live api_live_def)

lemma set_set_first_new: "old \<in> set xs \<Longrightarrow> new \<in> set (set_first old new xs)"
  by (induction xs) auto

lemma live_accepted:
  assumes "take 16 path = ''/api/events/live''" "live_ok env path st" "- 1 \<in> set (srv_sse (as_soc st))"
  shows "fd \<in> set (srv_sse (as_soc (handle_api_request env fd ''GET'' path body cookie st)))"
  using assms set_set_first_new [OF assms(3)]
  by (simp add: handle_api_request_def Let_def route_live api_live_def sse_add_def)

text \<open>The buffer of a web connection.\<close>

definition web_ok :: "api_state \<Rightarrow> bool" where
  "web_ok st \<longleftrightarrow> (\<forall>fd c. as_conns st fd = Some c \<longrightarrow> length (hc_buf c) = HTTP_BUF \<and> hc_bytes_read c < HTTP_BUF)"

lemma on_db_conns [simp]: "as_conns (fst (on_db f st)) = as_conns st"
  by (simp add: on_db_def split: prod.split)

lemma handle_conns [simp]: "as_conns (handle_api_request env fd method path body cookie st) = as_conns st"
proof -
  have query: "as_conns (api_query f fd st) = as_conns st" for f fd st
    using on_db_conns [of f st] by (simp add: api_query_def reply_json_def case_prod_beta)
  have change: "as_conns (api_change ok f fd b n st) = as_conns st" for ok f fd b n st
    using on_db_conns [of f st] by (simp add: api_change_def reply_ok_def reply_bad_def case_prod_beta)
  have remove: "as_conns (api_remove_agent env fd p st) = as_conns st" for p
    by (simp add: api_remove_agent_def reply_ok_def reply_bad_def case_prod_beta split: option.split)
  have block: "as_conns (api_block_ip env fd p b st) = as_conns st" for p b
    by (simp add: api_block_ip_def reply_ok_def reply_bad_def Let_def case_prod_beta split: option.split)
  have "as_conns (api_route env a fd method path body st) = as_conns st" for a
    unfolding api_route_def Let_def
    by (simp add: query change remove block api_events_def api_set_config_def api_live_def reply_ok_def Let_def)
  then show ?thesis by (simp add: handle_api_request_def Let_def)
qed

lemma web_ok_cong: "as_conns st' = as_conns st \<Longrightarrow> web_ok st \<Longrightarrow> web_ok st'"
  by (simp add: web_ok_def)

lemma close_web_ok [pool_inv]: "web_ok st \<Longrightarrow> web_ok (close_web fd st)"
  by (simp add: web_ok_def close_web_def)

lemma serve_request_ok [pool_inv]: "web_ok st \<Longrightarrow> web_ok (serve_request env fd buf n i st)"
  by (auto simp: serve_request_def Let_def split: prod.split intro!: close_web_ok intro: web_ok_cong [of _ st])

text \<open>What is read, and the terminator behind it, always fits the buffer of 8192 bytes.\<close>

lemma web_readable_ok [pool_inv]:
  assumes "web_ok st"
  shows "web_ok (fst (web_readable env rs fd st))"
proof (cases "as_conns st fd")
  case (Some conn)
  let ?room = "HTTP_BUF - hc_bytes_read conn - 1"
  have c: "length (hc_buf conn) = HTTP_BUF" "hc_bytes_read conn < HTTP_BUF" using assms Some by (simp_all add: web_ok_def)
  obtain r rs' where r: "sock_read ?room rs = (r, rs')" by (cases "sock_read ?room rs")
  show ?thesis
  proof (cases "0 < ?room")
    case True
    have put: "web_ok (st\<lparr>as_conns := (as_conns st)(fd := Some conn')\<rparr>)"
      if "length (hc_buf conn') = HTTP_BUF" "hc_bytes_read conn' < HTTP_BUF" for conn'
      using assms that by (simp add: web_ok_def)
    show ?thesis
    proof (cases r)
      case (GOT bs)
      have "length bs \<le> ?room" using sock_read_GOT [of ?room rs bs rs'] r GOT True by simp
      then have n: "hc_bytes_read conn + length bs < HTTP_BUF" using True by simp
      then show ?thesis
        using Some True r GOT c put serve_request_ok [OF put]
        by (simp add: web_readable_def Let_def split: option.split)
    qed (use Some True r assms close_web_ok [OF assms] in \<open>simp_all add: web_readable_def\<close>)
  next
    case False
    then show ?thesis using Some close_web_ok [OF assms] by (simp add: web_readable_def)
  qed
qed (use assms in \<open>simp add: web_readable_def\<close>)

subsection \<open>Properties\<close>

text \<open>C20: Without a session nothing happens: a request whose cookie carries no valid session token, and whose query carries none for the
  live stream, whatever its method, path and body, changes neither the database, nor the agents and what is sent to them, nor the
  list of live clients, nor the feed thread, and runs no query.\<close>

theorem api_unauthenticated_harmless:
  assumes "\<not> cookie_ok env cookie st" "\<not> live_ok env path st"
  shows "as_soc (handle_api_request env fd method path body cookie st) = as_soc st \<and>
    as_intel (handle_api_request env fd method path body cookie st) = as_intel st"
  by (rule handle_frame [OF assms])

definition sample_api_env :: api_env where
  "sample_api_env = \<lparr>ap_soc = sample_soc_env, ap_now = 5, ap_hmac = (\<lambda>_ _. replicate 32 NUL), ap_crypt = (\<lambda>_ _. None), ap_users = None,
     ap_files = (\<lambda>_. NO_FILE), ap_beyond = [], ap_malloc = True, ap_stale = []\<rparr>"

definition sample_api :: api_state where
  "sample_api = \<lparr>as_soc = sample_soc, as_intel = intel_boot, as_conns = (\<lambda>_. None), as_replies = []\<rparr>"

theorem api_unauthenticated_harmless_witness:
  "as_soc (handle_api_request sample_api_env 7 ''DELETE'' ''/api/v2/yara/rules/all'' [] None sample_api) = sample_soc"
proof -
  have "\<not> cookie_ok sample_api_env None sample_api" by (simp add: cookie_ok_def)
  moreover have "after_text ''/api/v2/yara/rules/all'' ''token='' = None" by code_simp
  then have "\<not> live_ok sample_api_env ''/api/v2/yara/rules/all'' sample_api" by (simp add: live_ok_def live_token_def)
  ultimately show ?thesis
    using api_unauthenticated_harmless [of sample_api_env None sample_api "''/api/v2/yara/rules/all''" 7 "''DELETE''" "[]"]
    by (simp add: sample_api_def)
qed

text \<open>The live stream with a token in the query outlives its connection: the server registers the descriptor for live events and then
  closes it, because only the bare path keeps the connection open; the next alert is written to whatever has the descriptor
  number by then.\<close>

theorem api_live_token_stale_fd:
  assumes "request_line buf = (''GET'', path)" "take 16 path = ''/api/events/live''" "path \<noteq> ''/api/events/live''"
    and "live_ok env path st" "- 1 \<in> set (srv_sse (as_soc st))" "fd \<noteq> - 1" "sv_sse_write e fd"
  shows "let st' = serve_request env fd buf n i st in
    as_conns st' fd = None \<and> fd \<in> set (srv_sse (as_soc st')) \<and> (fd, sse_text j) \<in> set (srv_out (sse_broadcast e j (as_soc st')))"
proof -
  have "take 5 path = take 5 (take 16 path)" by simp
  then have "take 5 path = ''/api/''" using assms(2) by simp
  then have r: "serve_request env fd buf n i st = close_web fd
      (handle_api_request env fd ''GET'' path (drop (i + 4) buf) (if length (cookie_value buf) > 0 then Some (cookie_value buf) else None) st)"
    using assms(1,3) by (simp add: serve_request_def Let_def)
  have "fd \<in> set (srv_sse (as_soc (serve_request env fd buf n i st)))"
    unfolding r using live_accepted [OF assms(2,4,5)] by (simp add: close_web_def)
  then show ?thesis using assms(6,7) by (auto simp: Let_def r close_web_def sse_broadcast_def)
qed

definition sample_live :: string where
  "sample_live = ''/api/events/live?token=u:9:0000000000000000000000000000000000000000000000000000000000000000''"

lemma sample_session: "session_ok sample_api_env (drop 23 sample_live) st"
proof -
  let ?mac = "replicate 64 (CHR ''0'')" and ?h = "ap_hmac sample_api_env"
  have d: "char_of (48 :: nat) = CHR ''0''" by code_simp
  have h: "hex_byte NUL = [CHR ''0'', CHR ''0'']" by (simp add: hex_byte_def d)
  have "concat (replicate k [c, c]) = replicate (2 * k) c" for k and c :: char by (induction k) simp_all
  from this [of 32 "CHR ''0''"] have dd: "concat (replicate 32 [CHR ''0'', CHR ''0'']) = ?mac" by simp
  have "?h sec m = replicate 32 NUL" for sec m by (simp add: sample_api_env_def)
  then have mac: "hmac_hex ?h sec m = ?mac" for sec m
    by (simp only: hmac_hex_def hex_bytes_def take_replicate min.idem map_replicate h dd)
  have "dec_nat 9 = ''9''" by code_simp
  then have "session_token ''u'' 9 ?mac = drop 23 sample_live"
    by (simp add: session_token_def sample_live_def numeral_eq_Suc)
  moreover have "set ?mac \<inter> set wspace = {}" by (simp add: wspace_def)
  ultimately show ?thesis
    using verify_session_token [of "''u''" ?mac 9 ?h "srv_auth (as_soc st)" 5 128] mac
    by (simp only: session_ok_def option.case mac) (simp add: sample_api_env_def sample_live_def LLONG_MAX_def)
qed

lemma sample_live_ok: "live_ok sample_api_env sample_live st"
proof -
  have "live_token sample_api_env sample_live = Some (drop 23 sample_live)" by code_simp
  then show ?thesis using sample_session by (simp only: live_ok_def option.case)
qed

text \<open>The same session as a cookie.\<close>

definition sample_cookie :: string where
  "sample_cookie = ''session_token='' @ drop 23 sample_live"

lemma sample_cookie_ok: "cookie_ok sample_api_env (Some sample_cookie) st"
proof -
  have "cookie_token sample_cookie = Some (drop 23 sample_live)" by code_simp
  then show ?thesis using sample_session by (simp add: cookie_ok_def)
qed

theorem api_live_token_stale_fd_witness:
  "7 \<in> set (srv_sse (as_soc (serve_request sample_api_env 7 (''GET '' @ sample_live @ '' HTTP/1.1'' @ CRLF @ CRLF) 200 120 sample_api)))"
proof -
  have "request_line (''GET '' @ sample_live @ '' HTTP/1.1'' @ CRLF @ CRLF) = (''GET'', sample_live)" by code_simp
  moreover have "take 16 sample_live = ''/api/events/live''" "sample_live \<noteq> ''/api/events/live''" by (simp_all add: sample_live_def)
  moreover have "live_ok sample_api_env sample_live sample_api" by (rule sample_live_ok)
  moreover have "- 1 \<in> set (srv_sse (as_soc sample_api))" by (simp add: sample_api_def sample_soc_def sse_init_def MAX_SSE_CLIENTS_def)
  ultimately show ?thesis
    using api_live_token_stale_fd [of _ sample_live sample_api_env sample_api 7 sample_soc_env] by (simp add: Let_def sample_soc_env_def)
qed

text \<open>An identity written with dashes, as the list of agents shows it, is accepted by \<^verbatim>\<open>DELETE /api/v2/agents/\<close> but read as another
  one: from the first dash on the pairs of characters are shifted, and a dash is taken for a sign.\<close>

theorem api_dashed_uuid_misread:
  "hex_part ''01234567-89ab-cdef-0123-456789abcdef'' 4 = ''-8''" "hex_scanned ''-8''" "scan_hex2 0 ''-8'' = CHR 0xF8"
  by code_simp+

text \<open>The filter of \<^verbatim>\<open>/api/events\<close> ends at white space, not at the next parameter, so it is ignored unless it is the last one.\<close>

theorem api_agent_filter_swallows_query:
  "(case after_text ''/api/events?agent=01234567-89ab-cdef-0123-456789abcdef&limit=10'' ''agent='' of None \<Rightarrow> 0
    | Some s \<Rightarrow> length (scan_buf 63 s)) = 45"
  by code_simp

text \<open>The body of the 404 reply carries the terminator of its text.\<close>

theorem api_not_found_body:
  "as_replies (api_route env True fd ''PUT'' ''/api/x'' [] st) = as_replies st @
     [(fd, http_header 404 ''Not Found'' JSON [] 22, ''{'' @ json_str ''error'' ''not_found'' @ ''}'' @ [NUL])]"
  by (simp add: api_route_def send_http_response_def json_str_def)

end
