(* ===== verification/Soc_Server.thy ===== *)
theory Soc_Server
  imports Soc_Api
begin

section \<open>The server program (main of soc\_receiver.c)\<close>

text \<open>
  Start of the server and its event loop, which hands every readiness event of \<^verbatim>\<open>epoll\<close> to the handlers of
  \<open>Soc_Receiver\<close> and \<open>Soc_Api\<close>.

  \<^item> What the system calls of the start return is an input (\<open>start_env\<close>); \<open>se_db\<close> gives the database as each
    attempt to connect finds it, by the number of retries left.
  \<^item> A listening socket is the pair of its descriptor and the address it is bound to; the list of those that are
    open is part of the result of the start.
  \<^item> An event of the loop carries what the system calls of its handler deliver: the accepted descriptor and the
    address of the peer, the results of \<^verbatim>\<open>read\<close>, the local port that \<^verbatim>\<open>getsockname\<close> reports. The loop tells its listeners
    from connections by comparing the low half of the pointer stored with the event; events of connections are taken
    to be told apart, and events of freed connections are not modelled.
\<close>

subsection \<open>Start\<close>

definition PORT_AGENT :: nat where "PORT_AGENT = 1113"
definition PORT_WEB :: nat where "PORT_WEB = 8445"
definition PORT_LOCAL :: nat where "PORT_LOCAL = 8444"
definition INADDR_ANY :: u32 where "INADDR_ANY = 0"

text \<open>A listener: descriptor, address, port.\<close>

type_synonym listener = "int \<times> u32 \<times> nat"

datatype listen_result = SOCKET_FAILED | BIND_FAILED int | LISTEN_FAILED int | LISTENING int

definition close_fd :: "int \<Rightarrow> listener list \<Rightarrow> listener list" where
  "close_fd fd ls = filter (\<lambda>l. fst l \<noteq> fd) ls"

definition create_listen_socket :: "listen_result \<Rightarrow> nat \<Rightarrow> listener list \<Rightarrow> int \<times> listener list" where
  "create_listen_socket r port ls =
     (case r of
        SOCKET_FAILED \<Rightarrow> (- 1, ls)
      | BIND_FAILED fd \<Rightarrow> (- 1, close_fd fd (ls @ [(fd, INADDR_ANY, port)]))
      | LISTEN_FAILED fd \<Rightarrow> (- 1, close_fd fd (ls @ [(fd, INADDR_ANY, port)]))
      | LISTENING fd \<Rightarrow> (fd, ls @ [(fd, INADDR_ANY, port)]))"

text \<open>The attempts to connect; \<^verbatim>\<open>retries\<close> counts down.\<close>

fun db_retry :: "(nat \<Rightarrow> db_env) \<Rightarrow> nat \<Rightarrow> db_state \<Rightarrow> db_state \<times> bool" where
  "db_retry envs 0 db = (db, False)"
| "db_retry envs (Suc k) db =
     (case db_init (envs (Suc k)) None db of (db, rc) \<Rightarrow> if rc = 0 then (db, True) else db_retry envs k db)"

record start_env =
  se_db :: "nat \<Rightarrow> db_env"
  se_rand :: "byte list"
  se_whitelist :: "string option"
  se_thread :: bool
  se_agent :: listen_result
  se_web :: listen_result
  se_local :: listen_result
  se_epoll :: bool

datatype start_result = EXITED db_state intel_state "listener list" | RUNNING api_state int int int "listener list"

definition close_valid :: "int \<Rightarrow> listener list \<Rightarrow> listener list" where
  "close_valid fd ls = (if fd \<ge> 0 then close_fd fd ls else ls)"

definition server_start :: "start_env \<Rightarrow> auth_state \<Rightarrow> start_result" where
  "server_start env auth =
     (let (db, db_connected) = db_retry (se_db env) 15 \<lparr>db_conn = None, db_log = []\<rparr> in
      if \<not> db_connected then EXITED db intel_boot []
      else
        let auth = auth_init (se_rand env) (se_whitelist env) auth;
            intel = fst (init_threat_intel (se_thread env) intel_boot);
            (listen_agent_fd, ls) = create_listen_socket (se_agent env) PORT_AGENT [];
            (listen_web_fd, ls) = create_listen_socket (se_web env) PORT_WEB ls;
            (listen_local_fd, ls) = create_listen_socket (se_local env) PORT_LOCAL ls in
        if listen_agent_fd < 0 \<or> listen_web_fd < 0 \<or> listen_local_fd < 0 then
          EXITED (db_close db) (cleanup_threat_intel intel)
            (close_valid listen_local_fd (close_valid listen_web_fd (close_valid listen_agent_fd ls)))
        else if \<not> se_epoll env then
          EXITED (db_close db) (cleanup_threat_intel intel)
            (close_fd listen_local_fd (close_fd listen_web_fd (close_fd listen_agent_fd ls)))
        else
          RUNNING
            \<lparr>as_soc = \<lparr>srv_conns = (\<lambda>_. None), srv_agents = replicate MAX_CONNECTED_AGENTS None, srv_sse = sse_init,
               srv_db = db, srv_auth = auth, srv_out = [], srv_forwarded = []\<rparr>,
             as_intel = intel, as_conns = (\<lambda>_. None), as_replies = []\<rparr>
            listen_agent_fd listen_web_fd listen_local_fd ls)"

subsection \<open>Events\<close>

datatype soc_event =
    AGENT_CONNECT int u32
  | LOCAL_CONNECT int "read_result list"
  | WEB_CONNECT int u32
  | HANGUP int
  | READABLE nat int "read_result list"

text \<open>The loop that collects a command of the local controller.\<close>

function local_read :: "nat \<Rightarrow> read_result list \<Rightarrow> byte list" where
  "local_read n rs =
     (if n = 0 then []
      else case sock_read n rs of (GOT bs, rs') \<Rightarrow> bs @ local_read (n - length bs) rs' | _ \<Rightarrow> [])"
  by pat_completeness auto
termination
proof (relation "measure fst", goal_cases)
  case (2 n rs r rs' bs)
  then have "sock_read n rs = (GOT bs, rs')" by simp
  from sock_read_GOT [OF this] 2(1) have "bs \<noteq> []" by simp
  then show ?case using 2(1) by (cases bs) auto
qed simp

declare local_read.simps [simp del]

definition server_event :: "api_env \<Rightarrow> soc_event \<Rightarrow> api_state \<Rightarrow> api_state" where
  "server_event env ev st =
     (case ev of
        AGENT_CONNECT client_fd addr \<Rightarrow> st\<lparr>as_soc := accept_agent (ap_soc env) client_fd addr (as_soc st)\<rparr>
      | LOCAL_CONNECT client_fd rs \<Rightarrow>
          if client_fd \<ge> 0 then st\<lparr>as_soc := local_command (ap_soc env) (local_read 38 rs) (as_soc st)\<rparr> else st
      | WEB_CONNECT client_fd addr \<Rightarrow> accept_web env client_fd addr st
      | HANGUP fd \<Rightarrow> close_web fd (st\<lparr>as_soc := agent_hangup (ap_soc env) fd (as_soc st)\<rparr>)
      | READABLE local_port fd rs \<Rightarrow>
          if local_port = PORT_AGENT then st\<lparr>as_soc := fst (agent_readable (ap_soc env) rs fd (as_soc st))\<rparr>
          else if local_port = PORT_WEB then fst (web_readable env rs fd st)
          else st)"

text \<open>What \<^verbatim>\<open>epoll_wait\<close> reports, event by event.\<close>

definition server_run :: "(api_env \<times> soc_event) list \<Rightarrow> api_state \<Rightarrow> api_state" where
  "server_run evs st = fold (\<lambda>(env, ev). server_event env ev) evs st"

text \<open>The end of the loop, when \<^verbatim>\<open>epoll_wait\<close> fails.\<close>

definition server_stop :: "api_state \<Rightarrow> int \<Rightarrow> int \<Rightarrow> int \<Rightarrow> listener list \<Rightarrow> start_result" where
  "server_stop st listen_agent_fd listen_web_fd listen_local_fd ls =
     EXITED (db_close (srv_db (as_soc st))) (cleanup_threat_intel (as_intel st))
       (close_fd listen_local_fd (close_fd listen_web_fd (close_fd listen_agent_fd ls)))"

text \<open>The event loop and the thread of the feeds, interleaved.\<close>

definition feed_step :: "intel_env \<times> bool \<Rightarrow> api_state \<Rightarrow> api_state" where
  "feed_step e st =
     (case intel_thread_step e (as_intel st, srv_db (as_soc st)) of
        (intel, db) \<Rightarrow> st\<lparr>as_intel := intel, as_soc := (as_soc st)\<lparr>srv_db := db\<rparr>\<rparr>)"

inductive server_reachable :: "api_state \<Rightarrow> bool" where
  start: "server_start env auth = RUNNING st a w l ls \<Longrightarrow> server_reachable st"
| event: "server_reachable st \<Longrightarrow> server_reachable (server_event env ev st)"
| feeds: "server_reachable st \<Longrightarrow> server_reachable (feed_step e st)"

subsection \<open>What requests leave alone\<close>

definition soc_frame :: "soc_state \<Rightarrow> soc_state \<Rightarrow> bool" where
  "soc_frame soc soc' \<longleftrightarrow> srv_conns soc' = srv_conns soc \<and> srv_agents soc' = srv_agents soc \<and> srv_auth soc' = srv_auth soc \<and>
     length (srv_sse soc') = length (srv_sse soc)"

lemma soc_frame_refl [simp]: "soc_frame soc soc"
  by (simp add: soc_frame_def)

lemma on_db_simps [simp]:
  "srv_conns (as_soc (fst (on_db f st))) = srv_conns (as_soc st)" "srv_agents (as_soc (fst (on_db f st))) = srv_agents (as_soc st)"
  "srv_auth (as_soc (fst (on_db f st))) = srv_auth (as_soc st)" "srv_sse (as_soc (fst (on_db f st))) = srv_sse (as_soc st)"
  "srv_db (as_soc (fst (on_db f st))) = fst (f (srv_db (as_soc st)))"
  by (simp_all add: on_db_def split: prod.split)

lemma on_db_frame [simp]: "soc_frame (as_soc st) (as_soc (fst (on_db f st)))"
  by (simp add: soc_frame_def)

lemma route_frame: "soc_frame (as_soc st) (as_soc (api_route env a fd method path body st))"
proof -
  have query: "soc_frame (as_soc st) (as_soc (api_query f fd st))" for f
    using on_db_frame [of st f] by (simp add: api_query_def reply_json_def case_prod_beta)
  have change: "soc_frame (as_soc st) (as_soc (api_change ok f fd b n st))" for ok f b n
    using on_db_frame [of st f] by (simp add: api_change_def reply_ok_def reply_bad_def case_prod_beta)
  have remove: "soc_frame (as_soc st) (as_soc (api_remove_agent env fd path st))"
    by (simp add: api_remove_agent_def reply_ok_def reply_bad_def case_prod_beta split: option.split)
  have block: "soc_frame (as_soc st) (as_soc (api_block_ip env fd path body st))"
    by (simp add: soc_frame_def api_block_ip_def reply_ok_def reply_bad_def Let_def case_prod_beta split: option.split)
  have live: "soc_frame (as_soc st) (as_soc (api_live env a fd path st))"
    by (simp add: soc_frame_def api_live_def sse_add_def)
  show ?thesis unfolding api_route_def Let_def
    by (simp add: query change remove block live api_events_def api_set_config_def reply_ok_def Let_def)
qed

lemma handle_request_frame: "soc_frame (as_soc st) (as_soc (handle_api_request env fd method path body cookie st))"
  by (simp add: handle_api_request_def Let_def route_frame)

lemma close_web_soc [simp]: "as_soc (close_web fd st) = as_soc st" "as_intel (close_web fd st) = as_intel st"
  by (simp_all add: close_web_def)

lemma serve_request_frame: "soc_frame (as_soc st) (as_soc (serve_request env fd buf n i st))"
  by (simp add: serve_request_def Let_def handle_request_frame split: prod.split)

lemma web_readable_frame: "soc_frame (as_soc st) (as_soc (fst (web_readable env rs fd st)))"
proof -
  have "soc_frame (as_soc st) (as_soc (serve_request env fd buf n i (st\<lparr>as_conns := cs\<rparr>)))" for buf n i cs
    using serve_request_frame [of "st\<lparr>as_conns := cs\<rparr>"] by simp
  then show ?thesis by (simp add: web_readable_def Let_def split: option.split prod.split read_result.split)
qed

lemma soc_frame_ok: "soc_frame soc soc' \<Longrightarrow> soc_ok soc \<Longrightarrow> soc_ok soc'"
  by (rule soc_ok_cong) (simp_all add: soc_frame_def)

lemma soc_frame_peers: "soc_frame soc soc' \<Longrightarrow> same_peers soc soc'"
  by (simp add: soc_frame_def same_peers_def)

subsection \<open>Clients of the database\<close>

text \<open>
  The server reaches PostgreSQL only through the functions of \<^verbatim>\<open>db.c\<close>: whatever all of them keep true of the connection
  and of the statements sent so far, every event of the server and every step of the feed thread keeps true.
\<close>

locale db_client =
  fixes I :: "db_state \<Rightarrow> bool"
  assumes seen: "I db \<Longrightarrow> I (fst (db_update_agent_last_seen e u ip db))"
    and insert_event: "I db \<Longrightarrow> I (fst (db_insert_event e u ev db))"
    and insert_log: "I db \<Longrightarrow> I (fst (db_insert_agent_log e u' ty msg ip' db))"
    and health: "I db \<Longrightarrow> I (fst (db_update_agent_health e u h db))"
    and remove_agent: "I db \<Longrightarrow> I (fst (db_remove_agent e u db))"
    and add_blocklist: "I db \<Longrightarrow> I (fst (db_add_to_blocklist e ip ty reason db))"
    and remove_blocklist: "I db \<Longrightarrow> I (fst (db_remove_from_blocklist e ip ty db))"
    and reputation: "I db \<Longrightarrow> I (fst (db_update_ip_reputation e ip a b c ty db))"
    and add_yara: "I db \<Longrightarrow> I (fst (db_add_yara_rule e name content db))"
    and delete_yara: "I db \<Longrightarrow> I (fst (db_delete_yara_rule e name db))"
    and set_config: "I db \<Longrightarrow> I (fst (db_set_config e key val cat descr db))"
    and save_intel: "I db \<Longrightarrow> I (fst (db_save_threat_intel e f ty ip threat conf url db))"
    and reads: "I db \<Longrightarrow> I (fst (db_get_events_json e lim off agent db))" "I db \<Longrightarrow> I (fst (db_get_agents_json e db))"
      "I db \<Longrightarrow> I (fst (db_get_stats_json e db))" "I db \<Longrightarrow> I (fst (db_get_blocklist_json e ty db))"
      "I db \<Longrightarrow> I (fst (db_get_reputation_json e ip' db))" "I db \<Longrightarrow> I (fst (db_get_yara_rules_json e db))"
      "I db \<Longrightarrow> I (fst (db_get_config_json e db))" "I db \<Longrightarrow> I (fst (db_get_threat_intel_json e db))"
begin

lemmas changes = seen insert_event insert_log health remove_agent add_blocklist remove_blocklist reputation add_yara delete_yara
  set_config save_intel

lemma log_kept: "I (srv_db st) \<Longrightarrow> I (srv_db (log_agent env u ty msg ip st))"
  by (simp add: log_agent_def changes)

lemma drop_kept: "I (srv_db st) \<Longrightarrow> I (srv_db (drop_conn env fd st))"
  by (simp add: drop_conn_def unregister_connected_agent_def log_kept)

lemma batch_kept: "I db \<Longrightarrow> I (fold (\<lambda>i db. fst (db_insert_event e u (ev i) db)) is db)"
  by (induction "is" arbitrary: db) (simp_all add: changes)

lemma payload_kept: "I (srv_db st) \<Longrightarrow> I (srv_db (process_payload env ty u ip d st))"
  by (simp add: process_payload_def store_alert_def store_batch_def Let_def log_kept changes batch_kept)

lemma message_kept: "I (srv_db st) \<Longrightarrow> I (srv_db (process_agent_message env fd st))"
  by (simp add: process_agent_message_def Let_def clean_stale_def log_kept payload_kept changes split: option.split)

lemma finish_kept: "I (srv_db st) \<Longrightarrow> I (srv_db (finish_message env fd st))"
  using message_kept [of st env fd] by (simp add: finish_message_def Let_def split: option.split)

lemma body_kept: "I (srv_db st) \<Longrightarrow> I (srv_db (fst (read_body env rs fd c st)))"
  by (simp add: read_body_def Let_def finish_kept drop_kept split: prod.split read_result.split)

lemma readable_kept: "I (srv_db st) \<Longrightarrow> I (srv_db (fst (agent_readable env rs fd st)))"
  by (simp add: agent_readable_def Let_def body_kept drop_kept split: option.split prod.split read_result.split)

lemma route_kept:
  assumes "I (srv_db (as_soc st))"
  shows "I (srv_db (as_soc (api_route env a fd method path body st)))"
proof -
  have query: "I (srv_db (as_soc (api_query f fd st)))" if "\<And>db. I db \<Longrightarrow> I (fst (f db))" for f
    using that assms by (simp add: api_query_def reply_json_def case_prod_beta)
  have change: "I (srv_db (as_soc (api_change ok f fd b n st)))" if "\<And>db. I db \<Longrightarrow> I (fst (f db))" for ok f b n
    using that assms by (simp add: api_change_def reply_ok_def reply_bad_def case_prod_beta)
  have remove: "I (srv_db (as_soc (api_remove_agent env fd path st)))"
    using assms by (simp add: api_remove_agent_def reply_ok_def reply_bad_def case_prod_beta changes split: option.split)
  have block: "I (srv_db (as_soc (api_block_ip env fd path body st)))"
    using assms by (simp add: api_block_ip_def reply_ok_def reply_bad_def Let_def case_prod_beta changes split: option.split)
  have live: "I (srv_db (as_soc (api_live env a fd path st)))" using assms by (simp add: api_live_def sse_add_def)
  show ?thesis unfolding api_route_def Let_def
    by (simp add: query change remove block live api_events_def api_set_config_def reply_ok_def Let_def assms changes reads)
qed

lemma request_kept: "I (srv_db (as_soc st)) \<Longrightarrow> I (srv_db (as_soc (serve_request env fd buf n i st)))"
  by (simp add: serve_request_def handle_api_request_def Let_def route_kept split: prod.split)

lemma web_kept: "I (srv_db (as_soc st)) \<Longrightarrow> I (srv_db (as_soc (fst (web_readable env rs fd st))))"
proof -
  assume "I (srv_db (as_soc st))"
  then show ?thesis using request_kept [of "st\<lparr>as_conns := cs\<rparr>" for cs]
    by (simp add: web_readable_def Let_def split: option.split prod.split read_result.split)
qed

lemma event_kept: "I (srv_db (as_soc st)) \<Longrightarrow> I (srv_db (as_soc (server_event env ev st)))"
  by (cases ev)
    (simp_all add: server_event_def accept_agent_def register_connected_agent_def Let_def log_kept local_command_def accept_web_def
      agent_hangup_def sse_remove_def drop_kept readable_kept web_kept)

lemma fetch_kept: "I db \<Longrightarrow> I (fetch_feed env f db)"
proof -
  have "I db \<Longrightarrow> I (fold (import_line env f) ls db)" for ls
    by (induction ls arbitrary: db) (simp_all add: import_line_def Let_def changes)
  then show "I db \<Longrightarrow> I (fetch_feed env f db)" by (simp add: fetch_feed_def split: option.split)
qed

lemma feed_kept: "I (srv_db (as_soc st)) \<Longrightarrow> I (srv_db (as_soc (feed_step e st)))"
  by (simp add: feed_step_def intel_thread_step_def run_all_fetches_def fetch_ci_army_def fetch_binary_defense_def
      fetch_feodo_tracker_def fetch_kept split: prod.split intel_phase.split)

end

interpretation fixed_client: db_client fixed_log
  using statements_listed
  by unfold_locales
    (simp_all add: db_update_agent_last_seen_def db_changes db_reads fixed_command fixed_exec_params fixed_exec Let_def case_prod_beta
      split: option.split)

text \<open>No operation but \<^verbatim>\<open>db_close\<close> gives up the connection.\<close>

lemma db_conn_kept [simp]:
  "db_conn (fst (db_exec_params_safe e sql ps db)) = db_conn db" "db_conn (fst (db_exec_safe e sql db)) = db_conn db"
  "db_conn (fst (db_command e sql ps db)) = db_conn db"
  by (simp_all add: db_command_def db_exec_safe_def db_exec_params_safe_def)

interpretation open_client: db_client "\<lambda>db. db_conn db \<noteq> None"
  by unfold_locales
    (simp_all add: db_update_agent_last_seen_def db_changes db_reads Let_def case_prod_beta split: option.split)

subsection \<open>Lemmas on the start\<close>

text \<open>A database that accepts the connection and every statement.\<close>

definition db_ready :: "db_env \<Rightarrow> bool" where
  "db_ready e \<longleftrightarrow> pg_connect e (conn_string e None) \<and> (\<forall>n. pg_exec e n = PGRES_COMMAND_OK)"

lemma create_tables_ready: "db_ready e \<Longrightarrow> snd (create_tables e sqls db) = 0"
  by (induction sqls arbitrary: db) (simp_all add: db_ready_def db_exec_safe_def db_exec_params_safe_def)

lemma db_init_ready: "db_ready e \<Longrightarrow> snd (db_init e None db) = 0"
  using create_tables_ready [of e db_tables] by (simp add: db_init_def Let_def case_prod_beta db_ready_def)

lemma create_tables_conn [simp]: "db_conn (fst (create_tables e sqls db)) = db_conn db"
  by (induction sqls arbitrary: db) (simp_all add: case_prod_beta)

lemma fold_exec_conn [simp]: "db_conn (fold (\<lambda>sql db. fst (db_exec_safe e sql db)) sqls db) = db_conn db"
  by (induction sqls arbitrary: db) simp_all

lemma db_init_conn: "snd (db_init e c db) = 0 \<Longrightarrow> db_conn (fst (db_init e c db)) \<noteq> None"
  by (simp add: db_init_def Let_def case_prod_beta split: if_splits)

lemma db_retry_ready: "db_ready (envs k) \<Longrightarrow> 0 < k \<Longrightarrow> k \<le> n \<Longrightarrow> snd (db_retry envs n db)"
proof (induction n arbitrary: db)
  case (Suc n)
  then show ?case using db_init_ready [of "envs k"] by (cases "k = Suc n") (simp_all add: case_prod_beta)
qed simp

lemma db_retry_conn: "snd (db_retry envs n db) \<Longrightarrow> db_conn (fst (db_retry envs n db)) \<noteq> None"
proof (induction n arbitrary: db)
  case (Suc n)
  then show ?case using db_init_conn [of "envs (Suc n)" None db] by (simp add: case_prod_beta split: if_splits)
qed simp

lemma db_retry_fixed: "fixed_log db \<Longrightarrow> fixed_log (fst (db_retry envs n db))"
  by (induction n arbitrary: db) (simp_all add: case_prod_beta fixed_init)

lemma db_retry_down:
  "\<forall>k\<in>{1..n}. \<not> pg_connect (envs k) (conn_string (envs k) None) \<Longrightarrow>
     \<not> snd (db_retry envs n db) \<and> db_log (fst (db_retry envs n db)) = db_log db"
  by (induction n arbitrary: db) (simp_all add: db_init_def Let_def)

lemma close_fd_simps [simp]: "close_fd fd [] = []" "close_fd fd (ls @ ls') = close_fd fd ls @ close_fd fd ls'"
  "close_fd fd (x # ls) = (if fst x = fd then close_fd fd ls else x # close_fd fd ls)"
  by (simp_all add: close_fd_def)

lemma cleanup_stops [simp]: "\<not> ti_running (cleanup_threat_intel st)"
  by (simp add: cleanup_threat_intel_def)

lemma init_intel_reachable: "intel_reachable (fst (init_threat_intel ok intel_boot))"
  by (rule intel_reachable.start [OF intel_reachable.boot]) (simp add: intel_boot_def)

subsection \<open>The invariant of the server\<close>

definition admitted :: "auth_state \<Rightarrow> string \<Rightarrow> bool" where
  "admitted auth ip \<longleftrightarrow> (\<exists>ub. auth_check_ip ub auth ip)"

definition peers_admitted :: "soc_state \<Rightarrow> bool" where
  "peers_admitted soc \<longleftrightarrow> (\<forall>fd c. srv_conns soc fd = Some c \<longrightarrow> admitted (srv_auth soc) (ac_client_ip c))"

definition web_admitted :: "api_state \<Rightarrow> bool" where
  "web_admitted st \<longleftrightarrow> (\<forall>fd c. as_conns st fd = Some c \<longrightarrow> admitted (srv_auth (as_soc st)) (hc_client_ip c))"

definition server_ok :: "api_state \<Rightarrow> bool" where
  "server_ok st \<longleftrightarrow> soc_ok (as_soc st) \<and> web_ok st \<and> peers_admitted (as_soc st) \<and> web_admitted st \<and>
     fixed_log (srv_db (as_soc st)) \<and> db_conn (srv_db (as_soc st)) \<noteq> None \<and> intel_reachable (as_intel st)"

lemma same_peers_admitted: "same_peers soc soc' \<Longrightarrow> peers_admitted soc \<Longrightarrow> peers_admitted soc'"
  unfolding same_peers_def peers_admitted_def by metis

lemma accept_admitted: "peers_admitted soc \<Longrightarrow> peers_admitted (accept_agent env fd addr soc)"
proof -
  assume "peers_admitted soc"
  then show ?thesis
    using accept_conns [of env fd addr soc] by (fastforce simp: peers_admitted_def admitted_def)
qed

text \<open>Requests either leave the thread of the feeds alone or ask it for a round.\<close>

lemma on_db_intel [simp]: "as_intel (fst (on_db f st)) = as_intel st"
  by (simp add: on_db_def split: prod.split)

lemma route_intel:
  "intel_reachable (as_intel st) \<Longrightarrow> intel_reachable (as_intel (api_route env a fd method path body st))"
proof -
  assume r: "intel_reachable (as_intel st)"
  have query: "as_intel (api_query f fd st) = as_intel st" for f
    by (simp add: api_query_def reply_json_def case_prod_beta)
  have change: "as_intel (api_change ok f fd b n st) = as_intel st" for ok f b n
    by (simp add: api_change_def reply_ok_def reply_bad_def case_prod_beta)
  have remove: "as_intel (api_remove_agent env fd path st) = as_intel st"
    by (simp add: api_remove_agent_def reply_ok_def reply_bad_def case_prod_beta split: option.split)
  have block: "as_intel (api_block_ip env fd path body st) = as_intel st"
    by (simp add: api_block_ip_def reply_ok_def reply_bad_def Let_def case_prod_beta split: option.split)
  show ?thesis unfolding api_route_def Let_def
    by (simp add: query change remove block api_live_def api_events_def api_set_config_def reply_ok_def Let_def r intel_reachable.trigger)
qed

lemma request_intel:
  "intel_reachable (as_intel st) \<Longrightarrow> intel_reachable (as_intel (serve_request env fd buf n i st))"
  by (simp add: serve_request_def handle_api_request_def Let_def route_intel split: prod.split)

lemma event_intel:
  assumes "intel_reachable (as_intel st)"
  shows "intel_reachable (as_intel (server_event env ev st))"
  using assms request_intel [of "st\<lparr>as_conns := cs\<rparr>" for cs]
  by (cases ev)
    (simp_all add: server_event_def accept_web_def web_readable_def Let_def split: option.split prod.split read_result.split)

text \<open>Web connections keep the address of their peer.\<close>

lemma request_conns: "as_conns (serve_request env fd buf n i st) f = Some c \<Longrightarrow> as_conns st f = Some c"
  by (auto simp: serve_request_def Let_def close_web_def split: prod.splits if_splits)

lemma web_readable_conns:
  assumes "as_conns (fst (web_readable env rs fd st)) f = Some c"
  shows "\<exists>c0. as_conns st f = Some c0 \<and> hc_client_ip c0 = hc_client_ip c"
proof (cases "as_conns st fd")
  case (Some conn)
  have "as_conns st f = Some c" if "as_conns (close_web fd st) f = Some c"
    using that by (auto simp: close_web_def split: if_splits)
  then show ?thesis
    using assms Some
    by (auto simp: web_readable_def Let_def split: prod.splits read_result.splits option.splits if_splits dest!: request_conns)
qed (use assms in \<open>simp add: web_readable_def\<close>)

lemma event_auth [simp]: "srv_auth (as_soc (server_event env ev st)) = srv_auth (as_soc st)"
proof (cases ev)
  case (READABLE port fd rs)
  then show ?thesis
    using web_readable_frame [of st env rs fd] same_peers_readable [of "as_soc st" "ap_soc env" rs fd]
    by (simp add: server_event_def soc_frame_def same_peers_def)
qed (simp_all add: server_event_def accept_web_def agent_hangup_def sse_remove_def local_command_def)

lemma event_web_admitted:
  assumes "web_admitted st"
  shows "web_admitted (server_event env ev st)"
proof -
  have "admitted (srv_auth (as_soc st)) (hc_client_ip c)" if "as_conns (server_event env ev st) f = Some c" for f c
  proof (cases ev)
    case (WEB_CONNECT cfd addr)
    then show ?thesis
      using that assms by (auto simp: server_event_def accept_web_def web_admitted_def admitted_def split: if_splits)
  next
    case (READABLE port fd rs)
    then have "\<exists>c0. as_conns st f = Some c0 \<and> hc_client_ip c0 = hc_client_ip c"
      using that web_readable_conns [of env rs fd st f c] by (auto simp: server_event_def split: if_splits)
    then show ?thesis using assms unfolding web_admitted_def by metis
  qed (use that assms in \<open>auto simp: server_event_def close_web_def web_admitted_def split: if_splits\<close>)
  then show ?thesis by (simp add: web_admitted_def)
qed

lemma event_web_ok:
  assumes "web_ok st"
  shows "web_ok (server_event env ev st)"
proof (cases ev)
  case (READABLE port fd rs)
  then show ?thesis using assms web_readable_ok [OF assms] by (simp add: server_event_def web_ok_def)
qed (use assms in \<open>auto simp: server_event_def accept_web_def close_web_def web_ok_def HTTP_BUF_def\<close>)

lemma event_soc_ok:
  assumes "soc_ok (as_soc st)"
  shows "soc_ok (as_soc (server_event env ev st))"
proof (cases ev)
  case (LOCAL_CONNECT cfd rs)
  then show ?thesis using assms by (auto simp: server_event_def local_command_def intro: soc_ok_cong [of _ "as_soc st"])
next
  case (READABLE port fd rs)
  then show ?thesis using assms soc_frame_ok [OF web_readable_frame] by (simp add: server_event_def agent_readable_ok)
next
  case (HANGUP fd)
  then show ?thesis using assms by (simp add: server_event_def agent_hangup_def sse_remove_def soc_ok_def)
qed (use assms in \<open>simp_all add: server_event_def accept_ok accept_web_def\<close>)

lemma event_peers:
  assumes "peers_admitted (as_soc st)"
  shows "peers_admitted (as_soc (server_event env ev st))"
proof (cases ev)
  case (READABLE port fd rs)
  then show ?thesis
    using assms same_peers_admitted [OF same_peers_readable] same_peers_admitted [OF soc_frame_peers [OF web_readable_frame]]
    by (simp add: server_event_def)
next
  case (AGENT_CONNECT cfd addr)
  then show ?thesis using assms by (simp add: server_event_def accept_admitted)
qed (use assms in \<open>auto simp: server_event_def accept_web_def agent_hangup_def sse_remove_def local_command_def
      peers_admitted_def split: if_splits\<close>)

lemma event_ok: "server_ok st \<Longrightarrow> server_ok (server_event env ev st)"
  by (simp add: server_ok_def event_soc_ok event_web_ok event_peers event_web_admitted event_intel fixed_client.event_kept
      open_client.event_kept [simplified])

lemma feed_ok: "server_ok st \<Longrightarrow> server_ok (feed_step e st)"
proof -
  assume ok: "server_ok st"
  obtain intel db where i: "intel_thread_step e (as_intel st, srv_db (as_soc st)) = (intel, db)"
    by (cases "intel_thread_step e (as_intel st, srv_db (as_soc st))")
  then have "intel_reachable intel" using ok intel_reachable.thread [of "as_intel st" e "srv_db (as_soc st)"] by (simp add: server_ok_def)
  moreover have "fixed_log db" "db_conn db \<noteq> None"
    using ok i fixed_client.feed_kept [of st e] open_client.feed_kept [of st e] by (simp_all add: server_ok_def feed_step_def)
  ultimately show ?thesis
    using ok i by (simp add: server_ok_def feed_step_def soc_ok_def web_ok_def peers_admitted_def web_admitted_def)
qed

lemma server_start_ok: "server_start env auth = RUNNING st a w l ls \<Longrightarrow> server_ok st"
proof -
  let ?boot = "\<lparr>db_conn = None, db_log = []\<rparr>"
  assume run: "server_start env auth = RUNNING st a w l ls"
  obtain db where db: "db_retry (se_db env) 15 ?boot = (db, True)"
    using run by (cases "db_retry (se_db env) 15 ?boot") (auto simp: server_start_def Let_def split: if_splits)
  have "fixed_log ?boot" by (simp add: fixed_log_def)
  then have "fixed_log db" "db_conn db \<noteq> None"
    using db db_retry_conn [of "se_db env" 15 ?boot] db_retry_fixed [of ?boot "se_db env" 15] by simp_all
  then show ?thesis
    using run db init_intel_reachable [of "se_thread env"]
    by (auto simp: server_start_def Let_def server_ok_def soc_ok_def sse_init_def web_ok_def peers_admitted_def web_admitted_def
        split: prod.splits if_splits)
qed

lemma listening [simp]: "create_listen_socket (LISTENING fd) port ls = (fd, ls @ [(fd, INADDR_ANY, port)])"
  by (simp add: create_listen_socket_def)

text \<open>A start that fails leaves no listener open and no thread running. Descriptors are not negative.\<close>

definition valid_listen :: "listen_result \<Rightarrow> bool" where
  "valid_listen r \<longleftrightarrow> (case r of LISTENING fd \<Rightarrow> 0 \<le> fd | _ \<Rightarrow> True)"

lemma listen_fds: "valid_listen r \<Longrightarrow> create_listen_socket r port ls = (fd, ls') \<Longrightarrow>
    fst ` set ls' \<subseteq> fst ` set ls \<union> {f. f = fd \<and> 0 \<le> f}"
  by (cases r) (auto simp: create_listen_socket_def close_fd_def valid_listen_def)

lemma close_all: "fst ` set ls \<subseteq> {f. f = a \<and> 0 \<le> f} \<union> {f. f = w \<and> 0 \<le> f} \<union> {f. f = l \<and> 0 \<le> f} \<Longrightarrow>
    close_valid l (close_valid w (close_valid a ls)) = []"
  by (induction ls) (auto simp: close_valid_def split: if_splits)

lemma exit_clean:
  assumes "list_all valid_listen [se_agent env, se_web env, se_local env]" "server_start env auth = EXITED db intel ls"
  shows "ls = [] \<and> \<not> ti_running intel"
proof -
  obtain a ls1 where a: "create_listen_socket (se_agent env) PORT_AGENT [] = (a, ls1)" by fastforce
  obtain w ls2 where w: "create_listen_socket (se_web env) PORT_WEB ls1 = (w, ls2)" by fastforce
  obtain l ls3 where l: "create_listen_socket (se_local env) PORT_LOCAL ls2 = (l, ls3)" by fastforce
  have "fst ` set ls3 \<subseteq> {f. f = a \<and> 0 \<le> f} \<union> {f. f = w \<and> 0 \<le> f} \<union> {f. f = l \<and> 0 \<le> f}"
  proof -
    have v: "valid_listen (se_agent env)" "valid_listen (se_web env)" "valid_listen (se_local env)" using assms(1) by simp_all
    have "fst ` set ls1 \<subseteq> {f. f = a \<and> 0 \<le> f}" using listen_fds [OF v(1) a] by simp
    from order_trans [OF listen_fds [OF v(2) w] Un_mono [OF this order_refl]]
    show ?thesis by (rule order_trans [OF listen_fds [OF v(3) l] Un_mono [OF _ order_refl]])
  qed
  note closed = close_all [OF this]
  then have "close_fd l (close_fd w (close_fd a ls3)) = []" if "0 \<le> a" "0 \<le> w" "0 \<le> l"
    using that by (simp add: close_valid_def)
  moreover have "\<not> ti_running intel_boot" by (simp add: intel_boot_def)
  ultimately show ?thesis
    using assms(2) closed a w l by (auto simp: server_start_def Let_def split: prod.splits if_splits)
qed

lemma server_reachable_ok: "server_reachable st \<Longrightarrow> server_ok st"
  by (induction rule: server_reachable.induct) (simp_all add: server_start_ok event_ok feed_ok)

subsection \<open>Properties\<close>

text \<open>C19: The server keeps its invariant: after a successful start, whatever agents, web clients, the local controller and the
  thread of the feeds do in whatever order, every buffer of an agent or web connection holds what its counters say with room
  for the terminator, every connection belongs to an address the whitelist admits, the connection to the database is open and
  every statement sent over it is one of the fixed texts of \<^verbatim>\<open>db.c\<close>.\<close>

theorem server_reachable_invariant:
  assumes "server_reachable st"
  shows "(\<forall>fd c. srv_conns (as_soc st) fd = Some c \<longrightarrow> length (ac_buf c) = 65536 \<and> ac_payload_len c < 65536 \<and>
        ac_bytes_read c < (if ac_header_received c then ac_payload_len c else HDR_SIZE) \<and> admitted (srv_auth (as_soc st)) (ac_client_ip c)) \<and>
    (\<forall>fd c. as_conns st fd = Some c \<longrightarrow> length (hc_buf c) = 8192 \<and> hc_bytes_read c < 8192 \<and>
        admitted (srv_auth (as_soc st)) (hc_client_ip c)) \<and>
    db_conn (srv_db (as_soc st)) \<noteq> None \<and> fst ` set (db_log (srv_db (as_soc st))) \<subseteq> set db_statements"
  using server_reachable_ok [OF assms]
  by (auto simp: server_ok_def soc_ok_def conn_ok_def web_ok_def peers_admitted_def web_admitted_def fixed_log_def
      BUFFER_SIZE_def HTTP_BUF_def)

definition sample_start :: start_env where
  "sample_start = \<lparr>se_db = (\<lambda>_. sample_db), se_rand = [], se_whitelist = None, se_thread = True, se_agent = LISTENING 3,
     se_web = LISTENING 4, se_local = LISTENING 5, se_epoll = True\<rparr>"

definition auth_boot :: auth_state where
  "auth_boot = \<lparr>session_secret = replicate 32 NUL, secret_initialized = False, whitelist = []\<rparr>"

lemma start_runs:
  assumes "se_agent env = LISTENING a" "se_web env = LISTENING w" "se_local env = LISTENING l" "0 \<le> a" "0 \<le> w" "0 \<le> l" "se_epoll env"
    and "k \<in> {1..15}" "db_ready (se_db env k)"
  obtains st where "server_start env auth =
    RUNNING st a w l [(a, INADDR_ANY, PORT_AGENT), (w, INADDR_ANY, PORT_WEB), (l, INADDR_ANY, PORT_LOCAL)]"
proof -
  have "snd (db_retry (se_db env) 15 \<lparr>db_conn = None, db_log = []\<rparr>)" using db_retry_ready [of "se_db env", OF assms(9)] assms(8) by simp
  then show thesis using that assms(1-7) by (simp add: server_start_def Let_def case_prod_beta)
qed

lemma sample_ready: "db_ready (se_db sample_start k)"
  by (simp add: db_ready_def sample_start_def sample_db_def)

theorem server_reachable_invariant_witness:
  "\<exists>st ls. server_start sample_start auth_boot = RUNNING st 3 4 5 ls \<and>
     db_conn (srv_db (as_soc (server_event sample_api_env (WEB_CONNECT 7 0x0100007F) st))) \<noteq> None"
proof -
  obtain st where st: "server_start sample_start auth_boot =
      RUNNING st 3 4 5 [(3, INADDR_ANY, PORT_AGENT), (4, INADDR_ANY, PORT_WEB), (5, INADDR_ANY, PORT_LOCAL)]"
  proof (rule start_runs [of sample_start 3 4 5 1])
    show "db_ready (se_db sample_start 1)" by (rule sample_ready)
  qed (simp_all add: sample_start_def)
  then have "db_conn (srv_db (as_soc (server_event sample_api_env (WEB_CONNECT 7 0x0100007F) st))) \<noteq> None"
    using server_reachable_invariant [OF server_reachable.event [OF server_reachable.start]] by blast
  then show ?thesis using st by blast
qed

text \<open>The start gives up when one of the sockets or epoll cannot be had; the database is closed then.\<close>

lemma start_gives_up:
  assumes "list_all valid_listen [se_agent env, se_web env, se_local env]" "\<exists>k\<in>{1..15}. db_ready (se_db env k)"
    and "\<not> (se_epoll env \<and> list_all (\<lambda>r. \<exists>fd. r = LISTENING fd) [se_agent env, se_web env, se_local env])"
  obtains db intel ls where "server_start env auth = EXITED db intel ls" "db_conn db = None"
proof -
  have fd: "fst (create_listen_socket r port ls) < 0 \<longleftrightarrow> (\<forall>fd. r \<noteq> LISTENING fd)" if "valid_listen r" for r port ls
    using that by (cases r) (auto simp: create_listen_socket_def valid_listen_def)
  obtain db where db: "db_retry (se_db env) 15 \<lparr>db_conn = None, db_log = []\<rparr> = (db, True)"
    using assms(2) db_retry_ready [of "se_db env" _ 15 "\<lparr>db_conn = None, db_log = []\<rparr>"]
    by (cases "db_retry (se_db env) 15 \<lparr>db_conn = None, db_log = []\<rparr>") auto
  obtain a ls1 where a: "create_listen_socket (se_agent env) PORT_AGENT [] = (a, ls1)" by fastforce
  obtain w ls2 where w: "create_listen_socket (se_web env) PORT_WEB ls1 = (w, ls2)" by fastforce
  obtain l ls3 where l: "create_listen_socket (se_local env) PORT_LOCAL ls2 = (l, ls3)" by fastforce
  have "a < 0 \<or> w < 0 \<or> l < 0 \<or> \<not> se_epoll env"
    using assms(1,3) fd [of "se_agent env" PORT_AGENT "[]"] fd [of "se_web env" PORT_WEB ls1] fd [of "se_local env" PORT_LOCAL ls2] a w l by auto
  then have "\<exists>intel ls. server_start env auth = EXITED (db_close db) intel ls"
    using db a w l by (cases "a < 0 \<or> w < 0 \<or> l < 0") (auto simp: server_start_def Let_def)
  moreover have "db_conn (db_close db) = None" by (simp add: db_close_def)
  ultimately show thesis using that by blast
qed

text \<open>C36: The start ends: it makes at most fifteen attempts to reach the database. If the database is ready at one of them, the
  three sockets can be opened and epoll created, the server runs, with its three ports open on every address. If no attempt gets a
  connection it exits without a statement sent. If the database is ready but one of the sockets cannot be created, bound or put to
  listen, or epoll fails, it exits with the database closed. Whenever the start gives up, no listener is left open, those
  opened before the failure included, and the thread of the feeds is told to stop. Descriptors that \<^verbatim>\<open>socket\<close> returns are not negative.\<close>

theorem server_start_outcome:
  assumes "list_all valid_listen [se_agent env, se_web env, se_local env]"
    and "up = (\<exists>k\<in>{1..15}. db_ready (se_db env k))"
  shows "(up \<and> se_epoll env \<and> [se_agent env, se_web env, se_local env] = [LISTENING a, LISTENING w, LISTENING l] \<longrightarrow>
      (\<exists>st. server_start env auth =
        RUNNING st a w l [(a, INADDR_ANY, PORT_AGENT), (w, INADDR_ANY, PORT_WEB), (l, INADDR_ANY, PORT_LOCAL)])) \<and>
    ((\<forall>k\<in>{1..15}. \<not> pg_connect (se_db env k) (conn_string (se_db env k) None)) \<longrightarrow>
      (\<exists>db. server_start env auth = EXITED db intel_boot [] \<and> db_log db = [])) \<and>
    (up \<and> \<not> (se_epoll env \<and> list_all (\<lambda>r. \<exists>fd. r = LISTENING fd) [se_agent env, se_web env, se_local env]) \<longrightarrow>
      (\<exists>db intel. server_start env auth = EXITED db intel [] \<and> db_conn db = None)) \<and>
    (\<forall>db intel ls. server_start env auth = EXITED db intel ls \<longrightarrow> ls = [] \<and> \<not> ti_running intel)"
proof (intro conjI impI allI)
  show "\<exists>st. server_start env auth =
      RUNNING st a w l [(a, INADDR_ANY, PORT_AGENT), (w, INADDR_ANY, PORT_WEB), (l, INADDR_ANY, PORT_LOCAL)]"
    if up: "up \<and> se_epoll env \<and> [se_agent env, se_web env, se_local env] = [LISTENING a, LISTENING w, LISTENING l]"
  proof -
    obtain k where "k \<in> {1..15}" "db_ready (se_db env k)" using up assms(2) by blast
    then show ?thesis using start_runs [of env a w l k auth] up assms(1) by (auto simp: valid_listen_def)
  qed
  show "\<exists>db. server_start env auth = EXITED db intel_boot [] \<and> db_log db = []"
    if "\<forall>k\<in>{1..15}. \<not> pg_connect (se_db env k) (conn_string (se_db env k) None)"
    using db_retry_down [OF that, of "\<lparr>db_conn = None, db_log = []\<rparr>"] by (simp add: server_start_def Let_def case_prod_beta)
  show "\<exists>db intel. server_start env auth = EXITED db intel [] \<and> db_conn db = None"
    if "up \<and> \<not> (se_epoll env \<and> list_all (\<lambda>r. \<exists>fd. r = LISTENING fd) [se_agent env, se_web env, se_local env])"
    using start_gives_up [OF assms(1), of auth] that assms(2) exit_clean [OF assms(1), of auth] by metis
  fix db intel ls
  assume "server_start env auth = EXITED db intel ls"
  from exit_clean [OF assms(1) this] show "ls = []" "\<not> ti_running intel" by simp_all
qed

text \<open>A start that succeeds, one without a database, and one whose web port is taken.\<close>

theorem server_start_outcome_witness:
  "(\<exists>st ls. server_start sample_start auth_boot = RUNNING st 3 4 5 ls) \<and>
   (\<exists>db. server_start (sample_start\<lparr>se_db := \<lambda>_. sample_db\<lparr>pg_connect := \<lambda>_. False\<rparr>\<rparr>) auth_boot = EXITED db intel_boot []) \<and>
   (\<exists>db intel. server_start (sample_start\<lparr>se_web := BIND_FAILED 4\<rparr>) auth_boot = EXITED db intel [] \<and> db_conn db = None)"
proof (intro conjI)
  have s: "[se_agent sample_start, se_web sample_start, se_local sample_start] = [LISTENING 3, LISTENING 4, LISTENING 5]" "se_epoll sample_start"
    "list_all valid_listen [se_agent sample_start, se_web sample_start, se_local sample_start]"
    by (simp_all add: sample_start_def valid_listen_def)
  have "1 \<in> {1..15::nat}" by simp
  then have ready: "\<exists>k\<in>{1..15}. db_ready (se_db sample_start k)" using sample_ready by blast
  then show "\<exists>st ls. server_start sample_start auth_boot = RUNNING st 3 4 5 ls"
    using server_start_outcome [OF s(3) refl, of 3 4 5 auth_boot] s(1,2) by auto
  let ?env = "sample_start\<lparr>se_db := \<lambda>_. sample_db\<lparr>pg_connect := \<lambda>_. False\<rparr>\<rparr>"
  have "\<forall>k\<in>{1..15}. \<not> pg_connect (se_db ?env k) (conn_string (se_db ?env k) None)" by simp
  then show "\<exists>db. server_start ?env auth_boot = EXITED db intel_boot []"
    using server_start_outcome [of ?env, OF _ refl, of 3 4 5 auth_boot] s(3) by auto
  let ?taken = "sample_start\<lparr>se_web := BIND_FAILED 4\<rparr>"
  have "list_all valid_listen [se_agent ?taken, se_web ?taken, se_local ?taken]" using s(3) by (simp add: valid_listen_def)
  then show "\<exists>db intel. server_start ?taken auth_boot = EXITED db intel [] \<and> db_conn db = None"
    using server_start_outcome [of ?taken, OF _ refl, of 3 4 5 auth_boot] ready by auto
qed

text \<open>The controller of port 8444 is not authenticated in any way: whoever connects, and port 8444 is open on every address, can send
  any command to any agent.\<close>

theorem server_local_commands_unauthenticated:
  "0 \<le> fd \<Longrightarrow> length (local_read 38 rs) = 38 \<Longrightarrow>
     server_event env (LOCAL_CONNECT fd rs) st = st\<lparr>as_soc := fst (send_command_to_agent (ap_soc env) (cstr (take 32 (local_read 38 rs)))
       (of_char (local_read 38 rs ! 33)) (take 4 (drop 34 (local_read 38 rs))) (as_soc st))\<rparr>"
  by (simp add: server_event_def local_command_def)

end
