(* ===== verification/Block_Path.thy ===== *)
theory Block_Path
  imports Soc_Channel Soc_Server Fw_Inspect_Module
begin

section \<open>From a command of the dashboard to the packets\<close>

text \<open>
  A block or unblock command passes through the server (\<^verbatim>\<open>soc_receiver.c\<close>), the agent and its blocklist file (\<^verbatim>\<open>fw_agent.c\<close>) and the daemon
  (\<^verbatim>\<open>fw_nfq.c\<close>) or the kernel module (\<^verbatim>\<open>fw_inspect.c\<close>). The lemmas follow it from one to the next; the properties at the end join
  them.
\<close>

subsection \<open>The agent\<close>

text \<open>
  A block command makes the agent push a payload with the address, on the channel of its mode. The command is skipped when the text
  of the address occurs anywhere in the file; then the address has to be an entry already.
\<close>

definition names_address :: "string \<Rightarrow> u32 \<Rightarrow> bool" where
  "names_address content ip \<longleftrightarrow> (listed_text (Some content) (inet_ntop ip) \<longrightarrow> ip \<in> be_ip ` set (line_entries (fgets_lines 128 content)))"

lemma block_pushed:
  assumes "4 \<le> length d" "ag_blocklist st = Some content" "ae_append_ok env"
    and "content = [] \<or> last content = CHR 0x0A" "length (line_entries (fgets_lines 128 content)) < 1024"
    and "names_address content (command_u32 d)"
  obtains p f e where "soc_command env MSG_TYPE_BLOCK_IP d st = push_blocklist_payload env p (st\<lparr>ag_blocklist := f\<rparr>)" "filling p"
    "e \<in> set (loaded p)" "be_ip e = command_u32 d"
proof -
  let ?ip = "command_u32 d"
  let ?f = "if listed_text (Some content) (inet_ntop ?ip) then content else content @ block_line ?ip"
  have push: "soc_command env MSG_TYPE_BLOCK_IP d st = push_blocklist_payload env (read_blocklist ?f) (st\<lparr>ag_blocklist := Some ?f\<rparr>)"
    using assms(1-3) by (simp add: soc_command_def block_ip_file_def load_and_push_blocklist_def Let_def)
  have "loaded (read_blocklist content) = line_entries (fgets_lines 128 content)"
    using assms(5) by (simp add: loaded_read_blocklist MAX_BLOCKLIST_IPS_def)
  then have "?ip \<in> be_ip ` set (loaded (read_blocklist ?f))"
    using block_ip_loaded(1) [OF assms(4,5), of ?ip] assms(6) by (simp add: names_address_def)
  then obtain e where "e \<in> set (loaded (read_blocklist ?f))" "be_ip e = ?ip" by auto
  with push read_blocklist_filling show thesis by (rule that)
qed

lemma push_userspace:
  assumes "0 \<le> ag_fw_fd st" "ag_userspace_mode st" "ae_fw_write env (ag_calls st) = int PAYLOAD_SIZE" "filling p"
  shows "ag_fw_out (push_blocklist_payload env p st) = ag_fw_out st @ encode_payload p"
  using assms length_encode_payload [of p] by (simp add: push_blocklist_payload_def Let_def filling_def)

lemma push_netlink:
  assumes "0 \<le> ag_fw_fd st" "\<not> ag_userspace_mode st" "ae_nl_send env (ag_calls st)"
  shows "ag_nl_out (push_blocklist_payload env p st) = ag_nl_out st @ [(2, encode_payload p)]"
  using assms by (simp add: push_blocklist_payload_def)

text \<open>A block command written by the server, from the stream to the push.\<close>

lemma command_pushed:
  assumes "send_command_to_agent senv hex MSG_TYPE_BLOCK_IP d sst = (sst', 0)" "length d = 4"
    and "flowing (ag_soc_in st)" "pending (ag_soc_in st) = written sst sst' @ rest"
    and "evp_ok (sv_evp senv) (ae_evp env (ag_calls st))" "cbc_sizes (sv_evp senv)" "ae_malloc env"
    and "ag_blocklist st = Some content" "ae_append_ok env"
    and "content = [] \<or> last content = CHR 0x0A" "length (line_entries (fgets_lines 128 content)) < 1024"
    and "names_address content (command_u32 d)"
  obtains p rs f e where "fst (soc_input env st) = push_blocklist_payload env p (st\<lparr>ag_soc_in := rs, ag_blocklist := f\<rparr>)" "filling p"
    "e \<in> set (loaded p)" "be_ip e = command_u32 d"
proof -
  have "length d \<le> 65536" "4 \<le> length d" using assms(2) by simp_all
  then obtain rs where rs: "soc_input env st = (soc_command env MSG_TYPE_BLOCK_IP d (st\<lparr>ag_soc_in := rs\<rparr>), False)"
    using command_executed [OF assms(1,3-6) _ assms(7)] by blast
  show thesis
    by (rule block_pushed [OF \<open>4 \<le> length d\<close> _ assms(9-12), of "st\<lparr>ag_soc_in := rs\<rparr>"]) (use assms(8) rs that in auto)
qed

text \<open>An unblock command, from the stream to the payload in the socket of the daemon.\<close>

lemma unblock_pushed:
  assumes "send_command_to_agent senv hex MSG_TYPE_UNBLOCK_IP d sst = (sst', 0)" "length d = 4"
    and "flowing (ag_soc_in st)" "pending (ag_soc_in st) = written sst sst' @ rest"
    and "evp_ok (sv_evp senv) (ae_evp env (ag_calls st))" "cbc_sizes (sv_evp senv)" "ae_malloc env"
    and "ag_blocklist st = Some content" "ae_write_ok env" "tidy content" "length (fgets_lines 128 content) \<le> 1024"
    and "0 \<le> ag_fw_fd st" "ag_userspace_mode st" "ae_fw_write env (ag_calls st) = int PAYLOAD_SIZE"
  obtains p where "ag_fw_out (fst (soc_input env st)) = ag_fw_out st @ encode_payload p" "filling p"
    "loaded p = line_entries (filter (\<lambda>l. \<not> sublist (inet_ntop (command_u32 d)) l) (fgets_lines 128 content))"
proof -
  let ?f = "file_title @ kept_text (\<lambda>l. strstr_found l (inet_ntop (command_u32 d))) (Some content)"
  have "length d \<le> 65536" "4 \<le> length d" using assms(2) by simp_all
  then obtain rs where rs: "soc_input env st = (soc_command env MSG_TYPE_UNBLOCK_IP d (st\<lparr>ag_soc_in := rs\<rparr>), False)"
    using command_executed [OF assms(1,3-6) _ assms(7)] by blast
  moreover have "soc_command env MSG_TYPE_UNBLOCK_IP d (st\<lparr>ag_soc_in := rs\<rparr>) =
      push_blocklist_payload env (read_blocklist ?f) (st\<lparr>ag_soc_in := rs, ag_blocklist := Some ?f\<rparr>)"
    using \<open>4 \<le> length d\<close> assms(8,9) by (simp add: soc_command_def msg_types unblock_ip_file_def load_and_push_blocklist_def)
  ultimately have "ag_fw_out (fst (soc_input env st)) = ag_fw_out st @ encode_payload (read_blocklist ?f)"
    using push_userspace [OF _ _ _ read_blocklist_filling, of "st\<lparr>ag_soc_in := rs, ag_blocklist := Some ?f\<rparr>" env ?f] assms(12-14) by simp
  then show thesis using that read_blocklist_filling unblock_ip_loaded [OF assms(10,11)] by blast
qed

subsection \<open>The firewall\<close>

text \<open>
  What daemon and kernel module promise alike: a loaded payload replaces the blocklist, and a packet of a listed source is dropped
  unless the source is spared, as local sources are while local blocking is off. So every entry of a loaded payload is enforced, and
  every address that no entry covers is off the list.
\<close>

locale block_enforcer =
  fixes load :: "blocklist_payload \<Rightarrow> 's \<Rightarrow> 's"
    and judge :: "'s \<Rightarrow> 'pkt \<Rightarrow> verdict"
    and list_of :: "'s \<Rightarrow> blocklist"
    and exempt :: "'s \<Rightarrow> u32 \<Rightarrow> bool"
    and sent_by :: "u32 \<Rightarrow> 'pkt \<Rightarrow> bool"
    and ub :: "u8 \<Rightarrow> u32"
    and alloc :: "nat \<Rightarrow> bool"
    and oob :: "nat \<Rightarrow> blocklist_entry"
  assumes load_list: "filling p \<Longrightarrow> \<exists>rep. list_of (load p s) = snd (update_ip_blocklist alloc oob rep (list_of s) p)"
    and judge_listed: "sent_by ip pkt \<Longrightarrow> inspect_ip_blocklist ub (list_of s) ip \<Longrightarrow> judge s pkt = (if exempt s ip then NF_ACCEPT else NF_DROP)"
begin

lemma entry_enforced:
  assumes "e \<in> set (loaded p)" "filling p" "bl_ok (list_of s)" "alloc = (\<lambda>_. True)" "sent_by (be_ip e) pkt"
  shows "judge (load p s) pkt = (if exempt (load p s) (be_ip e) then NF_ACCEPT else NF_DROP)"
proof -
  obtain rep where "list_of (load p s) = snd (update_ip_blocklist alloc oob rep (list_of s) p)" using load_list [OF assms(2)] ..
  then have "inspect_ip_blocklist ub (list_of (load p s)) (be_ip e)" using update_entry_blocks [OF assms(1-3)] assms(4) by simp
  then show ?thesis by (rule judge_listed [OF assms(5)])
qed

lemma uncovered_not_listed:
  assumes "list_all (\<lambda>e. \<not> cidr_match ub ip (be_ip e) (be_mask e)) (loaded p)" "filling p" "bl_ok (list_of s)"
  shows "\<not> inspect_ip_blocklist ub (list_of (load p s)) ip"
proof -
  obtain rep where l: "list_of (load p s) = snd (update_ip_blocklist alloc oob rep (list_of s) p)" using load_list [OF assms(2)] ..
  show ?thesis
    using assms(1) payload_entry_loaded [OF assms(2)] by (auto simp: l inspect_iff update_bl_nodes [OF assms(3)] load_count_def list_all_iff)
qed

end

lemma agent_load_outside: "outside fw ip \<Longrightarrow> outside (agent_load nenv p fw) ip"
  by (simp add: outside_def agent_load_def Let_def split: prod.split)

lemma hook_listed_verdict:
  assumes "packet_from ip (Some (skb_data skb))" "inspect_ip_blocklist (ne_ub_shift (ke_nfq kenv)) (km_bl km) ip"
  shows "snd (fw_hook_fn kenv (Some skb) km) = (if km_is_local_ip ip \<and> g_block_local_ips (km_bl km) = 0 then NF_ACCEPT else NF_DROP)"
proof -
  let ?iph = "ip_hdr (ne_oob (ke_nfq kenv)) skb"
  have src: "ip_saddr ?iph = ip" using packet_from_saddr [OF assms(1), of "ne_oob (ke_nfq kenv)"] by (cases skb) simp
  have "hook_tcp kenv skb ?iph (hook_blocklist kenv ?iph km) = (km_send_fw_event kenv (blocklist_event (ne_secs (ke_nfq kenv)) ?iph) km, NF_DROP)"
    using src assms(2) by (simp add: hook_blocklist_def hook_tcp_def Let_def)
  then show ?thesis using src by (simp add: fw_hook_fn_def Let_def)
qed

interpretation nfq: block_enforcer "agent_load nenv" "\<lambda>st payload. snd (fw_nfq_callback penv payload st)" fs_bl "spared penv" packet_from
  "ne_ub_shift penv" "ne_alloc nenv" "ne_oob_entries nenv" for nenv penv
proof
  show "\<exists>rep. fs_bl (agent_load nenv p st) = snd (update_ip_blocklist (ne_alloc nenv) (ne_oob_entries nenv) rep (fs_bl st) p)" for p st
    by (intro exI [of _ "fs_rep st"]) (simp add: agent_load_def Let_def case_prod_beta)
qed (simp_all add: refused_packet_verdict)

interpretation km: block_enforcer "\<lambda>p. fw_nl_recv_msg lenv 2 pid (encode_payload p)" "\<lambda>st skb. snd (fw_hook_fn kenv (Some skb) st)" km_bl
  "\<lambda>st ip. km_is_local_ip ip \<and> g_block_local_ips (km_bl st) = 0" "\<lambda>ip skb. packet_from ip (Some (skb_data skb))" "ne_ub_shift (ke_nfq kenv)" "ne_alloc (ke_nfq lenv)"
  "ne_oob_entries (ke_nfq lenv)" for lenv kenv pid
proof
  fix p and st :: km_state
  assume "filling p"
  then have "parse_payload (encode_payload p) = p" by (intro parse_encode) (simp add: filling_def)
  then show "\<exists>rep. km_bl (fw_nl_recv_msg lenv 2 pid (encode_payload p) st) =
      snd (update_ip_blocklist (ne_alloc (ke_nfq lenv)) (ne_oob_entries (ke_nfq lenv)) rep (km_bl st) p)"
    by (intro exI [of _ "km_rep st"]) (simp add: fw_nl_recv_msg_def NLMSG_DONE_def case_prod_beta)
qed (simp_all add: hook_listed_verdict)

text \<open>The daemon reads the payload from its socket in pieces.\<close>

lemma session_loads:
  assumes "filling p" "[] \<notin> set chunks" "concat chunks = encode_payload p"
  shows "agent_session nenv chunks fw = agent_load nenv p fw"
  using agent_session_payloads [OF assms(2), of "[p]"] assms(1,3) by (simp add: filling_def)

text \<open>A payload that does not name an address restores its reputation.\<close>

lemma unlisted_reputation:
  assumes "ip \<notin> be_ip ` set (loaded p)" "filling p" "rep_ok (fs_rep fw)"
  shows "20 < get_ip_reputation (fs_rep (agent_load nenv p fw)) ip"
proof -
  have "\<not> payload_lists_ip (ne_oob_entries nenv) p ip"
    using assms(1) payload_entry_loaded [OF assms(2)] by (auto simp: payload_lists_ip_def list_ex_iff)
  then show ?thesis
    using assms(3) by (auto simp: agent_load_def update_ip_blocklist_def Let_def case_prod_beta get_rep_abs sync_rep_abs sync_entry_def
        dest: rep_abs_ok split: option.split)
qed

lemma clean_source_accepted:
  assumes "packet_from src (Some data)" "outside st src" "20 < get_ip_reputation (fs_rep st) src"
    and "\<not> inspect_ip_blocklist (ne_ub_shift env) (fs_bl st) src" "ip_protocol (ip_hdr (ne_oob env) \<lparr>skb_data = data\<rparr>) \<noteq> IPPROTO_TCP"
  shows "snd (fw_nfq_callback env (Some data) st) = NF_ACCEPT"
proof -
  obtain st' where b: "is_bypassed_ip env st src = (st', False)"
    using outside_not_bypassed(1) [OF assms(2), of env] by (metis prod.collapse)
  have "ip_saddr (ip_hdr (ne_oob env) \<lparr>skb_data = data\<rparr>) = src" "20 \<le> length data"
    using assms(1) by (simp_all add: packet_from_saddr) (simp add: packet_from_def)
  then show ?thesis
    using b assms(3-5) bypass_frame [OF b]
    by (simp add: fw_nfq_callback_def check_reputation_def check_blocklist_def check_tcp_def local_bypass_def Let_def)
qed

subsection \<open>The dashboard\<close>

lemma header_status:
  assumes "c < 2 ^ 31"
  shows "atoi (drop 9 (http_header c t ct ex n)) = int c"
proof -
  obtain rest where "http_header c t ct ex n = ''HTTP/1.1 '' @ dec_nat c @ CHR '' '' # rest" by (simp add: http_header_def)
  moreover have "\<not> isdigit (CHR '' '')" by code_simp
  ultimately show ?thesis using assms by (simp add: atoi_dec_nat)
qed

text \<open>What a block request with a session does, and that one answered with success has sent the command.\<close>

lemma api_block_result:
  assumes "cookie_ok aenv cookie ast" "length hex = 32" "CHR ''/'' \<notin> set hex" "json_field ''ip'' 63 body = inet_ntop ip"
  shows "handle_api_request aenv wfd ''POST'' (''/api/v2/agents/'' @ hex @ ''/block-ip'') body cookie ast =
    (let st = fst (on_db (db_add_to_blocklist (sv_db (ap_soc aenv)) (inet_ntop ip) ''block'' ''Dashboard manual block'') ast);
         (soc, rc) = send_command_to_agent (ap_soc aenv) hex MSG_TYPE_BLOCK_IP (encode_u32 ip) (as_soc st); st = st\<lparr>as_soc := soc\<rparr> in
     if rc = 0 then reply_ok wfd (''{'' @ json_str ''status'' ''blocked'' @ ''}'') 20 st
     else send_http_response wfd 404 ''Not Found'' JSON [] (''{'' @ json_str ''error'' ''agent_offline'' @ ''}'') 25 st)"
proof -
  let ?path = "''/api/v2/agents/'' @ hex @ ''/block-ip''"
  have "sublist ''/block-ip'' ?path" unfolding sublist_def by (intro exI [of _ "''/api/v2/agents/'' @ hex"] exI [of _ "[]"]) simp
  then have found: "strstr_found ?path ''/block-ip''" by (simp only: strstr_found_iff)
  have "takeWhile (\<lambda>c. c \<noteq> CHR ''/'') (hex @ ''/block-ip'') = hex" using assms(3) by (subst takeWhile_append2) auto
  then have uuid: "take 63 (takeWhile (\<lambda>c. c \<noteq> CHR ''/'') (drop 15 ?path)) = hex" using assms(2) by simp
  have a: "handle_api_request aenv wfd ''POST'' ?path body cookie ast = api_block_ip aenv wfd ?path body ast"
    using assms(1) found by (simp add: handle_api_request_def api_route_def Let_def)
  show ?thesis unfolding a api_block_ip_def uuid assms(4) Let_def by (simp add: inet_pton_ntop json_str_def case_prod_beta)
qed

lemma api_block_sent:
  assumes "cookie_ok aenv cookie ast" "length hex = 32" "CHR ''/'' \<notin> set hex" "json_field ''ip'' 63 body = inet_ntop ip"
    and "ast' = handle_api_request aenv wfd ''POST'' (''/api/v2/agents/'' @ hex @ ''/block-ip'') body cookie ast"
    and "as_replies ast' = as_replies ast @ [(wfd, http_header 200 ''OK'' JSON [] 20, reply)]"
  obtains soc where "send_command_to_agent (ap_soc aenv) hex MSG_TYPE_BLOCK_IP (encode_u32 ip) soc = (as_soc ast', 0)"
    "srv_out soc = srv_out (as_soc ast)"
proof -
  let ?ast1 = "fst (on_db (db_add_to_blocklist (sv_db (ap_soc aenv)) (inet_ntop ip) ''block'' ''Dashboard manual block'') ast)"
  obtain soc rc where sc: "send_command_to_agent (ap_soc aenv) hex MSG_TYPE_BLOCK_IP (encode_u32 ip) (as_soc ?ast1) = (soc, rc)"
    by (cases "send_command_to_agent (ap_soc aenv) hex MSG_TYPE_BLOCK_IP (encode_u32 ip) (as_soc ?ast1)")
  have db: "as_replies ?ast1 = as_replies ast" "srv_out (as_soc ?ast1) = srv_out (as_soc ast)"
    by (simp_all add: on_db_def split: prod.split)
  note b = assms(5) [unfolded api_block_result [OF assms(1-4)] Let_def sc prod.case]
  have "rc = 0"
  proof (rule ccontr)
    assume "rc \<noteq> 0"
    then have "http_header 404 ''Not Found'' JSON [] 25 = http_header 200 ''OK'' JSON [] 20"
      using assms(6) b db(1) by (simp add: send_http_response_def)
    then have "atoi (drop 9 (http_header 404 ''Not Found'' JSON [] 25)) = atoi (drop 9 (http_header 200 ''OK'' JSON [] 20))" by simp
    then show False by (simp add: header_status)
  qed
  then show thesis using that [OF _ db(2)] sc b by (simp add: reply_ok_def)
qed

text \<open>A block request answered with success, up to the push of the agent.\<close>

lemma dashboard_pushed:
  assumes "cookie_ok aenv cookie ast" "length hex = 32" "CHR ''/'' \<notin> set hex" "json_field ''ip'' 63 body = inet_ntop ip"
    and "ast' = handle_api_request aenv wfd ''POST'' (''/api/v2/agents/'' @ hex @ ''/block-ip'') body cookie ast"
    and "as_replies ast' = as_replies ast @ [(wfd, http_header 200 ''OK'' JSON [] 20, reply)]"
    and "flowing (ag_soc_in st)" "pending (ag_soc_in st) = written (as_soc ast) (as_soc ast') @ rest"
    and "evp_ok (sv_evp (ap_soc aenv)) (ae_evp env (ag_calls st))" "cbc_sizes (sv_evp (ap_soc aenv))" "ae_malloc env"
    and "ag_blocklist st = Some content" "ae_append_ok env"
    and "content = [] \<or> last content = CHR 0x0A" "length (line_entries (fgets_lines 128 content)) < 1024"
    and "names_address content ip"
  obtains p rs f e where "fst (soc_input env st) = push_blocklist_payload env p (st\<lparr>ag_soc_in := rs, ag_blocklist := f\<rparr>)" "filling p"
    "e \<in> set (loaded p)" "be_ip e = ip"
proof -
  obtain soc where sent: "send_command_to_agent (ap_soc aenv) hex MSG_TYPE_BLOCK_IP (encode_u32 ip) soc = (as_soc ast', 0)"
    and out: "srv_out soc = srv_out (as_soc ast)" by (rule api_block_sent [OF assms(1-6)])
  have ip: "command_u32 (encode_u32 ip) = ip" using le32_bytes [of ip] by (simp add: command_u32_def)
  have bytes: "pending (ag_soc_in st) = written soc (as_soc ast') @ rest" using assms(8) out by (simp add: written_def)
  show thesis
    by (rule command_pushed [OF sent length_encode_u32 assms(7) bytes assms(9-15), unfolded ip, OF assms(16)]) (rule that)
qed

subsection \<open>Properties\<close>

text \<open>C1: An operator's block takes effect: when the dashboard request to block an address on an agent is answered with success, the
  agent takes the command from the stream, enters the address in its blocklist file and pushes the list to the daemon (in
  user-space mode), and after the daemon has read the payload, in any pieces, every packet of the address is dropped, except that
  a source which bypasses the firewall (loopback, the default gateway, the Docker host inside a container) and, while local blocking is off, any
  local source is still accepted. The file has room and ends in a newline, and if the text of the address occurs in it then the address is an
  entry (a longer address that contains the text would make the agent skip the command).\<close>

theorem dashboard_block_enforced:
  assumes "cookie_ok aenv cookie ast" "length hex = 32" "CHR ''/'' \<notin> set hex" "json_field ''ip'' 63 body = inet_ntop ip"
    and "ast' = handle_api_request aenv wfd ''POST'' (''/api/v2/agents/'' @ hex @ ''/block-ip'') body cookie ast"
    and "as_replies ast' = as_replies ast @ [(wfd, http_header 200 ''OK'' JSON [] 20, reply)]"
    and "flowing (ag_soc_in st)" "pending (ag_soc_in st) = written (as_soc ast) (as_soc ast') @ rest"
    and "evp_ok (sv_evp (ap_soc aenv)) (ae_evp env (ag_calls st))" "cbc_sizes (sv_evp (ap_soc aenv))" "ae_malloc env"
    and "ag_blocklist st = Some content" "ae_append_ok env" "0 \<le> ag_fw_fd st" "ag_userspace_mode st"
    and "ae_fw_write env (ag_calls st) = int PAYLOAD_SIZE"
    and "content = [] \<or> last content = CHR 0x0A" "length (line_entries (fgets_lines 128 content)) < 1024"
    and "listed_text (Some content) (inet_ntop ip) \<Longrightarrow> ip \<in> be_ip ` set (line_entries (fgets_lines 128 content))"
    and "[] \<notin> set chunks" "concat chunks = drop (length (ag_fw_out st)) (ag_fw_out (fst (soc_input env st)))"
    and "fw_ok fw" "ne_alloc nenv = (\<lambda>_. True)" "packet_from ip payload" "fw' = agent_session nenv chunks fw"
  shows "snd (fw_nfq_callback penv payload fw') =
    (if snd (is_bypassed_ip penv fw' ip) \<or> is_local_ip ip \<and> g_block_local_ips (fs_bl fw') = 0 then NF_ACCEPT else NF_DROP)"
proof -
  have "names_address content ip" using assms(19) by (simp add: names_address_def)
  then obtain p rs f e where p: "fst (soc_input env st) = push_blocklist_payload env p (st\<lparr>ag_soc_in := rs, ag_blocklist := f\<rparr>)" "filling p"
      "e \<in> set (loaded p)" "be_ip e = ip"
    using dashboard_pushed [OF assms(1-13,17,18)] by metis
  then have "concat chunks = encode_payload p"
    using assms(14-16,21) push_userspace [of "st\<lparr>ag_soc_in := rs, ag_blocklist := f\<rparr>" env p] by simp
  from session_loads [OF p(2) assms(20) this] show ?thesis
    using nfq.entry_enforced [OF p(3,2), where s = fw and nenv = nenv and penv = penv and pkt = payload] assms(22-25) p(4)
    by (simp add: fw_ok_def spared_def)
qed

text \<open>C9: The same holds for a host with the kernel module: an agent on the netlink socket pushes the list in exactly one message, of type 2,
  and after the module has received it the hook drops every packet of the address, except that a local address is accepted while local
  blocking is off. The conditions on the file are those of the daemon's case.\<close>

theorem dashboard_block_enforced_module:
  assumes "cookie_ok aenv cookie ast" "length hex = 32" "CHR ''/'' \<notin> set hex" "json_field ''ip'' 63 body = inet_ntop ip"
    and "ast' = handle_api_request aenv wfd ''POST'' (''/api/v2/agents/'' @ hex @ ''/block-ip'') body cookie ast"
    and "as_replies ast' = as_replies ast @ [(wfd, http_header 200 ''OK'' JSON [] 20, reply)]"
    and "flowing (ag_soc_in st)" "pending (ag_soc_in st) = written (as_soc ast) (as_soc ast') @ rest"
    and "evp_ok (sv_evp (ap_soc aenv)) (ae_evp env (ag_calls st))" "cbc_sizes (sv_evp (ap_soc aenv))" "ae_malloc env"
    and "ag_blocklist st = Some content" "ae_append_ok env"
    and "content = [] \<or> last content = CHR 0x0A" "length (line_entries (fgets_lines 128 content)) < 1024"
    and "listed_text (Some content) (inet_ntop ip) \<Longrightarrow> ip \<in> be_ip ` set (line_entries (fgets_lines 128 content))"
    and "0 \<le> ag_fw_fd st" "\<not> ag_userspace_mode st" "ae_nl_send env (ag_calls st)"
    and "bl_ok (km_bl km)" "ne_alloc (ke_nfq lenv) = (\<lambda>_. True)" "packet_from ip (Some (skb_data skb))"
  shows "\<exists>bytes. ag_nl_out (fst (soc_input env st)) = ag_nl_out st @ [(2, bytes)] \<and> length bytes = PAYLOAD_SIZE \<and>
    (let km' = fw_nl_recv_msg lenv 2 pid bytes km in
     snd (fw_hook_fn kenv (Some skb) km') = (if is_local_ip ip \<and> g_block_local_ips (km_bl km') = 0 then NF_ACCEPT else NF_DROP))"
proof -
  have "names_address content ip" using assms(16) by (simp add: names_address_def)
  then obtain p rs f e where p: "fst (soc_input env st) = push_blocklist_payload env p (st\<lparr>ag_soc_in := rs, ag_blocklist := f\<rparr>)" "filling p"
      "e \<in> set (loaded p)" "be_ip e = ip"
    using dashboard_pushed [OF assms(1-15)] by metis
  then have "ag_nl_out (fst (soc_input env st)) = ag_nl_out st @ [(2, encode_payload p)]"
    using assms(17-19) push_netlink [of "st\<lparr>ag_soc_in := rs, ag_blocklist := f\<rparr>" env p] by simp
  moreover have "length (encode_payload p) = PAYLOAD_SIZE" using p(2) by (simp add: length_encode_payload filling_def)
  moreover note km.entry_enforced [OF p(3,2) assms(20), where lenv = lenv and kenv = kenv and pid = pid and pkt = skb]
  ultimately show ?thesis using assms(21,22) p(4) by (intro exI [of _ "encode_payload p"]) (simp add: Let_def km_is_local_ip_eq)
qed

text \<open>C10: A withdrawn block ends: when the controller on port 8444 sends an unblock command that reaches the agent, the agent takes the
  lines with the address out of its blocklist file and pushes the rest to the daemon (in user-space mode); if no other entry
  of the file covers the address, then after the daemon has read the payload, in any pieces and whichever allocations fail, the address is off
  the list, its reputation is above the threshold again, and its packets that are not TCP get the verdict ACCEPT of the
  netfilter queue. The address is outside the local networks and is not the default gateway; the packets are those that
  reach the queue.\<close>

theorem unblock_restores_source:
  assumes "0 \<le> cfd" "local_read 38 cmd = hex @ [NUL, CHR 0x04] @ encode_u32 ip" "length hex = 32" "NUL \<notin> set hex"
    and "ast' = server_event aenv (LOCAL_CONNECT cfd cmd) ast"
    and "snd (send_command_to_agent (ap_soc aenv) hex MSG_TYPE_UNBLOCK_IP (encode_u32 ip) (as_soc ast)) = 0"
    and "flowing (ag_soc_in st)" "pending (ag_soc_in st) = written (as_soc ast) (as_soc ast') @ rest"
    and "evp_ok (sv_evp (ap_soc aenv)) (ae_evp env (ag_calls st))" "cbc_sizes (sv_evp (ap_soc aenv))" "ae_malloc env"
    and "ag_blocklist st = Some content" "ae_write_ok env" "tidy content" "length (fgets_lines 128 content) \<le> 1024"
    and "0 \<le> ag_fw_fd st" "ag_userspace_mode st" "ae_fw_write env (ag_calls st) = int PAYLOAD_SIZE"
    and "list_all (\<lambda>e. \<not> cidr_match (ne_ub_shift penv) ip (be_ip e) (be_mask e))
      (line_entries (filter (\<lambda>l. \<not> sublist (inet_ntop ip) l) (fgets_lines 128 content)))"
    and "[] \<notin> set chunks" "concat chunks = drop (length (ag_fw_out st)) (ag_fw_out (fst (soc_input env st)))"
    and "fw_ok fw" "outside fw ip" "packet_from ip (Some data)" "ip_protocol (ip_hdr (ne_oob penv) \<lparr>skb_data = data\<rparr>) \<noteq> IPPROTO_TCP"
  shows "let fw' = agent_session nenv chunks fw in
    \<not> inspect_ip_blocklist (ne_ub_shift penv) (fs_bl fw') ip \<and> 20 < get_ip_reputation (fs_rep fw') ip \<and>
    snd (fw_nfq_callback penv (Some data) fw') = NF_ACCEPT"
proof -
  have ip: "command_u32 (encode_u32 ip) = ip" using le32_bytes [of ip] by (simp add: command_u32_def)
  have "as_soc ast' = fst (send_command_to_agent (ap_soc aenv) hex MSG_TYPE_UNBLOCK_IP (encode_u32 ip) (as_soc ast))"
    using assms(1,3) by (simp add: assms(5) server_event_def local_command_def assms(2) nth_append cstr_id [OF assms(4)] msg_types)
  then have sent: "send_command_to_agent (ap_soc aenv) hex MSG_TYPE_UNBLOCK_IP (encode_u32 ip) (as_soc ast) = (as_soc ast', 0)"
    using assms(6) by (metis prod.collapse)
  obtain p where p: "ag_fw_out (fst (soc_input env st)) = ag_fw_out st @ encode_payload p" "filling p"
      "loaded p = line_entries (filter (\<lambda>l. \<not> sublist (inet_ntop ip) l) (fgets_lines 128 content))"
    using unblock_pushed [OF sent length_encode_u32 assms(7-18), unfolded ip] by blast
  have s: "agent_session nenv chunks fw = agent_load nenv p fw" using session_loads [OF p(2) assms(20)] assms(21) p(1) by simp
  have clear: "\<not> inspect_ip_blocklist (ne_ub_shift penv) (fs_bl (agent_load nenv p fw)) ip" "20 < get_ip_reputation (fs_rep (agent_load nenv p fw)) ip"
    using nfq.uncovered_not_listed [OF _ p(2), where ip = ip and s = fw and nenv = nenv and penv = penv] unlisted_reputation [OF _ p(2), of ip fw nenv]
      unblock_ip_unlisted [OF assms(14), of ip] assms(19,22) by (simp_all add: p(3) fw_ok_def)
  show ?thesis
    unfolding s Let_def using clear clean_source_accepted [OF assms(24) agent_load_outside [OF assms(23)] clear(2,1) assms(25)] by simp
qed

lemma sample_idle: "idle (new_conn 4 (inet_ntop 0x0100007F))"
  "srv_conns (accept_agent sample_soc_env 4 0x0100007F sample_soc) 4 = Some (new_conn 4 (inet_ntop 0x0100007F))"
  using accept_fresh(1,2) [OF sample_addr_ok, of 4] by simp_all

text \<open>The server after the greeting of the sample agent, and the agent of the same identity in user-space mode.\<close>

definition greeted_soc :: soc_state where
  "greeted_soc = receive_message sample_soc_env 4 (accept_agent sample_soc_env 4 0x0100007F sample_soc) sample_hello"

definition sample_hex :: string where
  "sample_hex = ''75757575757575757575757575757575''"

text \<open>The request of the dashboard, with a session, and the server after it.\<close>

definition sample_request :: string where
  \<open>sample_request = ''{"ip":"203.0.113.77"}''\<close>

definition dashboard :: api_state where
  "dashboard = sample_api\<lparr>as_soc := greeted_soc\<rparr>"

definition dashboard_done :: api_state where
  "dashboard_done = handle_api_request sample_api_env 7 ''POST'' (''/api/v2/agents/'' @ sample_hex @ ''/block-ip'') sample_request
     (Some sample_cookie) dashboard"

definition blocking_env :: agent_env where
  "blocking_env = quiet_env\<lparr>ae_fw_write := (\<lambda>_. int PAYLOAD_SIZE), ae_nl_send := (\<lambda>_. True)\<rparr>"

definition blocking_agent :: "bool \<Rightarrow> agent_state" where
  "blocking_agent userspace = sample_agent\<lparr>ag_soc_in := [GOT (written greeted_soc (as_soc dashboard_done))], ag_blocklist := Some [],
     ag_fw_fd := 5, ag_userspace_mode := userspace, ag_fw_out := []\<rparr>"

lemma sample_hex_uuid: "parse_uuid_hex junk sample_hex = replicate 16 (CHR ''u'')"
proof -
  have "scan_hex2 j (CHR ''7'' # CHR ''5'' # cs) = CHR ''u''" for j cs
  proof -
    have "\<not> isspace (CHR ''7'')" "isxdigit (CHR ''7'')" "isxdigit (CHR ''5'')" "strtol16 ''75'' = 117"
      "char_of (117 :: nat) = CHR ''u''" by code_simp+
    then show ?thesis by (simp add: scan_hex2_def)
  qed
  then show ?thesis by (simp add: parse_uuid_hex_def sample_hex_def numeral_eq_Suc)
qed

lemma greeted_found: "find_agent (replicate 16 (CHR ''u'')) (srv_conns greeted_soc) (srv_agents greeted_soc) = Some 4"
proof -
  have "Some 4 \<in> set (srv_agents (accept_agent sample_soc_env 4 0x0100007F sample_soc))"
    by (rule accept_fresh(3) [OF sample_addr_ok]) (simp_all add: sample_soc_def MAX_CONNECTED_AGENTS_def)
  moreover have "hdr_agent_uuid (parse_hdr (fst sample_hello)) = replicate 16 (CHR ''u'')"
    using parse_encode_hdr [of "make_hdr (replicate 16 (CHR ''u'')) MSG_TYPE_PING 0" "[]"] by (simp add: sample_hello_def)
  ultimately show ?thesis
    using receive_unique [OF sample_idle(2) _ sample_hello_ok, of sample_soc_env] by (simp add: greeted_soc_def)
qed

text \<open>A command to the sample agent goes out in full.\<close>

lemma greeted_command:
  assumes "srv_conns soc = srv_conns greeted_soc" "srv_agents soc = srv_agents greeted_soc"
  obtains bs where "send_command_to_agent sample_soc_env sample_hex ty d soc = (soc\<lparr>srv_out := srv_out soc @ bs\<rparr>, 0)" "concat (map snd bs) \<noteq> []"
proof -
  have "sv_evp sample_soc_env = plain_evp" "sv_writes sample_soc_env = (\<lambda>_. [])" "length sample_hex = 32"
    by (simp_all add: sample_soc_env_def sample_hex_def)
  then show thesis
    using that assms greeted_found by (simp add: send_command_to_agent_def Let_def plain_evp_encrypt sample_hex_uuid)
qed

definition sample_ip :: u32 where
  "sample_ip = le32 (CHR 0xCB) NUL (CHR 0x71) (CHR 0x4D)"

lemma sample_request_ip: "json_field ''ip'' 63 sample_request = inet_ntop sample_ip"
  by code_simp

lemma dashboard_facts:
  "cookie_ok sample_api_env (Some sample_cookie) dashboard" "length sample_hex = 32" "CHR ''/'' \<notin> set sample_hex"
  by (rule sample_cookie_ok) (simp_all add: sample_hex_def)

lemma dashboard_replied:
  obtains reply where "as_replies dashboard_done = as_replies dashboard @ [(7, http_header 200 ''OK'' JSON [] 20, reply)]"
    "written (as_soc dashboard) (as_soc dashboard_done) \<noteq> []"
proof -
  let ?ast1 = "fst (on_db (db_add_to_blocklist (sv_db sample_soc_env) (inet_ntop sample_ip) ''block'' ''Dashboard manual block'') dashboard)"
  have soc: "ap_soc sample_api_env = sample_soc_env" by (simp add: sample_api_env_def)
  have one: "as_replies ?ast1 = as_replies dashboard" "srv_conns (as_soc ?ast1) = srv_conns greeted_soc"
    "srv_agents (as_soc ?ast1) = srv_agents greeted_soc" "srv_out (as_soc ?ast1) = srv_out (as_soc dashboard)"
    by (simp_all add: on_db_def dashboard_def split: prod.split)
  obtain bs where bs: "send_command_to_agent sample_soc_env sample_hex MSG_TYPE_BLOCK_IP (encode_u32 sample_ip) (as_soc ?ast1) =
      ((as_soc ?ast1)\<lparr>srv_out := srv_out (as_soc ?ast1) @ bs\<rparr>, 0)" "concat (map snd bs) \<noteq> []"
    by (rule greeted_command [OF one(2,3)])
  have d: "dashboard_done = reply_ok 7 (''{'' @ json_str ''status'' ''blocked'' @ ''}'') 20
      (?ast1\<lparr>as_soc := (as_soc ?ast1)\<lparr>srv_out := srv_out (as_soc ?ast1) @ bs\<rparr>\<rparr>)"
    unfolding dashboard_done_def api_block_result [OF dashboard_facts sample_request_ip] soc Let_def bs(1) by simp
  have "\<exists>reply. as_replies dashboard_done = as_replies dashboard @ [(7, http_header 200 ''OK'' JSON [] 20, reply)]"
    "written (as_soc dashboard) (as_soc dashboard_done) \<noteq> []"
    unfolding d using one(1,4) bs(2) by (simp_all add: reply_ok_def send_http_response_def written_def)
  then show thesis using that by blast
qed

lemma blocking_env_facts:
  "evp_ok (sv_evp (ap_soc sample_api_env)) (ae_evp blocking_env m)" "cbc_sizes (sv_evp (ap_soc sample_api_env))"
  "ae_malloc blocking_env" "ae_append_ok blocking_env" "ae_fw_write blocking_env m = int PAYLOAD_SIZE" "ae_nl_send blocking_env m"
  "ne_alloc sample_nfq = (\<lambda>_. True)"
  using plain_evp_ok plain_sizes by (simp_all add: blocking_env_def quiet_env_def sample_soc_env_def sample_api_env_def sample_nfq_def)

lemma blocking_agent_facts:
  "flowing (ag_soc_in (blocking_agent b))" "pending (ag_soc_in (blocking_agent b)) = written (as_soc dashboard) (as_soc dashboard_done) @ []"
  "ag_blocklist (blocking_agent b) = Some []" "0 \<le> ag_fw_fd (blocking_agent b)" "ag_userspace_mode (blocking_agent b) = b"
  "ag_fw_out (blocking_agent b) = []"
  using dashboard_replied by (auto simp: blocking_agent_def dashboard_def)

lemma no_list_facts:
  "[] = [] \<or> last [] = CHR 0x0A" "length (line_entries (fgets_lines 128 [])) < 1024" "\<not> listed_text (Some []) s" "names_address [] ip"
  by (simp_all add: names_address_def listed_text_def fgets_lines.simps [of _ "[]"])

text \<open>What the sample agent pushes, and that the sample address is not local.\<close>

lemma blocking_pushed:
  obtains p rs f where "fst (soc_input blocking_env (blocking_agent b)) =
      push_blocklist_payload blocking_env p ((blocking_agent b)\<lparr>ag_soc_in := rs, ag_blocklist := f\<rparr>)" "filling p"
proof -
  obtain reply where "as_replies dashboard_done = as_replies dashboard @ [(7, http_header 200 ''OK'' JSON [] 20, reply)]"
    by (rule dashboard_replied)
  from dashboard_pushed [OF dashboard_facts sample_request_ip dashboard_done_def this blocking_agent_facts(1,2)
      blocking_env_facts(1-3) blocking_agent_facts(3) blocking_env_facts(4) no_list_facts(1,2,4)]
  show thesis using that by blast
qed

lemma sample_ip_facts:
  "packet_from sample_ip (Some (header_from (CHR 0xCB) NUL (CHR 0x71) (CHR 0x4D)))" "\<not> is_local_ip sample_ip"
  unfolding sample_ip_def by (rule header_from_packet) (simp add: is_local_ip_def octet_def le32_def byte_swap32_def Let_def)

theorem dashboard_block_enforced_witness:
  "snd (fw_nfq_callback sample_nfq (Some (header_from (CHR 0xCB) NUL (CHR 0x71) (CHR 0x4D)))
      (agent_session sample_nfq [ag_fw_out (fst (soc_input blocking_env (blocking_agent True)))] (sample_state\<lparr>fs_gw_initialized := True\<rparr>))) = NF_DROP"
proof -
  let ?fw = "sample_state\<lparr>fs_gw_initialized := True\<rparr>" and ?out = "ag_fw_out (fst (soc_input blocking_env (blocking_agent True)))"
  obtain reply where done_ok: "as_replies dashboard_done = as_replies dashboard @ [(7, http_header 200 ''OK'' JSON [] 20, reply)]"
    by (rule dashboard_replied)
  have ok: "fw_ok ?fw" using start_ok [OF sample_started] by (simp add: fw_ok_def)
  have out: "outside ?fw sample_ip" using sample_ip_facts(2) by (simp add: outside_def sample_state_def sample_ip_def le32_def)
  obtain p rs f where "fst (soc_input blocking_env (blocking_agent True)) =
      push_blocklist_payload blocking_env p ((blocking_agent True)\<lparr>ag_soc_in := rs, ag_blocklist := f\<rparr>)" and "filling p"
    by (rule blocking_pushed)
  then have "?out = encode_payload p" "filling p"
    using push_userspace [of "(blocking_agent True)\<lparr>ag_soc_in := rs, ag_blocklist := f\<rparr>" blocking_env p] blocking_agent_facts blocking_env_facts
    by simp_all
  then have ne: "[] \<notin> set [?out]" using length_encode_payload [of p] by (auto simp: filling_def PAYLOAD_SIZE_def)
  have cat: "concat [?out] = drop (length (ag_fw_out (blocking_agent True))) ?out" by (simp add: blocking_agent_facts)
  have "\<not> spared sample_nfq (agent_session sample_nfq [?out] ?fw) sample_ip"
    using session_loads [OF \<open>filling p\<close> ne] \<open>?out = encode_payload p\<close> by (simp add: outside_not_spared agent_load_outside out)
  moreover note dashboard_block_enforced [OF dashboard_facts sample_request_ip dashboard_done_def done_ok blocking_agent_facts(1,2)
      blocking_env_facts(1-3) blocking_agent_facts(3) blocking_env_facts(4) blocking_agent_facts(4) _ blocking_env_facts(5)
      no_list_facts(1,2) _ ne cat ok blocking_env_facts(7) sample_ip_facts(1) refl, of sample_nfq]
  ultimately show ?thesis using blocking_agent_facts(5) no_list_facts(3) by (simp add: spared_def)
qed

theorem dashboard_block_enforced_module_witness:
  "snd (fw_hook_fn sample_km_env
      (Some \<lparr>skb_data = header_from (CHR 0xCB) NUL (CHR 0x71) (CHR 0x4D)\<rparr>)
      (fw_nl_recv_msg sample_km_env 2 7
         (snd (last (ag_nl_out (fst (soc_input blocking_env (blocking_agent False)))))) sample_km)) = NF_DROP"
proof -
  note agent = blocking_agent_facts [of False]
  obtain reply where done_ok: "as_replies dashboard_done = as_replies dashboard @ [(7, http_header 200 ''OK'' JSON [] 20, reply)]"
    by (rule dashboard_replied)
  have bl: "bl_ok (km_bl sample_km)" using empty_bl_ok by (simp add: sample_km_def sample_state_def)
  have src: "packet_from sample_ip (Some (skb_data \<lparr>skb_data = header_from (CHR 0xCB) NUL (CHR 0x71) (CHR 0x4D)\<rparr>))"
    using sample_ip_facts(1) by simp
  have alloc: "ne_alloc (ke_nfq sample_km_env) = (\<lambda>_. True)" using blocking_env_facts(7) by simp
  from dashboard_block_enforced_module [OF dashboard_facts sample_request_ip dashboard_done_def done_ok agent(1,2)
      blocking_env_facts(1-3) agent(3) blocking_env_facts(4) no_list_facts(1,2) _ agent(4) _ blocking_env_facts(6)
      bl alloc src, where pid = 7 and kenv = sample_km_env]
  obtain bytes where "ag_nl_out (fst (soc_input blocking_env (blocking_agent False))) = ag_nl_out (blocking_agent False) @ [(2, bytes)]"
    "snd (fw_hook_fn sample_km_env (Some \<lparr>skb_data = header_from (CHR 0xCB) NUL (CHR 0x71) (CHR 0x4D)\<rparr>)
       (fw_nl_recv_msg sample_km_env 2 7 bytes sample_km)) = NF_DROP"
    using agent(5) no_list_facts(3) sample_ip_facts(2) by (auto simp: Let_def)
  then show ?thesis by simp
qed

text \<open>The controller withdraws the address from an agent whose file lists it; the daemon has been blocking its network.\<close>

definition sample_list :: string where
  "sample_list = ''203.0.113.77/32'' @ [CHR 0x0A]"

definition sample_unblock :: "byte list" where
  "sample_unblock = sample_hex @ [NUL, CHR 0x04] @ encode_u32 sample_ip"

definition unblock_done :: api_state where
  "unblock_done = server_event sample_api_env (LOCAL_CONNECT 9 [GOT sample_unblock]) dashboard"

definition unblocking_agent :: agent_state where
  "unblocking_agent = (blocking_agent True)\<lparr>ag_soc_in := [GOT (written (as_soc dashboard) (as_soc unblock_done))], ag_blocklist := Some sample_list\<rparr>"

lemma sample_list_facts:
  "fgets_lines 128 sample_list = [sample_list]" "tidy sample_list" "sublist (inet_ntop sample_ip) sample_list"
proof -
  show l: "fgets_lines 128 sample_list = [sample_list]"
    using fgets_lines_concat [of 128 "[sample_list]" "[]"] by (simp add: sample_list_def closed_line_def fgets_lines.simps [of _ "[]"])
  show "tidy sample_list" by (simp add: tidy_def l closed_line_def) (simp add: sample_list_def)
  have "strstr_found sample_list (inet_ntop sample_ip)" by code_simp
  then show "sublist (inet_ntop sample_ip) sample_list" by (simp only: strstr_found_iff)
qed

lemma sample_unblock_read: "local_read 38 [GOT sample_unblock] = sample_unblock"
proof -
  have "length sample_unblock = 38" by (simp add: sample_unblock_def sample_hex_def)
  then show ?thesis by (cases sample_unblock) (simp_all add: local_read.simps)
qed

theorem unblock_restores_source_witness:
  "snd (fw_nfq_callback sample_nfq (Some (header_from (CHR 0xCB) NUL (CHR 0x71) (CHR 0x4D)))
      (agent_session sample_nfq [ag_fw_out (fst (soc_input blocking_env unblocking_agent))] guarded_state)) = NF_ACCEPT"
proof -
  let ?out = "ag_fw_out (fst (soc_input blocking_env unblocking_agent))"
  have soc: "ap_soc sample_api_env = sample_soc_env" by (simp add: sample_api_env_def)
  have cmd: "local_read 38 [GOT sample_unblock] = sample_hex @ [NUL, CHR 0x04] @ encode_u32 sample_ip"
    unfolding sample_unblock_read by (simp add: sample_unblock_def)
  have hex: "length sample_hex = 32" "NUL \<notin> set sample_hex" by (simp_all add: sample_hex_def)
  obtain bs where bs: "send_command_to_agent sample_soc_env sample_hex MSG_TYPE_UNBLOCK_IP (encode_u32 sample_ip) (as_soc dashboard) =
      ((as_soc dashboard)\<lparr>srv_out := srv_out (as_soc dashboard) @ bs\<rparr>, 0)" "concat (map snd bs) \<noteq> []"
    by (rule greeted_command [of "as_soc dashboard"]) (simp_all add: dashboard_def)
  have rc: "snd (send_command_to_agent (ap_soc sample_api_env) sample_hex MSG_TYPE_UNBLOCK_IP (encode_u32 sample_ip) (as_soc dashboard)) = 0"
    by (simp add: soc bs(1))
  have one: "as_soc unblock_done = fst (send_command_to_agent sample_soc_env sample_hex MSG_TYPE_UNBLOCK_IP (encode_u32 sample_ip) (as_soc dashboard))"
    using hex(1) by (simp add: unblock_done_def server_event_def local_command_def cmd soc nth_append cstr_id [OF hex(2)] msg_types)
  then have "written (as_soc dashboard) (as_soc unblock_done) \<noteq> []" using bs by (simp add: written_def)
  then have st: "flowing (ag_soc_in unblocking_agent)" "pending (ag_soc_in unblocking_agent) = written (as_soc dashboard) (as_soc unblock_done) @ []"
    by (simp_all add: unblocking_agent_def)
  have ag: "ag_blocklist unblocking_agent = Some sample_list" "0 \<le> ag_fw_fd unblocking_agent" "ag_userspace_mode unblocking_agent" "ag_fw_out unblocking_agent = []"
    using blocking_agent_facts by (simp_all add: unblocking_agent_def)
  have wr: "ae_write_ok blocking_env" by (simp add: blocking_env_def quiet_env_def)
  have few: "length (fgets_lines 128 sample_list) \<le> 1024" by (simp add: sample_list_facts(1))
  have none: "line_entries (filter (\<lambda>l. \<not> sublist (inet_ntop sample_ip) l) (fgets_lines 128 sample_list)) = []"
    by (simp add: sample_list_facts)
  have send: "send_command_to_agent (ap_soc sample_api_env) sample_hex MSG_TYPE_UNBLOCK_IP (encode_u32 sample_ip) (as_soc dashboard) = (as_soc unblock_done, 0)"
    using one bs(1) by (simp add: soc)
  obtain p where "?out = encode_payload p" "filling p"
    by (rule unblock_pushed [OF send length_encode_u32 st blocking_env_facts(1-3) ag(1) wr sample_list_facts(2) few ag(2,3) blocking_env_facts(5)])
      (simp add: ag(4))
  then have ch: "[] \<notin> set [?out]" using length_encode_payload [of p] by (auto simp: filling_def PAYLOAD_SIZE_def)
  have cat: "concat [?out] = drop (length (ag_fw_out unblocking_agent)) ?out" by (simp add: ag(4))
  have ok: "fw_ok guarded_state"
    unfolding guarded_state_def using start_ok [OF sample_started] by (intro agent_load_ok) (simp add: fw_ok_def)
  have out: "outside guarded_state sample_ip" unfolding sample_ip_def by (rule guarded_outside)
  have udp: "ip_protocol (ip_hdr (ne_oob sample_nfq) \<lparr>skb_data = header_from (CHR 0xCB) NUL (CHR 0x71) (CHR 0x4D)\<rparr>) \<noteq> IPPROTO_TCP"
    by (simp add: ip_hdr_def skb_byte_def header_from_def IPPROTO_TCP_def Let_def)
  show ?thesis
    using unblock_restores_source [OF _ cmd hex unblock_done_def rc st blocking_env_facts(1-3) ag(1) wr sample_list_facts(2) few ag(2,3)
        blocking_env_facts(5) _ ch cat ok out sample_ip_facts(1) udp, of sample_nfq] none by (simp add: Let_def)
qed

end
