(* ===== verification/Soc_Session.thy ===== *)
theory Soc_Session
  imports Soc_Api
begin

section \<open>Sessions of the dashboard\<close>

text \<open>
  Login, cookie and session check put together: the token that \<^verbatim>\<open>POST /auth\<close> hands out in its \<^verbatim>\<open>Set-Cookie\<close> header is the one that
  later requests present, and \<^verbatim>\<open>auth.c\<close> recognises it.
\<close>

subsection \<open>Lemmas\<close>

lemma hex_no_semicolon: "CHR '';'' \<notin> set (hex_bytes bs)"
proof -
  have semi: "ord (CHR '';'') = 59" by code_simp
  have digit: "(if n < 10 then char_of (48 + n) else char_of (87 + n)) \<noteq> CHR '';''" if "n < (16 :: nat)" for n
  proof
    assume "(if n < 10 then char_of (48 + n) else char_of (87 + n)) = CHR '';''"
    then have "ord (if n < 10 then char_of (48 + n) else char_of (87 + n)) = 59" using semi by (simp only:)
    then show False using that by (simp split: if_splits)
  qed
  have "ord b div 16 < 16" "ord b mod 16 < 16" for b using less_mult_imp_div_less [of "ord b" 16 16] ord_less [of b] by auto
  then have "CHR '';'' \<notin> set (hex_byte b)" for b
    using digit [of "ord b div 16"] digit [of "ord b mod 16"] by (simp add: hex_byte_def Let_def eq_commute [of "CHR '';''"])
  then show ?thesis by (simp add: hex_bytes_def)
qed

lemma dec_no_semicolon: "CHR '';'' \<notin> set (dec_nat n)"
proof -
  have "\<not> isdigit (CHR '';'')" by code_simp
  then show ?thesis using set_dec_nat by blast
qed

lemma field_found: "json_field name n body \<noteq> [] \<Longrightarrow> strstr_found body (json_pattern name)"
  by (auto simp: json_field_def after_text_def strstr_found_def split: option.splits)

lemma length_field: "length (json_field name n body) \<le> n"
  by (simp add: json_field_def until_quote_def split: option.split)

text \<open>A cookie that holds nothing but the session.\<close>

lemma cookie_token_alone:
  assumes "CHR '';'' \<notin> set token" "length token \<le> 511"
  shows "cookie_token (''session_token='' @ token) = Some token"
proof -
  have "strstr (''session_token='' @ token) ''session_token='' = Some 0" by simp
  then have c: "cookie_token (''session_token='' @ token) = Some (take 511 (takeWhile (\<lambda>c. c \<noteq> CHR '';'') token))"
    by (simp only: cookie_token_def after_text_def option.map) simp
  have "takeWhile (\<lambda>c. c \<noteq> CHR '';'') token = token" using assms(1) by (auto simp: takeWhile_eq_all_conv)
  then show ?thesis unfolding c using assms(2) by (simp only: take_all)
qed

text \<open>The token of a login: its text and its size.\<close>

lemma login_token:
  assumes "CHR '';'' \<notin> set user" "length user \<le> 63" "now + 28800 < 2 ^ 63"
    and "\<And>m. length (hmac (session_secret auth) m) = 32"
  shows "CHR '';'' \<notin> set (auth_generate_session_token hmac auth now user 512)"
    "length (auth_generate_session_token hmac auth now user 512) \<le> 429"
proof -
  let ?mac = "hmac_hex hmac (session_secret auth) (token_message user (int (now + 28800)))"
  have mac: "length ?mac = 64" using assms(4) by (rule hmac_hex_token)
  have digits: "length (dec_nat (now + 28800)) \<le> 20" using length_dec_nat [of "now + 28800" 19] assms(3) by simp
  from mac have gen: "auth_generate_session_token hmac auth now user 512 = session_token user (now + 28800) ?mac"
    using assms(2) digits by (intro generate_session_token) (simp add: session_token_def)
  show "length (auth_generate_session_token hmac auth now user 512) \<le> 429"
    unfolding gen using assms(2) digits mac by (simp add: session_token_def)
  show "CHR '';'' \<notin> set (auth_generate_session_token hmac auth now user 512)"
    unfolding gen using assms(1) dec_no_semicolon [of "now + 28800"] hex_no_semicolon by (simp add: session_token_def hmac_hex_def)
qed

lemma session_cookie:
  assumes "user \<noteq> []" "CHR '':'' \<notin> set user" "CHR '';'' \<notin> set user" "length user \<le> 63"
    and "ap_now env + 28800 < 2 ^ 63" "\<And>m. length (ap_hmac env (session_secret (srv_auth (as_soc st))) m) = 32"
    and "token = auth_generate_session_token (ap_hmac env) (srv_auth (as_soc st)) (ap_now env) user 512"
  shows "cookie_ok (env\<lparr>ap_now := later\<rparr>) (Some (''session_token='' @ token)) st \<longleftrightarrow> later < ap_now env + 28800"
proof -
  have tok: "CHR '';'' \<notin> set token" "length token \<le> 429"
    unfolding assms(7) using assms(3-6) by (intro login_token; simp)+
  then have "cookie_token (''session_token='' @ token) = Some token" by (intro cookie_token_alone) simp_all
  moreover have "length (dec_nat (ap_now env + 28800)) \<le> 20" using length_dec_nat [of "ap_now env + 28800" 19] assms(5) by simp
  then have "auth_verify_session_token (ap_hmac env) (srv_auth (as_soc st)) later token 128 =
      (if later < ap_now env + 28800 then Some user else None)"
    unfolding assms(7) using assms by (intro session_lifetime) simp_all
  ultimately show ?thesis by (simp add: cookie_ok_def session_ok_def)
qed

subsection \<open>Properties\<close>

text \<open>C30: A login opens a session of eight hours: with the password of a user in the request, the reply sets a cookie, and a request that
  brings this cookie back, at any later time and to the same server, is authenticated exactly until the eight hours are over. The name has no
  colon or semicolon, HMAC-SHA256 gives 32 bytes, and the end of the session fits \<^verbatim>\<open>time_t\<close>.\<close>

theorem login_opens_session:
  assumes "user = json_field ''username'' 63 body" "pass = json_field ''password'' 63 body" "user \<noteq> []" "pass \<noteq> []"
    and "auth_verify_login (ap_crypt env) (ap_users env) user pass" "CHR '':'' \<notin> set user" "CHR '';'' \<notin> set user"
    and "ap_now env + 28800 < 2 ^ 63" "\<And>m. length (ap_hmac env (session_secret (srv_auth (as_soc st))) m) = 32"
  shows "\<exists>token reply. as_replies (handle_api_request env fd ''POST'' ''/auth'' body cookie st) = as_replies st @
      [(fd, http_header 200 ''OK'' JSON (''Set-Cookie: session_token='' @ token @
          ''; Path=/; HttpOnly; SameSite=Strict; Max-Age=28800'' @ CRLF) 20, reply)] \<and>
    (\<forall>later. cookie_ok (env\<lparr>ap_now := later\<rparr>) (Some (''session_token='' @ token)) st \<longleftrightarrow> later < ap_now env + 28800)"
proof -
  let ?token = "auth_generate_session_token (ap_hmac env) (srv_auth (as_soc st)) (ap_now env) user 512"
  let ?header = "''Set-Cookie: session_token='' @ ?token @ ''; Path=/; HttpOnly; SameSite=Strict; Max-Age=28800'' @ CRLF"
  have user: "length user \<le> 63" using assms(1) by (simp add: length_field)
  have "strstr_found body (json_pattern ''username'')" "strstr_found body (json_pattern ''password'')"
    using assms(1-4) field_found by auto
  moreover have "length ?header \<le> 1023" using login_token(2) [of user "ap_now env" "ap_hmac env" "srv_auth (as_soc st)"] assms(7-9) user by (simp add: CRLF_def)
  then have "snprintf_buf 1024 ?header = ?header" by (simp add: snprintf_buf_def)
  ultimately have "\<exists>reply. as_replies (api_login env fd body st) = as_replies st @ [(fd, http_header 200 ''OK'' JSON ?header 20, reply)]"
    using assms(1-5) by (simp add: api_login_def Let_def send_http_response_def)
  moreover have "handle_api_request env fd ''POST'' ''/auth'' body cookie st = api_login env fd body st"
    by (simp add: handle_api_request_def Let_def)
  moreover have "cookie_ok (env\<lparr>ap_now := later\<rparr>) (Some (''session_token='' @ ?token)) st \<longleftrightarrow> later < ap_now env + 28800" for later
    using session_cookie [of user env st ?token later] assms user by simp
  ultimately show ?thesis by metis
qed

text \<open>A user and a login request.\<close>

definition login_env :: api_env where
  "login_env = sample_api_env\<lparr>ap_crypt := (\<lambda>_ h. Some h), ap_users := Some (''u:h'' @ [CHR 0x0A])\<rparr>"

definition login_body :: string where
  \<open>login_body = ''{"username":"u","password":"p"}''\<close>

theorem login_opens_session_witness:
  "\<exists>token. cookie_ok (login_env\<lparr>ap_now := 9\<rparr>) (Some (''session_token='' @ token)) sample_api"
proof -
  have f: "''u'' = json_field ''username'' 63 login_body" "''p'' = json_field ''password'' 63 login_body" by code_simp+
  have "fgets_lines 256 (''u:h'' @ [CHR 0x0A]) = [''u:h'' @ [CHR 0x0A]]" by code_simp
  moreover have "user_line (''u:h'' @ [CHR 0x0A]) = Some (''u'', ''h'')" by code_simp
  ultimately have v: "auth_verify_login (ap_crypt login_env) (ap_users login_env) ''u'' ''p''"
    by (simp add: auth_verify_login_def login_env_def)
  have n: "ap_now login_env + 28800 < 2 ^ 63" by (simp add: login_env_def sample_api_env_def)
  have h: "length (ap_hmac login_env (session_secret (srv_auth (as_soc sample_api))) m) = 32" for m
    by (simp add: login_env_def sample_api_env_def)
  have "9 < ap_now login_env + 28800" by (simp add: login_env_def sample_api_env_def)
  then show ?thesis using login_opens_session [OF f _ _ v _ _ n h, of 7 None] by auto
qed

end
