(* ===== verification/Spec2Isabelle.thy ===== *)
theory Spec2Isabelle
  imports Ip_Blocklist_Heap Fw_Daemon Agent_Cpu Block_Path Soc_Session Soc_Server
begin

text \<open>
  This development models the firewall of the repository as shallow embeddings of its C code and proves the properties that make
  its parts, and their composition, correct.

  \<^bold>\<open>The program.\<close> Three programs work together.
  \<^item> The \<^emph>\<open>firewall\<close> (\<^verbatim>\<open>src/kernel\<close>) judges packets: as a user-space daemon behind a netfilter queue (\<^verbatim>\<open>fw_nfq.c\<close>) or as a
    kernel module (\<^verbatim>\<open>fw_inspect.c\<close>), with the same engines: IP blocklist, IP reputation, TCP monitor, HTTP inspection with
    four detectors, YARA scanning and an XDP offload. Alerts go to the agent.
  \<^item> The \<^emph>\<open>agent\<close> (\<^verbatim>\<open>src/agent/fw_agent.c\<close>) keeps the blocklist file and loads it into the firewall, filters duplicate alerts,
    batches events, sends them encrypted to the server and carries out the commands of the server.
  \<^item> The \<^emph>\<open>server\<close> (\<^verbatim>\<open>src/soc-server\<close>) collects the messages of agents in a database, serves the dashboard and its REST interface,
    sends commands to agents and imports threat feeds.

  \<^bold>\<open>Theories.\<close>
  \<^item> Shared: \<open>Fw_Prelude\<close> (words, bytes, C strings, proof collections), \<open>Fw_Types\<close> (\<^verbatim>\<open>fw_inspect.h\<close>, \<^verbatim>\<open>userspace_compat.h\<close>),
    \<open>Text_Scan\<close> (decoding and search loops), \<open>Libc_Text\<close> (\<^verbatim>\<open>fgets\<close>, \<^verbatim>\<open>strtok\<close>, \<^verbatim>\<open>atoi\<close>, \<^verbatim>\<open>inet_pton\<close>), \<open>Posix_Io\<close> (sockets), \<open>Cidr\<close>
    (networks).
  \<^item> Firewall: \<open>Detector\<close> with \<open>Sqli_Detect\<close>, \<open>Cmdi_Detect\<close>, \<open>Path_Detect\<close>, \<open>Bot_Detect\<close>; \<open>Ip_Reputation\<close>, \<open>Ip_Blocklist\<close>, \<open>Tcp_Monitor\<close>,
    \<open>Yara_Engine\<close>, \<open>Http_Inspect\<close>, \<open>Ebpf_Xdp\<close>, each after the C file of that name; \<open>Ip_Blocklist_Heap\<close> (the blocklist as linked nodes in memory);
    \<open>Fw_Nfq\<close> (packet callback and agent channel of the daemon), \<open>Fw_Events\<close> (the events a packet can cause), \<open>Fw_Daemon\<close> (upload
    watcher, \<^verbatim>\<open>main\<close>), \<open>Fw_Inspect_Module\<close> (the kernel module).
  \<^item> Agent: \<open>Agent_Dedup\<close> (duplicate filter), \<open>Agent_Blocklist\<close> (the blocklist file and the commands that rewrite it), \<open>Agent_Cpu\<close>
    (\<^verbatim>\<open>get_cpu_usage\<close>), \<open>Agent\<close> (connections, events, commands, main loop).
  \<^item> Between them: \<open>Aes_Wrapper\<close> (\<^verbatim>\<open>aes_wrapper.c\<close>), \<open>Soc_Protocol\<close> (\<^verbatim>\<open>protocol.h\<close>, event layout), \<open>Soc_Channel\<close> (what one side writes and
    the other reads), \<open>Block_Path\<close> (block and unblock commands from the server to the packets).
  \<^item> Server: \<open>Soc_Sql\<close> and \<open>Soc_Db\<close> (\<^verbatim>\<open>db.c\<close>), \<open>Auth\<close> (\<^verbatim>\<open>auth.c\<close>), \<open>Soc_Receiver\<close>, \<open>Soc_Api\<close>, \<open>Soc_Session\<close> and \<open>Soc_Server\<close> (\<^verbatim>\<open>soc_receiver.c\<close>: agents, web
    interface, logins, start and event loop), \<open>Threat_Intel\<close> (\<^verbatim>\<open>threat_intel.c\<close>).

  \<^bold>\<open>How code corresponds to definitions.\<close> Each C function is a definition of its name; loops and handlers of long functions are
  definitions of their own. Static variables of a file are fields of a record that its functions take and return
  (\<open>fw_state\<close>, \<open>agent_state\<close>, \<open>soc_state\<close>, \<open>api_state\<close>). Machine integers are words of their width where they can wrap or are shifted, bytes are
  characters, fixed buffers are lists whose bounds are proved. Everything the code gets from outside (clock, allocation, files,
  system calls, OpenSSL, libpq, libyara, libbpf, libcurl, uninitialised memory, the result of undefined shifts) is a field of an environment record and
  arbitrary in every theorem (for the kernel module the tick rate \<^verbatim>\<open>HZ\<close> and the result of \<^verbatim>\<open>pskb_may_pull\<close> too); where a theorem needs a law of it, such as that decryption inverts encryption (\<open>evp_ok\<close>) or that CBC
  adds at most 32 bytes (\<open>cbc_sizes\<close>), the law is a named hypothesis with a concrete instance in the witness. Failures are branches
  of the definitions: return codes, option values, closed connections. \<^verbatim>\<open>atoi\<close> and \<^verbatim>\<open>atoll\<close>, undefined in C for numbers out of range, follow
  glibc: they saturate at 64 bits, and \<^verbatim>\<open>atoi\<close> keeps the low 32.

  \<^bold>\<open>Interfaces.\<close> The locales \<open>detector\<close>, \<open>url_decoder\<close>, \<open>cidr_list\<close>, \<open>reputation_store\<close>, \<open>bounded_queue\<close>, \<open>envelope\<close>, \<open>message_framing\<close>, \<open>db_client\<close>
  and \<open>block_enforcer\<close> (the daemon and the kernel module) state what one component promises another; each is interpreted on the definitions of the component that provides it.

  \<^bold>\<open>What is proved.\<close>
  \<^item> Across components, here and in \<open>Block_Path\<close>: a block requested on the dashboard ends in dropped packets, by the daemon or by the
    kernel module, and an unblock command lets the source through again; an alert, and a batch of events, end in the database, the latter unless it is too large; the daemon
    keeps all its invariants under any interleaving of its steps; a ruined reputation sticks. Two exceptions of the code are in the
    statements: packets of local sources are accepted while local blocking is off, and packets of loopback, of the default gateway
    and, in a container, of the host network of Docker Desktop are never judged (\<open>is_bypassed_ip\<close>). \<open>outside\<close> says of a source that neither applies, that is that it
    is not local, the gateway has been looked up and the source is not the gateway.
  \<^item> Firewall: the pointer code of the blocklist as a refinement of its lists; exactness of blocklist, HTTP decision, SYN flood and
    Slowloris decisions; the reputation table as a map, the upload ring as a queue; no read outside the packet; the bounds of the
    event channel; the lock-out of attackers; the invariant of the kernel module and its agreement with the daemon; behaviour of the XDP program; decoding of
    upload events and release of resources by \<^verbatim>\<open>main\<close>.
  \<^item> Agent: the invariant of every reachable state, the effect of each command on the blocklist that is loaded next, the duplicate
    filter, what happens to alerts while the server is unreachable.
  \<^item> Server: reassembly of messages from any chunking, the invariant of the whole server (buffers, whitelist, fixed SQL statements)
    over every event and feed step, session tokens and logins, whitelist, escaping, that requests without a session change nothing, the start.
  Theorems named after a defect (for instance \<open>batch_too_large_lost\<close>, \<open>blocklist_race_faults\<close> or \<open>cpu_usage_counts_interrupts\<close>)
  state what the code does where that is not what its documentation or purpose says.

  \<^bold>\<open>Loops, bounds and fuel.\<close> Loops are total functions with a measure; the walks along pointers of \<open>Ip_Blocklist_Heap\<close> are partial
  functions that are shown to return. Where a loop consumes input from outside, the list of the results of its system calls is the
  bound; \<open>agent_serve\<close> takes a number of readiness events, and \<open>soc_receives_messages\<close> shows that as many as the stream has results and
  bytes are enough. The drain loop of the YARA queue has as fuel the number of slots, which is proved to
  suffice; the fifteen attempts to reach the database are those of the code.

  \<^bold>\<open>Not modelled.\<close>
  \<^item> The floating-point values of the health report: their bytes are an input (\<open>Agent_Cpu\<close> stops before the division).
  \<^item> Log output, and what locks protect: critical sections are atomic steps. The blocklist of the daemon has no lock in effect; \<open>Fw_Nfq\<close>
    takes its replacement as one step nevertheless, and \<open>Ip_Blocklist_Heap\<close> shows what can happen in between.
  \<^item> Memory after \<^verbatim>\<open>free\<close>: events of \<^verbatim>\<open>epoll\<close> for a connection freed earlier in the same batch are left out, and after
    \<^verbatim>\<open>cleanup_conn_pool\<close> there is no pool, where the code keeps the stale pointer.
  \<^item> Failed allocations of a new reputation entry, which the code does not check, and of a new connection of the server.
  \<^item> What PostgreSQL does with a statement: \<open>db_log\<close> holds the statements issued, their results are inputs, and a connection that
    was good at the start is not lost later. Times are those \<^verbatim>\<open>gmtime\<close> can convert, and not negative.
  \<^item> The Java dashboard, the demonstration web application and the test programs, which are not part of the C product.
\<close>

section \<open>Properties that span the components\<close>

subsection \<open>Shared lemmas\<close>

lemma flush_received:
  assumes "agent_ok st" "0 \<le> ag_soc_fd st" "ag_last_flush st + 10 \<le> ae_time_late env"
    and "ag_event_buffer st \<noteq> []" "length (ag_event_buffer st) \<le> 160"
    and "snd (send_to_soc env MSG_TYPE_BATCH (concat (ag_event_buffer st)) st) = 0"
    and "evp_ok (ae_evp env (ag_calls st)) (sv_evp senv)" "cbc_sizes (ae_evp env (ag_calls st))"
    and "srv_conns sst fd = Some c0" "idle c0" "polite rs" "stream_size rs \<le> n"
    and "pending rs = drop (length (ag_soc_out st)) (ag_soc_out (flush_events env st))"
  shows "\<exists>first last. db_log (srv_db (fst (agent_serve n senv rs fd sst))) = db_log (srv_db sst) @
    (sql_register_agent, first) # map (\<lambda>e. (sql_insert_event, event_params (ag_uuid st) e)) (ag_event_buffer st) @
    [(sql_insert_agent_log, last)]"
proof -
  let ?es = "ag_event_buffer st" and ?e = "ae_evp env (ag_calls st)"
  have es: "list_all (\<lambda>e. length e = EVENT_SIZE) ?es" and u: "length (ag_uuid st) = 16" using assms(1) by (simp_all add: agent_ok_def)
  obtain c where c: "aes_encrypt ?e (concat ?es) = Some c"
      "ag_soc_out (flush_events env st) = ag_soc_out st @ encode_hdr (make_hdr (ag_uuid st) MSG_TYPE_BATCH (length c)) @ c"
    using flush_bytes [OF assms(1-4,6)] by blast
  have "length c \<le> EVENT_SIZE * length ?es + 32" using cbc_sizesD [OF assms(8) c(1)] unfolding length_batch [OF es] by simp
  then have small: "length c < BUFFER_SIZE" using assms(5) by (simp add: BUFFER_SIZE_def EVENT_SIZE_def)
  have "pending rs = encode_hdr (make_hdr (ag_uuid st) MSG_TYPE_BATCH (length c)) @ c" using assms(13) c(2) by simp
  note m = sent_message_served [OF c(1) assms(7) small u assms(9-12) this]
  show ?thesis unfolding m(1) by (rule receive_batch [OF assms(9,10) u m(2,3) small es])
qed

text \<open>The same for an alert that the agent sends at once.\<close>

lemma alert_received:
  assumes "length (ag_uuid st) = 16" "ag_userspace_mode st" "ae_fw_read env = GOT e" "length e = EVENT_SIZE" "raw_severity e \<in> {1, 2}"
    and "0 \<le> ag_soc_fd st" "is_duplicate_alert e (ag_dedup st) = (d, False)"
    and "snd (send_to_soc env MSG_TYPE_ALERT e (st\<lparr>ag_dedup := d\<rparr>)) = 0"
    and "evp_ok (ae_evp env (ag_calls st)) (sv_evp senv)" "cbc_sizes (ae_evp env (ag_calls st))"
    and "srv_conns sst fd = Some c0" "idle c0" "polite rs" "stream_size rs \<le> n"
    and "pending rs = drop (length (ag_soc_out st)) (ag_soc_out (fst (fw_input env st)))"
  shows "\<exists>first last. db_log (srv_db (fst (agent_serve n senv rs fd sst))) = db_log (srv_db sst) @
    [(sql_register_agent, first), (sql_insert_event, event_params (ag_uuid st) e), (sql_insert_agent_log, last)]"
proof -
  obtain c where c: "aes_encrypt (ae_evp env (ag_calls st)) e = Some c"
      "ag_soc_out (fst (fw_input env st)) = ag_soc_out st @ encode_hdr (make_hdr (ag_uuid st) MSG_TYPE_ALERT (length c)) @ c"
    by (rule alert_bytes [OF assms(2-5,7,6,8)])
  have small: "length c < BUFFER_SIZE" using cbc_sizesD [OF assms(10) c(1)] assms(4) by (simp add: BUFFER_SIZE_def EVENT_SIZE_def)
  have "pending rs = encode_hdr (make_hdr (ag_uuid st) MSG_TYPE_ALERT (length c)) @ c" using assms(15) c(2) by simp
  note m = sent_message_served [OF c(1) assms(9) small assms(1) assms(11-14) this]
  show ?thesis unfolding m(1) by (rule receive_alert [OF assms(11,12,1) m(2,3) small assms(4)])
qed

lemma flush_refused:
  assumes "agent_ok st" "0 \<le> ag_soc_fd st" "ag_last_flush st + 10 \<le> ae_time_late env" "160 < length (ag_event_buffer st)"
    and "snd (send_to_soc env MSG_TYPE_BATCH (concat (ag_event_buffer st)) st) = 0" "cbc_sizes (ae_evp env (ag_calls st))"
    and "srv_conns sst fd = Some c0" "idle c0"
  shows "let sst' = fst (agent_readable senv (GOT (drop (length (ag_soc_out st)) (ag_soc_out (flush_events env st))) # rs) fd sst) in
    ag_event_buffer (flush_events env st) = [] \<and> srv_conns sst' fd = None \<and>
    sql_insert_event \<notin> fst ` set (drop (length (db_log (srv_db sst))) (db_log (srv_db sst')))"
proof -
  let ?es = "ag_event_buffer st" and ?e = "ae_evp env (ag_calls st)"
  have es: "list_all (\<lambda>e. length e = EVENT_SIZE) ?es" "length ?es \<le> EVENT_BUFFER_SIZE" and u: "length (ag_uuid st) = 16"
    using assms(1) by (simp_all add: agent_ok_def)
  have ne: "?es \<noteq> []" using assms(4) by auto
  obtain c where c: "aes_encrypt ?e (concat ?es) = Some c"
      "ag_soc_out (flush_events env st) = ag_soc_out st @ encode_hdr (make_hdr (ag_uuid st) MSG_TYPE_BATCH (length c)) @ c"
      "ag_event_buffer (flush_events env st) = []"
    using flush_bytes [OF assms(1-3) ne assms(5)] by blast
  let ?h = "make_hdr (ag_uuid st) MSG_TYPE_BATCH (length c)"
  have len: "EVENT_SIZE * length ?es \<le> length c" "length c \<le> EVENT_SIZE * length ?es + 32"
    using cbc_sizesD [OF assms(6) c(1)] unfolding length_batch [OF es(1)] by simp_all
  then have big: "BUFFER_SIZE \<le> length c" and "length c < 2 ^ 32"
    using assms(4) es(2) by (simp_all add: BUFFER_SIZE_def EVENT_SIZE_def EVENT_BUFFER_SIZE_def)
  then have "BUFFER_SIZE \<le> body_len (parse_hdr (encode_hdr ?h))"
    using parse_encode_hdr [of ?h "[]"] u by simp
  moreover have "length (encode_hdr ?h) = HDR_SIZE" using u by simp
  moreover have "sql_insert_event \<noteq> sql_insert_agent_log" by (simp add: sql_insert_event_def sql_insert_agent_log_def)
  ultimately show ?thesis
    using bad_header_drop [OF assms(7,8), of "encode_hdr ?h" senv c rs] c(2,3)
    by (simp add: Let_def db_insert_agent_log_def)
qed

subsection \<open>Properties\<close>

text \<open>C4: In every state the daemon can reach, by any interleaving of packets, agent connections, blocklist
  loads of arbitrary bytes, uploads and worker rounds, all component invariants hold: the
  reputation table is well formed with scores from 0 to 100, the connection pool and the blocklist are well formed,
  and the upload ring is.\<close>

theorem fw_reachable_invariant:
  assumes "fw_reachable st"
  shows "fw_ok st \<and> 0 \<le> get_ip_reputation (fs_rep st) ip \<and> get_ip_reputation (fs_rep st) ip \<le> 100"
proof -
  from assms have "fw_ok st"
    by (induction rule: fw_reachable.induct) (auto intro: start_ok fw_step_ok)
  moreover from this have "rep_ok (fs_rep st)" by (simp add: fw_ok_def)
  ultimately show ?thesis using get_range [of "fs_rep st" ip] by simp
qed

theorem fw_reachable_invariant_witness:
  "fw_ok (agent_load sample_nfq (parse_payload (encode_payload sample_payload)) sample_state)"
proof -
  have "fw_reachable (agent_load sample_nfq (parse_payload (encode_payload sample_payload)) sample_state)"
    by (rule fw_reachable.step [OF fw_reachable.start [OF sample_started] fw_step.load])
  then show ?thesis using fw_reachable_invariant by blast
qed

text \<open>C7: A ruined reputation sticks: once a source is at 20 or below, every packet of it in any further sequence of
  packets, interleaved with packets of any other sources, is dropped, until the agent loads a new blocklist. The source is
  outside the local networks and is not the default gateway, which the daemon has looked up before.\<close>

theorem fw_low_reputation_sticks:
  assumes "fw_ok st" and "outside st src" and "get_ip_reputation (fs_rep st) src \<le> 20"
  shows "set (map snd (filter (\<lambda>(p, v). packet_from src (snd p)) (zip pkts (snd (nfq_run pkts st))))) \<subseteq> {NF_DROP}"
  using assms by (rule nfq_run_low_reputation)

text \<open>A source that has done 90 points of damage.\<close>

definition ruined_state :: fw_state where
  "ruined_state = sample_state\<lparr>fs_gw_initialized := True,
     fs_rep := fst (update_ip_reputation 1 init_ip_reputation (le32 (CHR 0xCB) NUL (CHR 0x71) (CHR 0x4D)) 90 6)\<rparr>"

theorem fw_low_reputation_sticks_witness:
  "snd (nfq_run [(sample_nfq, Some (header_from (CHR 0xCB) NUL (CHR 0x71) (CHR 0x4D)))] ruined_state) = [NF_DROP]"
proof -
  let ?src = "le32 (CHR 0xCB) NUL (CHR 0x71) (CHR 0x4D)"
  let ?pkts = "[(sample_nfq, Some (header_from (CHR 0xCB) NUL (CHR 0x71) (CHR 0x4D)))]"
  have ok: "fw_ok ruined_state"
    using start_ok [OF sample_started] update_rep_ok [OF init_rep_ok] by (simp add: fw_ok_def ruined_state_def)
  have out: "outside ruined_state ?src"
    by (simp add: outside_def ruined_state_def sample_state_def is_local_ip_def octet_def le32_def byte_swap32_def Let_def)
  have "get_ip_reputation (fs_rep ruined_state) ?src \<le> 20"
    unfolding ruined_state_def
    by (simp add: rep.get_upd [OF init_rep_ok] update_get_score [OF init_rep_ok] get_rep_abs [of init_ip_reputation] init_rep_abs)
  from fw_low_reputation_sticks [OF ok out this, of ?pkts] header_from_packet
  show ?thesis by (auto split: prod.splits)
qed

text \<open>C2: Buffered events reach the database: when a flush that is due sends at most 160 buffered events on an open connection, the
  agent empties its buffer, and the server, whatever pieces the network delivers the bytes in, inserts exactly these
  events, in order and under the identity of the agent, between the registration of the agent and one log entry.\<close>

theorem batch_reaches_database:
  assumes "agent_ok st" "0 \<le> ag_soc_fd st" "ag_last_flush st + 10 \<le> ae_time_late env"
    and "ag_event_buffer st \<noteq> []" "length (ag_event_buffer st) \<le> 160"
    and "snd (send_to_soc env MSG_TYPE_BATCH (concat (ag_event_buffer st)) st) = 0"
    and "evp_ok (ae_evp env (ag_calls st)) (sv_evp senv)" "cbc_sizes (ae_evp env (ag_calls st))"
    and "srv_conns sst fd = Some c0" "idle c0" "polite rs" "stream_size rs \<le> n"
    and "pending rs = drop (length (ag_soc_out st)) (ag_soc_out (flush_events env st))"
  shows "ag_event_buffer (flush_events env st) = [] \<and>
    (\<exists>first last. db_log (srv_db (fst (agent_serve n senv rs fd sst))) = db_log (srv_db sst) @
      (sql_register_agent, first) # map (\<lambda>e. (sql_insert_event, event_params (ag_uuid st) e)) (ag_event_buffer st) @
      [(sql_insert_agent_log, last)])"
proof
  show "ag_event_buffer (flush_events env st) = []" using flush_bytes [OF assms(1-4,6)] by blast
qed (rule flush_received [OF assms])

text \<open>An agent with an open connection and some buffered events, at a time when a flush is due.\<close>

definition flush_env :: agent_env where
  "flush_env = quiet_env\<lparr>ae_time_late := 10\<rparr>"

definition busy_agent :: "nat \<Rightarrow> agent_state" where
  "busy_agent k = sample_agent\<lparr>ag_soc_fd := 3, ag_event_buffer := replicate k (sample_alert 1)\<rparr>"

lemma busy_agent_ok: "k \<le> 512 \<Longrightarrow> agent_ok (busy_agent k)"
proof -
  have "agent_ok sample_agent" unfolding sample_agent_def by (rule agent_start_ok) simp_all
  then show "k \<le> 512 \<Longrightarrow> agent_ok (busy_agent k)"
    by (simp add: agent_ok_def busy_agent_def EVENT_BUFFER_SIZE_def sample_alert_def list_all_iff)
qed

lemma busy_agent_facts:
  "0 \<le> ag_soc_fd (busy_agent k)" "ag_event_buffer (busy_agent k) = replicate k (sample_alert 1)"
  "ag_last_flush (busy_agent k) + 10 \<le> ae_time_late flush_env" "ag_uuid (busy_agent k) = replicate 16 (CHR ''u'')"
  by (simp_all add: busy_agent_def sample_agent_def agent_start_def Let_def quiet_env_def flush_env_def connect_to_soc_def
    load_and_push_blocklist_def connect_to_firewall_def connect_netlink_def)

lemma flush_env_evp: "ae_evp flush_env m = plain_evp"
  by (simp add: flush_env_def quiet_env_def)

lemma busy_agent_sends: "snd (send_to_soc flush_env MSG_TYPE_BATCH p (busy_agent k)) = 0"
  by (simp add: send_to_soc_def busy_agent_facts(1) [THEN leD] soc_transmit_def Let_def flush_env_evp plain_evp_encrypt)
     (simp add: flush_env_def quiet_env_def HDR_SIZE_def)

theorem batch_reaches_database_witness:
  "let bytes = drop (length (ag_soc_out (busy_agent 2))) (ag_soc_out (flush_events flush_env (busy_agent 2))) in
   fst ` set (db_log (srv_db (fst (agent_serve (length bytes + 3) sample_soc_env [AGAIN, GOT bytes] 4
      (accept_agent sample_soc_env 4 0x0100007F sample_soc))))) \<supseteq> {sql_insert_event}"
proof -
  let ?st = "busy_agent 2" and ?sst = "accept_agent sample_soc_env 4 0x0100007F sample_soc"
  let ?bytes = "drop (length (ag_soc_out ?st)) (ag_soc_out (flush_events flush_env ?st))"
  have evp: "sv_evp sample_soc_env = plain_evp" by (simp add: sample_soc_env_def)
  have buf: "ag_event_buffer ?st \<noteq> []" "length (ag_event_buffer ?st) \<le> 160" by (simp_all add: busy_agent_facts(2))
  have ok: "agent_ok ?st" by (rule busy_agent_ok) simp
  obtain c where "ag_soc_out (flush_events flush_env ?st) =
      ag_soc_out ?st @ encode_hdr (make_hdr (ag_uuid ?st) MSG_TYPE_BATCH (length c)) @ c"
    using flush_bytes [OF ok busy_agent_facts(1,3) buf(1) busy_agent_sends] by blast
  moreover have "length (encode_hdr (make_hdr (ag_uuid ?st) MSG_TYPE_BATCH (length c))) = HDR_SIZE"
    by (simp add: busy_agent_facts(4))
  ultimately have "?bytes \<noteq> []" by (auto simp: HDR_SIZE_def)
  then have rs: "polite [AGAIN, GOT ?bytes]" "stream_size [AGAIN, GOT ?bytes] \<le> length ?bytes + 3" "pending [AGAIN, GOT ?bytes] = ?bytes"
    by (simp_all add: polite_def stream_size_def)
  have "\<exists>first last. db_log (srv_db (fst (agent_serve (length ?bytes + 3) sample_soc_env [AGAIN, GOT ?bytes] 4 ?sst))) =
      db_log (srv_db ?sst) @ (sql_register_agent, first) #
      map (\<lambda>e. (sql_insert_event, event_params (ag_uuid ?st) e)) (ag_event_buffer ?st) @ [(sql_insert_agent_log, last)]"
    using batch_reaches_database [OF ok busy_agent_facts(1,3) buf busy_agent_sends _ _ sample_idle(2,1) rs, of sample_soc_env]
      plain_evp_ok plain_sizes by (simp only: flush_env_evp evp)
  then show ?thesis unfolding Let_def busy_agent_facts(2) by (elim exE) (simp add: numeral_2_eq_2)
qed

text \<open>A large batch is lost: with more than 160 buffered events the message does not fit the receive buffer of the server,
  which drops the connection as soon as the header has arrived and inserts no event, while the agent has emptied its
  buffer of 512 events because all bytes were written.\<close>

theorem batch_too_large_lost:
  assumes "agent_ok st" "0 \<le> ag_soc_fd st" "ag_last_flush st + 10 \<le> ae_time_late env" "160 < length (ag_event_buffer st)"
    and "snd (send_to_soc env MSG_TYPE_BATCH (concat (ag_event_buffer st)) st) = 0" "cbc_sizes (ae_evp env (ag_calls st))"
    and "srv_conns sst fd = Some c0" "idle c0"
  shows "let sst' = fst (agent_readable senv (GOT (drop (length (ag_soc_out st)) (ag_soc_out (flush_events env st))) # rs) fd sst) in
    ag_event_buffer (flush_events env st) = [] \<and> srv_conns sst' fd = None \<and>
    sql_insert_event \<notin> fst ` set (drop (length (db_log (srv_db sst))) (db_log (srv_db sst')))"
  by (rule flush_refused [OF assms])

theorem batch_too_large_lost_witness:
  "ag_event_buffer (flush_events flush_env (busy_agent 161)) = []"
proof -
  have "agent_ok (busy_agent 161)" by (rule busy_agent_ok) simp
  moreover have "160 < length (ag_event_buffer (busy_agent 161))" by (simp only: busy_agent_facts(2) length_replicate)
  ultimately show ?thesis
    using batch_too_large_lost [OF _ busy_agent_facts(1,3) _ busy_agent_sends _ sample_idle(2,1), of 161] plain_sizes
    unfolding flush_env_evp Let_def by blast
qed

text \<open>C3: An alert reaches the database: an event that the daemon delivers while it judges a packet names the source of that packet,
  and the packet is dropped unless its source is local and local blocking is off, when it is accepted. If the event is a warning or critical and
  the agent has not seen its like in its window of duplicates, the agent that reads it sends it at once, and when all bytes
  could be sent the server, whatever pieces they arrive in, inserts exactly this event under the identity of the agent, with the address of
  the source, between the registration of the agent and one log entry.\<close>

theorem alert_reaches_database:
  assumes "fw_nfq_callback nenv payload fw = (fw', v)" "ev \<in> set (drop (length (fs_delivered fw)) (fs_delivered fw'))"
    and "ev_severity ev \<noteq> SEVERITY_INFO"
    and "agent_ok st" "ag_userspace_mode st" "ae_fw_read env = GOT (encode_event ev)" "0 \<le> ag_soc_fd st"
    and "is_duplicate_alert (encode_event ev) (ag_dedup st) = (d, False)"
    and "snd (send_to_soc env MSG_TYPE_ALERT (encode_event ev) (st\<lparr>ag_dedup := d\<rparr>)) = 0"
    and "evp_ok (ae_evp env (ag_calls st)) (sv_evp senv)" "cbc_sizes (ae_evp env (ag_calls st))"
    and "srv_conns sst fd = Some c0" "idle c0" "polite rs" "stream_size rs \<le> n"
    and "pending rs = drop (length (ag_soc_out st)) (ag_soc_out (fst (fw_input env st)))"
  shows "v = (if is_local_ip (ev_src_ip ev) \<and> g_block_local_ips (fs_bl fw) = 0 then NF_ACCEPT else NF_DROP) \<and>
    packet_from (ev_src_ip ev) payload \<and>
    (\<exists>first params last. db_log (srv_db (fst (agent_serve n senv rs fd sst))) = db_log (srv_db sst) @
      [(sql_register_agent, first), (sql_insert_event, params), (sql_insert_agent_log, last)] \<and>
      params = event_params (ag_uuid st) (encode_event ev) \<and> params ! 2 = Some (inet_ntop (ev_src_ip ev)))"
proof -
  have "fw' = fst (fw_nfq_callback nenv payload fw)" "v = snd (fw_nfq_callback nenv payload fw)" using assms(1) by simp_all
  then have judged: "v = (if is_local_ip (ev_src_ip ev) \<and> g_block_local_ips (fs_bl fw) = 0 then NF_ACCEPT else NF_DROP)"
      "packet_from (ev_src_ip ev) payload"
    using callback_new_event(2,3) [of ev fw nenv payload] assms(2) by simp_all
  have u: "length (ag_uuid st) = 16" using assms(4) by (simp add: agent_ok_def)
  have "\<exists>first last. db_log (srv_db (fst (agent_serve n senv rs fd sst))) = db_log (srv_db sst) @
      [(sql_register_agent, first), (sql_insert_event, event_params (ag_uuid st) (encode_event ev)), (sql_insert_agent_log, last)]"
    by (rule alert_received [OF u assms(5,6) length_encode_event raw_severity_alert [OF assms(3)] assms(7-16)])
  moreover have "event_params (ag_uuid st) (encode_event ev) ! 2 = Some (inet_ntop (ev_src_ip ev))"
    by (simp add: event_params_def ip_to_str_def raw_encode_event)
  ultimately show ?thesis using judged by blast
qed

text \<open>The event of a packet of the listed source, and an agent that reads it.\<close>

definition sample_block_event :: fw_event where
  "sample_block_event = blocklist_event 1 (ip_hdr (\<lambda>_. NUL) \<lparr>skb_data = header_from (CHR 0xCB) NUL (CHR 0x71) (CHR 0x4D)\<rparr>)"

definition alert_env :: agent_env where
  "alert_env = quiet_env\<lparr>ae_fw_read := GOT (encode_event sample_block_event)\<rparr>"

definition alert_agent :: agent_state where
  "alert_agent = sample_agent\<lparr>ag_soc_fd := 3, ag_userspace_mode := True\<rparr>"

lemma sample_block_event_facts:
  "ev_src_ip sample_block_event = le32 (CHR 0xCB) NUL (CHR 0x71) (CHR 0x4D)" "ev_severity sample_block_event \<noteq> SEVERITY_INFO"
  "raw_threat_type (encode_event sample_block_event) = 5"
  by (simp_all add: sample_block_event_def blocklist_event_def ip_event_def header_from_saddr raw_encode_event)

lemma sample_block_event_delivered:
  "sample_block_event \<in> set (drop (length (fs_delivered watched_state)) (fs_delivered (fst (fw_nfq_callback sample_nfq
     (Some (header_from (CHR 0xCB) NUL (CHR 0x71) (CHR 0x4D))) watched_state))))"
proof -
  let ?data = "header_from (CHR 0xCB) NUL (CHR 0x71) (CHR 0x4D)" and ?src = "le32 (CHR 0xCB) NUL (CHR 0x71) (CHR 0x4D)"
  let ?iph = "ip_hdr (ne_oob sample_nfq) \<lparr>skb_data = ?data\<rparr>"
  obtain st' where b: "is_bypassed_ip sample_nfq watched_state ?src = (st', False)"
    using outside_not_bypassed(1) [OF watched_outside, of sample_nfq] by (metis prod.collapse)
  note f = bypass_frame [OF b]
  have w: "fs_bl watched_state = fs_bl guarded_state" "fs_agent_fd watched_state = 5" by (simp_all add: watched_state_def agent_connect_def)
  have bl: "inspect_ip_blocklist (ne_ub_shift sample_nfq) (fs_bl st') ?src" using f w(1) guarded_listed by simp
  have src: "ip_saddr ?iph = ?src" by (rule header_from_saddr)
  have send: "ne_send sample_nfq n = SENT" for n by (simp add: sample_nfq_def)
  let ?r = "fst (check_reputation sample_nfq ?iph (st', NF_ACCEPT))"
  have r: "fs_agent_fd ?r = 5" "prefix (fs_delivered watched_state) (fs_delivered ?r)"
    using f w(2) by (simp_all add: check_reputation_def Let_def send_fw_event_def send)
  have "fst (check_blocklist sample_nfq ?iph (check_reputation sample_nfq ?iph (st', NF_ACCEPT))) =
      send_fw_event sample_nfq sample_block_event ?r"
    using bl src by (simp add: check_blocklist_def sample_block_event_def sample_nfq_def)
  moreover have "ip_protocol ?iph \<noteq> IPPROTO_TCP" by (simp add: ip_hdr_def skb_byte_def header_from_def IPPROTO_TCP_def Let_def)
  ultimately have "fst (fw_nfq_callback sample_nfq (Some ?data) watched_state) = send_fw_event sample_nfq sample_block_event ?r"
    using b src by (simp add: fw_nfq_callback_def length_header_from check_tcp_def Let_def)
  then show ?thesis using r by (auto simp: send_fw_event_def send elim!: prefixE)
qed

lemma alert_agent_facts:
  "agent_ok alert_agent" "ag_userspace_mode alert_agent" "0 \<le> ag_soc_fd alert_agent" "ag_dedup alert_agent = dedup_boot"
  "ag_uuid alert_agent = replicate 16 (CHR ''u'')" "ae_evp alert_env m = plain_evp"
  "snd (send_to_soc alert_env MSG_TYPE_ALERT p (alert_agent\<lparr>ag_dedup := d\<rparr>)) = 0"
proof -
  have "agent_ok sample_agent" unfolding sample_agent_def by (rule agent_start_ok) simp_all
  then show "agent_ok alert_agent" by (simp add: agent_ok_def alert_agent_def)
  show evp: "ae_evp alert_env m = plain_evp" for m by (simp add: alert_env_def quiet_env_def)
  show "snd (send_to_soc alert_env MSG_TYPE_ALERT p (alert_agent\<lparr>ag_dedup := d\<rparr>)) = 0"
    by (simp add: send_to_soc_def alert_agent_def soc_transmit_def Let_def evp plain_evp_encrypt)
      (simp add: alert_env_def quiet_env_def HDR_SIZE_def)
qed (simp_all add: alert_agent_def sample_agent_def agent_start_def Let_def quiet_env_def connect_to_soc_def
    load_and_push_blocklist_def connect_to_firewall_def connect_netlink_def)

theorem alert_reaches_database_witness:
  "let bytes = drop (length (ag_soc_out alert_agent)) (ag_soc_out (fst (fw_input alert_env alert_agent))) in
   snd (fw_nfq_callback sample_nfq (Some (header_from (CHR 0xCB) NUL (CHR 0x71) (CHR 0x4D))) watched_state) = NF_DROP \<and>
   fst ` set (db_log (srv_db (fst (agent_serve (length bytes + 3) sample_soc_env [AGAIN, GOT bytes] 4
      (accept_agent sample_soc_env 4 0x0100007F sample_soc))))) \<supseteq> {sql_insert_event}"
proof -
  let ?e = "encode_event sample_block_event"
  let ?bytes = "drop (length (ag_soc_out alert_agent)) (ag_soc_out (fst (fw_input alert_env alert_agent)))"
  have evp: "sv_evp sample_soc_env = plain_evp" by (simp add: sample_soc_env_def)
  obtain d where d: "is_duplicate_alert ?e (ag_dedup alert_agent) = (d, False)"
    by (simp add: alert_agent_facts(4) is_duplicate_alert_def dedup_scan_iff dedup_boot_def dedup_hit_def
        sample_block_event_facts(3) DEDUPLICATION_CACHE_SIZE_def)
  have rd: "ae_fw_read alert_env = GOT ?e" by (simp add: alert_env_def)
  obtain c where "ag_soc_out (fst (fw_input alert_env alert_agent)) =
      ag_soc_out alert_agent @ encode_hdr (make_hdr (ag_uuid alert_agent) MSG_TYPE_ALERT (length c)) @ c"
    by (rule alert_bytes [OF alert_agent_facts(2) rd length_encode_event raw_severity_alert [OF sample_block_event_facts(2)] d alert_agent_facts(3,7)])
  moreover have "length (encode_hdr (make_hdr (ag_uuid alert_agent) MSG_TYPE_ALERT (length c))) = HDR_SIZE"
    by (simp add: alert_agent_facts(5))
  ultimately have "?bytes \<noteq> []" by (auto simp: HDR_SIZE_def)
  then have rs: "polite [AGAIN, GOT ?bytes]" "stream_size [AGAIN, GOT ?bytes] \<le> length ?bytes + 3" "pending [AGAIN, GOT ?bytes] = ?bytes"
    by (simp_all add: polite_def stream_size_def)
  have far: "\<not> is_local_ip (ev_src_ip sample_block_event)"
    unfolding sample_block_event_facts(1) using watched_outside by (simp add: outside_def)
  have env: "evp_ok (ae_evp alert_env m) (sv_evp sample_soc_env)" "cbc_sizes (ae_evp alert_env m)" for m
    using plain_evp_ok plain_sizes by (simp_all add: alert_agent_facts(6) evp)
  from alert_reaches_database [OF prod.collapse [symmetric] sample_block_event_delivered sample_block_event_facts(2) alert_agent_facts(1,2) rd
      alert_agent_facts(3) d alert_agent_facts(7) env sample_idle(2,1) rs]
  show ?thesis unfolding Let_def by (elim conjE exE) (simp add: far)
qed

end
